(* ===== verification/Prelude.thy ===== *)
theory Prelude
  imports Main "HOL-Library.Word" "HOL-Library.State_Monad"
begin

unbundle bit_operations_syntax

text \<open>
  Shared vocabulary of the development: the machine types of the C sources, byte strings
  and C text, the little-endian wire integers, writes into fixed buffers, and the
  collections of rewrite rules that the component theories draw on.

  A byte buffer together with its length is a \<open>bytes\<close> value. A C string is the \<open>bytes\<close>
  before its terminating NUL. A handler that fills \<open>response\<close> and returns the number of
  bytes it produced, or \<open>-1\<close>, returns \<open>Some reply\<close> or \<open>None\<close> here, where \<open>reply\<close> is
  exactly the first \<open>n\<close> bytes of the response buffer.
\<close>

type_synonym u8 = "8 word"
type_synonym u16 = "16 word"
type_synonym u32 = "32 word"
type_synonym bytes = "u8 list"

named_theorems wire_simps "round trips and lengths of wire encodings"
named_theorems ctext_simps "evaluation of C character classes and text constants"
named_theorems io_rules "rules of the trace calculus"

subsection \<open>Text constants and character classes of the C library (C locale)\<close>

definition ascii :: "string \<Rightarrow> bytes" where
  "ascii s = map of_char s"

definition isspace :: "u8 \<Rightarrow> bool" where
  "isspace c \<longleftrightarrow> c = 32 \<or> (9 \<le> c \<and> c \<le> 13)"

definition isdigit :: "u8 \<Rightarrow> bool" where
  "isdigit c \<longleftrightarrow> 48 \<le> c \<and> c \<le> 57"

definition isxdigit :: "u8 \<Rightarrow> bool" where
  "isxdigit c \<longleftrightarrow> isdigit c \<or> (65 \<le> c \<and> c \<le> 70) \<or> (97 \<le> c \<and> c \<le> 102)"

definition tolower :: "u8 \<Rightarrow> u8" where
  "tolower c = (if 65 \<le> c \<and> c \<le> 90 then c + 32 else c)"

text \<open>The text of a buffer that holds a C string: everything before the first NUL.\<close>

definition c_string :: "bytes \<Rightarrow> bytes" where
  "c_string buf = takeWhile (\<lambda>c. c \<noteq> 0) buf"

definition is_c_string :: "bytes \<Rightarrow> bool" where
  "is_c_string s \<longleftrightarrow> 0 \<notin> set s"

lemmas char_class_defs [ctext_simps] = isspace_def isdigit_def isxdigit_def tolower_def

lemma ascii_Nil [simp, ctext_simps]: "ascii [] = []"
  by (simp add: ascii_def)

lemma ascii_Cons [ctext_simps]: "ascii (c # s) = of_char c # ascii s"
  by (simp add: ascii_def)

lemma length_ascii [simp]: "length (ascii s) = length s"
  by (simp add: ascii_def)

lemma unat_u8: "unat (b :: u8) < 256"
  using unsigned_less [of b] by simp

lemma unat_u8_le: "unat (b :: u8) \<le> 255"
  using unat_u8 [of b] by simp

lemma unat_of_char: "unat (of_char c :: u8) = of_char c"
  using of_char_mod_256 [where 'a = nat, of c]
  by (simp add: unat_of_nat flip: of_nat_of_char [where 'a = u8])

lemma of_char_u8_eq_iff: "(of_char c :: u8) = of_char d \<longleftrightarrow> c = d"
proof
  assume "(of_char c :: u8) = of_char d"
  then have "unat (of_char c :: u8) = unat (of_char d :: u8)" by simp
  then show "c = d" by (simp add: unat_of_char)
qed simp

lemma ascii_eq_iff [simp]: "ascii s = ascii t \<longleftrightarrow> s = t"
proof (induction s arbitrary: t)
  case Nil
  then show ?case by (cases t) (simp_all add: ascii_Cons)
next
  case (Cons c s)
  then show ?case by (cases t) (simp_all add: ascii_Cons of_char_u8_eq_iff)
qed

lemma hd_ascii [simp]: "s \<noteq> [] \<Longrightarrow> hd (ascii s) = of_char (hd s)"
  by (cases s) (simp_all add: ascii_Cons)

lemma isspace_0 [simp]: "\<not> isspace 0"
  by (simp add: isspace_def)

lemma isdigit_0 [simp]: "\<not> isdigit 0"
  by (simp add: isdigit_def)

lemma c_string_is_c_string [simp]: "is_c_string (c_string buf)"
  by (auto simp: c_string_def is_c_string_def dest: set_takeWhileD)

lemma c_string_id [simp]: "is_c_string s \<Longrightarrow> c_string s = s"
  by (auto simp: c_string_def is_c_string_def takeWhile_eq_all_conv)

lemma length_c_string_le [simp]: "length (c_string buf) \<le> length buf"
  by (simp add: c_string_def length_takeWhile_le)

lemma is_c_string_Nil [simp]: "is_c_string []"
  by (simp add: is_c_string_def)

lemma is_c_string_append [simp]:
  "is_c_string (xs @ ys) \<longleftrightarrow> is_c_string xs \<and> is_c_string ys"
  by (auto simp: is_c_string_def)

lemma is_c_string_Cons [simp]: "is_c_string (x # xs) \<longleftrightarrow> x \<noteq> 0 \<and> is_c_string xs"
  by (auto simp: is_c_string_def)

lemma is_c_string_subset: "set xs \<subseteq> set ys \<Longrightarrow> is_c_string ys \<Longrightarrow> is_c_string xs"
  by (auto simp: is_c_string_def)

subsection \<open>Decimal numbers\<close>

text \<open>The value of digits read after \<open>acc\<close>, and the digits of a number.\<close>

primrec digits_value :: "int \<Rightarrow> bytes \<Rightarrow> int" where
  "digits_value acc [] = acc"
| "digits_value acc (c # cs) = digits_value (10 * acc + (uint c - 48)) cs"

fun show_nat :: "nat \<Rightarrow> bytes" where
  "show_nat n = (if n < 10 then [48 + of_nat n] else show_nat (n div 10) @ [48 + of_nat (n mod 10)])"

declare show_nat.simps [simp del]

lemma digit_byte:
  fixes d :: nat
  assumes "d < 10"
  shows "isdigit (48 + of_nat d)" and "uint (48 + of_nat d :: u8) = 48 + int d"
proof -
  have "d = 0 \<or> d = 1 \<or> d = 2 \<or> d = 3 \<or> d = 4 \<or> d = 5 \<or> d = 6 \<or> d = 7 \<or> d = 8 \<or> d = 9"
    using assms by arith
  then show "isdigit (48 + of_nat d)" and "uint (48 + of_nat d :: u8) = 48 + int d"
    by (elim disjE; simp add: isdigit_def)+
qed

lemma digits_value_append:
  "digits_value acc (xs @ ys) = digits_value (digits_value acc xs) ys"
  by (induction xs arbitrary: acc) auto

lemma show_nat_props:
  "show_nat n \<noteq> [] \<and> (\<forall>c \<in> set (show_nat n). isdigit c) \<and> digits_value 0 (show_nat n) = int n"
proof (induction n rule: show_nat.induct)
  case (1 n)
  show ?case
  proof (cases "n < 10")
    case True
    then show ?thesis
      by (subst (1 2 3) show_nat.simps) (simp add: digit_byte)
  next
    case False
    have d: "n mod 10 < 10" by simp
    have "int n = 10 * int (n div 10) + int (n mod 10)"
      by presburger
    with "1.IH" [OF False] False show ?thesis
      by (subst (1 2 3) show_nat.simps) (auto simp: digits_value_append digit_byte [OF d])
  qed
qed

lemma isdigit_not_space: "isdigit c \<Longrightarrow> \<not> isspace c \<and> c \<noteq> 0 \<and> c \<noteq> 45 \<and> c \<noteq> 43"
  using order_trans [of 48 c 13] by (auto simp: isdigit_def isspace_def)

subsection \<open>Writes into a fixed buffer\<close>

text \<open>
  \<open>memcpy(buffer + offset, data, size)\<close>: the bytes from \<open>offset\<close> on are replaced. The
  write stays inside the buffer exactly when \<open>offset + length data \<le> length buffer\<close>.
\<close>

definition buf_write :: "bytes \<Rightarrow> nat \<Rightarrow> bytes \<Rightarrow> bytes" where
  "buf_write buf offset src = take offset buf @ src @ drop (offset + length src) buf"

lemma length_buf_write [simp]:
  "offset + length src \<le> length buf \<Longrightarrow> length (buf_write buf offset src) = length buf"
  by (simp add: buf_write_def)

lemma take_buf_write [simp]:
  "offset \<le> length buf \<Longrightarrow>
     take (offset + length src) (buf_write buf offset src) = take offset buf @ src"
  by (simp add: buf_write_def)

lemma take_buf_write_prefix [simp]:
  "n \<le> offset \<Longrightarrow> offset \<le> length buf \<Longrightarrow> take n (buf_write buf offset src) = take n buf"
  by (simp add: buf_write_def min_def)

subsection \<open>Little-endian wire integers\<close>

definition write_u16 :: "u16 \<Rightarrow> bytes" where
  "write_u16 v = [ucast (v AND 0xFF), ucast (drop_bit 8 v)]"

definition write_u32 :: "u32 \<Rightarrow> bytes" where
  "write_u32 v =
     [ucast (v AND 0xFF), ucast (drop_bit 8 v), ucast (drop_bit 16 v), ucast (drop_bit 24 v)]"

definition read_u16 :: "bytes \<Rightarrow> u16" where
  "read_u16 b = ucast (b ! 0) OR push_bit 8 (ucast (b ! 1))"

definition read_u32 :: "bytes \<Rightarrow> u32" where
  "read_u32 b = ucast (b ! 0) OR push_bit 8 (ucast (b ! 1)) OR
     push_bit 16 (ucast (b ! 2)) OR push_bit 24 (ucast (b ! 3))"

lemma length_write_u16 [simp, wire_simps]: "length (write_u16 v) = 2"
  by (simp add: write_u16_def)

lemma length_write_u32 [simp, wire_simps]: "length (write_u32 v) = 4"
  by (simp add: write_u32_def)

lemma low_byte [simp]: "(ucast (v AND 0xFF) :: u8) = ucast (v :: 'a::len word)"
proof -
  have "(ucast (v AND mask 8) :: u8) = ucast v"
    by (rule bit_word_eqI) (auto simp: bit_simps dest: bit_imp_le_length)
  then show ?thesis
    by (simp add: mask_eq_exp_minus_1)
qed

lemma read_write_u16 [simp, wire_simps]: "read_u16 (write_u16 v @ rest) = v"
proof (rule bit_word_eqI)
  fix n assume "n < LENGTH(16)"
  then consider "n < 8" | k where "n = 8 + k" "k < 8"
    using le_Suc_ex [of 8 n] by fastforce
  then show "bit (read_u16 (write_u16 v @ rest)) n = bit v n"
    by cases (auto simp: read_u16_def write_u16_def bit_simps)
qed

lemma read_write_u32 [simp, wire_simps]: "read_u32 (write_u32 v @ rest) = v"
proof (rule bit_word_eqI)
  fix n assume "n < LENGTH(32)"
  then consider "n < 8" | k where "n = 8 + k" "k < 8" | k where "n = 16 + k" "k < 8"
    | k where "n = 24 + k" "k < 8"
    using le_Suc_ex [of 8 n] le_Suc_ex [of 16 n] le_Suc_ex [of 24 n] by fastforce
  then show "bit (read_u32 (write_u32 v @ rest)) n = bit v n"
    by cases (auto simp: read_u32_def write_u32_def bit_simps)
qed

subsection \<open>Ledgers\<close>

text \<open>Accounts of what is acquired, released and held compose.\<close>

lemma ledger_trans:
  fixes a b :: "'a :: comm_monoid_add"
  assumes "a + held = b + held1" and "a' + held1 = b' + held2"
  shows "a + a' + held = b + b' + held2"
proof -
  have "a + a' + held = (a + held) + a'" by (simp add: ac_simps)
  also have "\<dots> = b + (a' + held1)" by (simp add: assms(1) ac_simps)
  finally show ?thesis by (simp add: assms(2) ac_simps)
qed

end
