(* ===== verification/Plugin_Registry.thy ===== *)
theory Plugin_Registry
  imports Prelude
begin

text \<open>
  The plugin registry of \<open>src/plugin/server_plugin_registry.c\<close>: sixteen slots, one per server
  port, each empty or holding the plugin of that port. The interface the loader and the
  runtime rely on is the locale \<open>port_table\<close>; the registry is its instance \<open>reg\<close>.
\<close>

subsection \<open>Ports\<close>

definition server_system_port :: u8 where "server_system_port = 0"
definition server_plugin_port_min :: u8 where "server_plugin_port_min = 1"
definition server_plugin_port_max :: u8 where "server_plugin_port_max = 15"
definition server_port_count :: nat where "server_port_count = 16"

lemmas port_constants [simp] = server_system_port_def server_plugin_port_min_def
  server_plugin_port_max_def server_port_count_def

definition is_valid_server_port :: "u8 \<Rightarrow> bool" where
  "is_valid_server_port port_number \<longleftrightarrow> port_number \<le> server_plugin_port_max"

definition is_valid_assignable_server_port :: "u8 \<Rightarrow> bool" where
  "is_valid_assignable_server_port port_number \<longleftrightarrow>
     server_plugin_port_min \<le> port_number \<and> port_number \<le> server_plugin_port_max"

subsection \<open>The registry\<close>

record 'p server_plugin_slot =
  port_number :: u8
  plugin :: "'p option"

type_synonym 'p server_plugin_registry = "'p server_plugin_slot list"

definition init_server_plugin_registry :: "'p server_plugin_registry" where
  "init_server_plugin_registry =
     map (\<lambda>index. \<lparr>port_number = of_nat index, plugin = None\<rparr>) [0..<server_port_count]"

definition register_server_plugin ::
  "'p server_plugin_registry \<Rightarrow> u8 \<Rightarrow> 'p option \<Rightarrow> 'p server_plugin_registry option" where
  "register_server_plugin registry port p =
     (if p = None then None
      else if \<not> is_valid_server_port port then None
      else let index = unat port in
        if plugin (registry ! index) \<noteq> None then None
        else Some (registry[index := (registry ! index)\<lparr>plugin := p\<rparr>]))"

definition find_server_plugin :: "'p server_plugin_registry \<Rightarrow> u8 \<Rightarrow> 'p option" where
  "find_server_plugin registry port =
     (if \<not> is_valid_server_port port then None else plugin (registry ! unat port))"

definition count_registered_server_plugins :: "'p server_plugin_registry \<Rightarrow> nat" where
  "count_registered_server_plugins registry =
     foldl (\<lambda>count index. if plugin (registry ! index) \<noteq> None then count + 1 else count)
       0 [0..<server_port_count]"

text \<open>\<open>clear_plugin_slot\<close> of \<open>server_plugin_loader.c\<close>.\<close>

definition clear_plugin_slot :: "'p server_plugin_registry \<Rightarrow> u8 \<Rightarrow> 'p server_plugin_registry" where
  "clear_plugin_slot registry port =
     (if \<not> is_valid_server_port port then registry
      else registry[unat port := (registry ! unat port)\<lparr>plugin := None\<rparr>])"

definition wf_registry :: "'p server_plugin_registry \<Rightarrow> bool" where
  "wf_registry registry \<longleftrightarrow> length registry = server_port_count \<and>
     (\<forall>index < server_port_count. port_number (registry ! index) = of_nat index)"

subsection \<open>The interface\<close>

text \<open>
  What a client may rely on: an empty table, registration that succeeds exactly on a free
  valid key, lookup and removal. The clients' notion is \<open>tracks\<close>: the table agrees with the
  client's own list of entries.
\<close>

locale port_table =
  fixes empty :: "'t"
    and register :: "'t \<Rightarrow> 'k \<Rightarrow> 'p option \<Rightarrow> 't option"
    and find :: "'t \<Rightarrow> 'k \<Rightarrow> 'p option"
    and clear :: "'t \<Rightarrow> 'k \<Rightarrow> 't"
    and valid :: "'k \<Rightarrow> bool"
    and invar :: "'t \<Rightarrow> bool"
  assumes invar_empty: "invar empty"
    and find_empty: "find empty k = None"
    and register_iff: "invar t \<Longrightarrow>
      (\<exists>t'. register t k p = Some t') \<longleftrightarrow> p \<noteq> None \<and> valid k \<and> find t k = None"
    and register_find: "invar t \<Longrightarrow> register t k p = Some t' \<Longrightarrow> find t' = (find t)(k := p)"
    and register_invar: "invar t \<Longrightarrow> register t k p = Some t' \<Longrightarrow> invar t'"
    and clear_find: "invar t \<Longrightarrow> find (clear t k) = (find t)(k := None)"
    and clear_invar: "invar t \<Longrightarrow> invar (clear t k)"
begin

definition tracks :: "'t \<Rightarrow> ('k \<times> 'p) list \<Rightarrow> bool" where
  "tracks t entries \<longleftrightarrow> invar t \<and> distinct (map fst entries) \<and>
     (\<forall>k. find t k = map_of entries k)"

lemma tracks_empty: "tracks empty []"
  by (simp add: tracks_def invar_empty find_empty)

lemma tracks_register:
  assumes "tracks t entries" and "register t k (Some p) = Some t'"
  shows "tracks t' (entries @ [(k, p)])"
proof -
  from assms have inv: "invar t" and free: "map_of entries k = None"
    using register_iff [of t k "Some p"] by (auto simp: tracks_def)
  have "find t' = (find t)(k := Some p)"
    using inv assms(2) by (rule register_find)
  moreover have "map_of (entries @ [(k, p)]) = (map_of entries)(k \<mapsto> p)"
    using free by (auto simp: map_add_def fun_eq_iff split: option.splits)
  ultimately show ?thesis
    using assms register_invar [OF inv assms(2)] free
    by (auto simp: tracks_def map_of_eq_None_iff)
qed

lemma tracks_clear_last:
  assumes "tracks t (entries @ [(k, p)])"
  shows "tracks (clear t k) entries"
proof -
  from assms have inv: "invar t" and fresh: "k \<notin> fst ` set entries"
    and dist: "distinct (map fst entries)"
    and find: "\<And>x. find t x = map_of (entries @ [(k, p)]) x"
    by (auto simp: tracks_def)
  have "map_of entries k = None"
    using fresh by (simp add: map_of_eq_None_iff)
  then have "find (clear t k) x = map_of entries x" for x
    using find [of x]
    by (auto simp: clear_find [OF inv] map_add_def split: option.splits)
  with inv dist show ?thesis
    by (simp add: tracks_def clear_invar)
qed

lemma tracks_register_clear:
  "tracks t entries \<Longrightarrow> register t k (Some p) = Some t' \<Longrightarrow> tracks (clear t' k) entries"
  by (rule tracks_clear_last [OF tracks_register])

end

subsection \<open>The registry is a port table\<close>

lemma valid_port_less: "is_valid_server_port port \<Longrightarrow> unat port < server_port_count"
  by (simp add: is_valid_server_port_def word_le_nat_alt)

lemma valid_port_inj:
  "is_valid_server_port a \<Longrightarrow> is_valid_server_port b \<Longrightarrow> unat a = unat b \<longleftrightarrow> a = b"
  by (simp add: word_unat_eq_iff)

lemma register_find_server_plugin:
  assumes wf: "wf_registry registry"
    and reg: "register_server_plugin registry port p = Some registry'"
  shows "find_server_plugin registry' = (find_server_plugin registry)(port := p)"
proof
  fix x
  from reg have valid: "is_valid_server_port port"
    and r': "registry' = registry[unat port := (registry ! unat port)\<lparr>plugin := p\<rparr>]"
    by (auto simp: register_server_plugin_def Let_def split: if_splits)
  show "find_server_plugin registry' x = ((find_server_plugin registry)(port := p)) x"
    using wf valid valid_port_less [OF valid] valid_port_inj [OF valid, of x]
    by (auto simp: find_server_plugin_def r' wf_registry_def nth_list_update)
qed

lemma clear_find_server_plugin:
  assumes wf: "wf_registry registry"
  shows "find_server_plugin (clear_plugin_slot registry port) =
    (find_server_plugin registry)(port := None)"
proof
  fix x
  show "find_server_plugin (clear_plugin_slot registry port) x =
      ((find_server_plugin registry)(port := None)) x"
    using wf valid_port_less [of port] valid_port_inj [of port x]
    by (auto simp: find_server_plugin_def clear_plugin_slot_def wf_registry_def nth_list_update)
qed

interpretation reg: port_table init_server_plugin_registry register_server_plugin
  find_server_plugin clear_plugin_slot is_valid_server_port wf_registry
proof unfold_locales
  show "wf_registry init_server_plugin_registry"
    by (simp add: wf_registry_def init_server_plugin_registry_def)
  show "find_server_plugin init_server_plugin_registry k = None" for k
    using valid_port_less [of k]
    by (simp add: find_server_plugin_def init_server_plugin_registry_def)
  show "(\<exists>t'. register_server_plugin t k p = Some t') \<longleftrightarrow>
      p \<noteq> None \<and> is_valid_server_port k \<and> find_server_plugin t k = None"
    if "wf_registry t" for t k p
    by (auto simp: register_server_plugin_def find_server_plugin_def Let_def)
  show "wf_registry t'" if "wf_registry t" "register_server_plugin t k p = Some t'" for t k p t'
    using that valid_port_less [of k]
    by (auto simp: register_server_plugin_def wf_registry_def Let_def nth_list_update
        split: if_splits)
  show "wf_registry (clear_plugin_slot t k)" if "wf_registry t" for t k
    using that valid_port_less [of k]
    by (auto simp: clear_plugin_slot_def wf_registry_def nth_list_update)
qed (rule register_find_server_plugin clear_find_server_plugin; assumption)+

subsection \<open>Counting\<close>

lemma foldl_count:
  "foldl (\<lambda>count i. if P i then count + 1 else count) n xs = n + length (filter P xs)"
  by (induction xs arbitrary: n) auto

lemma count_registered_eq:
  "count_registered_server_plugins registry =
     length (filter (\<lambda>i. plugin (registry ! i) \<noteq> None) [0..<server_port_count])"
  by (simp only: count_registered_server_plugins_def foldl_count)

lemma count_registered_card:
  assumes "wf_registry registry"
  shows "count_registered_server_plugins registry = card (dom (find_server_plugin registry))"
proof -
  let ?I = "{i. i < server_port_count \<and> plugin (registry ! i) \<noteq> None}"
  have "count_registered_server_plugins registry = card ?I"
    by (simp only: count_registered_eq)
       (subst length_filter_conv_card, auto intro: arg_cong [of _ _ card] simp del: upt_conv_Cons)
  moreover have "bij_betw unat (dom (find_server_plugin registry)) ?I"
    by (rule bij_betw_byWitness [where f' = of_nat])
       (use valid_port_less in \<open>auto simp: find_server_plugin_def is_valid_server_port_def
         word_le_nat_alt unat_of_nat split: if_splits\<close>)
  ultimately show ?thesis
    by (simp add: bij_betw_same_card)
qed

lemma count_registered_tracks:
  assumes "reg.tracks registry entries"
  shows "count_registered_server_plugins registry = length entries"
proof -
  have "dom (find_server_plugin registry) = set (map fst entries)"
    using assms by (auto simp: reg.tracks_def dom_map_of_conv_image_fst dom_def
        fun_eq_iff map_of_eq_None_iff simp flip: not_None_eq)
  moreover have "card (set (map fst entries)) = length entries"
    using assms distinct_card [of "map fst entries"] by (simp add: reg.tracks_def)
  ultimately show ?thesis
    using assms by (simp add: reg.tracks_def count_registered_card)
qed

end
