(* ===== verification/Effects.thy ===== *)
theory Effects
  imports Prelude
begin

text \<open>
  Calls that leave the program: system calls, \<open>dlopen\<close>, libsquid, plugin callbacks. The code
  behind them is not part of the repository, so every such call is answered by an oracle, a
  function of the whole history of calls made so far and of the call's arguments. A property
  proved for every oracle holds for every behaviour of the environment, including one with
  hidden state of its own.

  A computation is a \<open>state\<close> of the library's state monad over \<open>env\<close>: the trace of calls with
  their results, and C's \<open>errno\<close>. The predicate \<open>ensures m Q\<close> relates the result of \<open>m\<close> to
  the events that \<open>m\<close> adds to the trace; its rules are collected in \<open>io_rules\<close>.
\<close>

datatype errno = E_OK | ENOENT | ENOTDIR | EISDIR | EACCES | EPERM | ELOOP | EEXIST | ENAMETOOLONG
  | EOVERFLOW | EFBIG | ENOTEMPTY | EROFS | ENOSPC | EDQUOT | EBADF | EINVAL | EIO | EAGAIN
  | EINTR | EINPROGRESS | ETIMEDOUT | EOTHER nat

text \<open>The levels of \<open>src/log/server_log.h\<close>; what is written to the log is part of the trace.\<close>

datatype log_level = server_log_level_info | server_log_level_warning | server_log_level_error

datatype std_stream = Std_In | Std_Out | Std_Err

text \<open>The timing parameters that a program gives to libsquid's \<open>snet_init\<close>.\<close>

record squid_timing =
  timeout_ticks :: nat
  ack_delay_ticks :: nat
  ping_ticks :: nat
  max_retries :: nat
  payload_bytes :: u8

record 'e env =
  trace :: "'e list"
  c_errno :: errno

type_synonym ('e, 'a) io = "('e env, 'a) state"

subsection \<open>Calls\<close>

text \<open>A call that cannot fail in a way the program observes through \<open>errno\<close>.\<close>

definition query :: "('e list \<Rightarrow> 'a) \<Rightarrow> ('a \<Rightarrow> 'e) \<Rightarrow> ('e, 'a) io" where
  "query ask ev = State (\<lambda>s. let a = ask (trace s) in (a, s\<lparr>trace := trace s @ [ev a]\<rparr>))"

text \<open>
  A system call: on failure \<open>errno\<close> is set and the C code sees the error return (\<open>None\<close>); on
  success \<open>errno\<close> keeps its value.
\<close>

definition syscall :: "('e list \<Rightarrow> errno + 'a) \<Rightarrow> (errno + 'a \<Rightarrow> 'e) \<Rightarrow> ('e, 'a option) io" where
  "syscall ask ev = State (\<lambda>s. let r = ask (trace s) in
     (case r of
        Inl e \<Rightarrow> (None, s\<lparr>trace := trace s @ [ev r], c_errno := e\<rparr>)
      | Inr a \<Rightarrow> (Some a, s\<lparr>trace := trace s @ [ev r]\<rparr>)))"

definition get_errno :: "('e, errno) io" where
  "get_errno = State (\<lambda>s. (c_errno s, s))"

definition set_errno :: "errno \<Rightarrow> ('e, unit) io" where
  "set_errno e = State (\<lambda>s. ((), s\<lparr>c_errno := e\<rparr>))"

lemma run_query [simp]:
  "run_state (query ask ev) s = (ask (trace s), s\<lparr>trace := trace s @ [ev (ask (trace s))]\<rparr>)"
  by (simp add: query_def Let_def)

lemma run_syscall:
  "run_state (syscall ask ev) s =
     (case ask (trace s) of
        Inl e \<Rightarrow> (None, s\<lparr>trace := trace s @ [ev (Inl e)], c_errno := e\<rparr>)
      | Inr a \<Rightarrow> (Some a, s\<lparr>trace := trace s @ [ev (Inr a)]\<rparr>))"
  by (auto simp: syscall_def Let_def split: sum.splits)

lemma run_syscall_Inl [simp]:
  "ask (trace s) = Inl e \<Longrightarrow>
     run_state (syscall ask ev) s = (None, s\<lparr>trace := trace s @ [ev (Inl e)], c_errno := e\<rparr>)"
  by (simp add: run_syscall)

lemma run_syscall_Inr [simp]:
  "ask (trace s) = Inr a \<Longrightarrow>
     run_state (syscall ask ev) s = (Some a, s\<lparr>trace := trace s @ [ev (Inr a)]\<rparr>)"
  by (simp add: run_syscall)

lemma run_get_errno [simp]: "run_state get_errno s = (c_errno s, s)"
  by (simp add: get_errno_def)

lemma run_set_errno [simp]: "run_state (set_errno e) s = ((), s\<lparr>c_errno := e\<rparr>)"
  by (simp add: set_errno_def)

subsection \<open>The trace calculus\<close>

definition ensures :: "('e, 'a) io \<Rightarrow> ('a \<Rightarrow> 'e list \<Rightarrow> bool) \<Rightarrow> bool" where
  "ensures m Q \<longleftrightarrow>
     (\<forall>s. \<exists>es. trace (snd (run_state m s)) = trace s @ es \<and> Q (fst (run_state m s)) es)"

lemma ensuresI:
  "(\<And>s. \<exists>es. trace (snd (run_state m s)) = trace s @ es \<and> Q (fst (run_state m s)) es) \<Longrightarrow>
     ensures m Q"
  by (simp add: ensures_def)

lemma ensuresE:
  assumes "ensures m Q" and "run_state m s = (a, s')"
  obtains es where "trace s' = trace s @ es" and "Q a es"
  using assms unfolding ensures_def by (metis fst_conv snd_conv)

lemma ensures_mono:
  "ensures m P \<Longrightarrow> (\<And>a es. P a es \<Longrightarrow> Q a es) \<Longrightarrow> ensures m Q"
  unfolding ensures_def by blast

lemma ensures_return [io_rules]: "Q a [] \<Longrightarrow> ensures (State_Monad.return a) Q"
  by (simp add: ensures_def)

lemma ensures_bind:
  assumes "ensures m P"
    and "\<And>a es. P a es \<Longrightarrow> ensures (f a) (\<lambda>b es'. Q b (es @ es'))"
  shows "ensures (State_Monad.bind m f) Q"
proof (rule ensuresI)
  fix s
  obtain a s1 where m: "run_state m s = (a, s1)"
    by (cases "run_state m s")
  obtain es where es: "trace s1 = trace s @ es" "P a es"
    using assms(1) m by (rule ensuresE)
  obtain b s2 where f: "run_state (f a) s1 = (b, s2)"
    by (cases "run_state (f a) s1")
  obtain es' where "trace s2 = trace s1 @ es'" "Q b (es @ es')"
    using assms(2) [OF es(2)] f by (rule ensuresE)
  with es f m show "\<exists>es. trace (snd (run_state (State_Monad.bind m f) s)) = trace s @ es \<and>
      Q (fst (run_state (State_Monad.bind m f) s)) es"
    by auto
qed

lemma ensures_query_bind [io_rules]:
  "(\<And>a. ensures (f a) (\<lambda>b es. Q b (ev a # es))) \<Longrightarrow>
     ensures (State_Monad.bind (query ask ev) f) Q"
  by (rule ensures_bind [where P = "\<lambda>a es. es = [ev a]"]) (auto simp: ensures_def)

lemma ensures_query [io_rules]:
  "(\<And>a. Q a [ev a]) \<Longrightarrow> ensures (query ask ev) Q"
  by (auto simp: ensures_def)

text \<open>When every answer has a property, so has the one the program sees.\<close>

lemma ensures_query_sat_bind:
  assumes "\<And>h. P (ask h)" and "\<And>a. P a \<Longrightarrow> ensures (f a) (\<lambda>b es. Q b (ev a # es))"
  shows "ensures (State_Monad.bind (query ask ev) f) Q"
  by (rule ensures_bind [where P = "\<lambda>a es. es = [ev a] \<and> P a"]) (use assms in \<open>auto simp: ensures_def\<close>)

text \<open>The result of a call as the C code sees it.\<close>

definition answer :: "errno + 'a \<Rightarrow> 'a option" where
  "answer r = (case r of Inl e \<Rightarrow> None | Inr a \<Rightarrow> Some a)"

lemma answer_simps [simp]: "answer (Inl e) = None" "answer (Inr a) = Some a"
  by (simp_all add: answer_def)

lemma answer_eq_Some [simp]: "answer r = Some a \<longleftrightarrow> r = Inr a"
  by (cases r) auto

lemma answer_eq_None [simp]: "answer r = None \<longleftrightarrow> (\<exists>e. r = Inl e)"
  by (cases r) auto

lemma ensures_syscall:
  "ensures (syscall ask ev) (\<lambda>a es. \<exists>r. a = answer r \<and> es = [ev r])"
  by (rule ensuresI) (auto simp: run_syscall split: sum.splits intro: exI [of _ "Inl _"] exI [of _ "Inr _"])

lemma ensures_syscall_bind [io_rules]:
  "(\<And>r. ensures (f (answer r)) (\<lambda>b es. Q b (ev r # es))) \<Longrightarrow>
     ensures (State_Monad.bind (syscall ask ev) f) Q"
  by (rule ensures_bind [OF ensures_syscall]) auto

lemma ensures_syscall_sat_bind:
  assumes "\<And>h. P (ask h)"
    and "\<And>r. P r \<Longrightarrow> ensures (f (answer r)) (\<lambda>b es. Q b (ev r # es))"
  shows "ensures (State_Monad.bind (syscall ask ev) f) Q"
proof (rule ensures_bind)
  show "ensures (syscall ask ev) (\<lambda>a es. \<exists>r. a = answer r \<and> es = [ev r] \<and> P r)"
  proof (rule ensuresI)
    fix s
    show "\<exists>es. trace (snd (run_state (syscall ask ev) s)) = trace s @ es \<and>
        (\<exists>r. fst (run_state (syscall ask ev) s) = answer r \<and> es = [ev r] \<and> P r)"
      using assms(1) [of "trace s"]
      by (cases "ask (trace s)") (auto intro: exI [of _ "Inl _"] exI [of _ "Inr _"])
  qed
qed (use assms(2) in auto)

lemma map_sum_eq_Inr: "map_sum f g x = Inr y \<longleftrightarrow> (\<exists>z. x = Inr z \<and> y = g z)"
  by (cases x) auto

lemma ensures_get_errno_bind [io_rules]:
  "(\<And>e. ensures (f e) Q) \<Longrightarrow> ensures (State_Monad.bind get_errno f) Q"
  by (rule ensures_bind [where P = "\<lambda>a es. es = []"]) (auto simp: ensures_def)

lemma ensures_set_errno_bind [io_rules]:
  "ensures (f ()) Q \<Longrightarrow> ensures (State_Monad.bind (set_errno e) f) Q"
  by (rule ensures_bind [where P = "\<lambda>a es. es = []"]) (auto simp: ensures_def)

lemma ensures_if [io_rules]:
  "(b \<Longrightarrow> ensures m Q) \<Longrightarrow> (\<not> b \<Longrightarrow> ensures n Q) \<Longrightarrow> ensures (if b then m else n) Q"
  by simp

lemma ensures_option [io_rules]:
  "(x = None \<Longrightarrow> ensures m Q) \<Longrightarrow> (\<And>y. x = Some y \<Longrightarrow> ensures (f y) Q) \<Longrightarrow>
     ensures (case x of None \<Rightarrow> m | Some y \<Rightarrow> f y) Q"
  by (cases x) auto

lemma ensures_prod [io_rules]:
  "(\<And>y z. x = (y, z) \<Longrightarrow> ensures (f y z) Q) \<Longrightarrow> ensures (case x of (y, z) \<Rightarrow> f y z) Q"
  by (cases x) auto

lemma ensures_Let [io_rules]:
  "(\<And>x. x = t \<Longrightarrow> ensures (f x) Q) \<Longrightarrow> ensures (let x = t in f x) Q"
  by simp

lemma ensures_bind_return [io_rules]:
  "ensures (f a) Q \<Longrightarrow> ensures (State_Monad.bind (State_Monad.return a) f) Q"
  by simp

lemma ensures_bind_assoc [io_rules]:
  "ensures (State_Monad.bind m (\<lambda>x. State_Monad.bind (f x) g)) Q \<Longrightarrow>
     ensures (State_Monad.bind (State_Monad.bind m f) g) Q"
  by simp

lemma ensures_bind_if [io_rules]:
  "(b \<Longrightarrow> ensures (State_Monad.bind m f) Q) \<Longrightarrow> (\<not> b \<Longrightarrow> ensures (State_Monad.bind n f) Q) \<Longrightarrow>
     ensures (State_Monad.bind (if b then m else n) f) Q"
  by simp

lemma ensures_bind_option [io_rules]:
  "(x = None \<Longrightarrow> ensures (State_Monad.bind m f) Q) \<Longrightarrow>
   (\<And>y. x = Some y \<Longrightarrow> ensures (State_Monad.bind (g y) f) Q) \<Longrightarrow>
     ensures (State_Monad.bind (case x of None \<Rightarrow> m | Some y \<Rightarrow> g y) f) Q"
  by (cases x) auto

lemma ensures_sum [io_rules]:
  "(\<And>y. x = Inl y \<Longrightarrow> ensures (f y) Q) \<Longrightarrow> (\<And>y. x = Inr y \<Longrightarrow> ensures (g y) Q) \<Longrightarrow>
     ensures (case x of Inl y \<Rightarrow> f y | Inr y \<Rightarrow> g y) Q"
  by (cases x) auto

lemma ensures_list [io_rules]:
  "(x = [] \<Longrightarrow> ensures m Q) \<Longrightarrow> (\<And>y ys. x = y # ys \<Longrightarrow> ensures (f y ys) Q) \<Longrightarrow>
     ensures (case x of [] \<Rightarrow> m | y # ys \<Rightarrow> f y ys) Q"
  by (cases x) auto

lemma ensures_bind_list [io_rules]:
  "(x = [] \<Longrightarrow> ensures (State_Monad.bind m f) Q) \<Longrightarrow>
   (\<And>y ys. x = y # ys \<Longrightarrow> ensures (State_Monad.bind (g y ys) f) Q) \<Longrightarrow>
     ensures (State_Monad.bind (case x of [] \<Rightarrow> m | y # ys \<Rightarrow> g y ys) f) Q"
  by (cases x) auto

lemma ensures_bind_prod [io_rules]:
  "(\<And>y z. x = (y, z) \<Longrightarrow> ensures (State_Monad.bind (g y z) f) Q) \<Longrightarrow>
     ensures (State_Monad.bind (case x of (y, z) \<Rightarrow> g y z) f) Q"
  by (cases x) auto

lemma ensures_bind_sum [io_rules]:
  "(\<And>y. x = Inl y \<Longrightarrow> ensures (State_Monad.bind (h y) f) Q) \<Longrightarrow>
   (\<And>y. x = Inr y \<Longrightarrow> ensures (State_Monad.bind (g y) f) Q) \<Longrightarrow>
     ensures (State_Monad.bind (case x of Inl y \<Rightarrow> h y | Inr y \<Rightarrow> g y) f) Q"
  by (cases x) auto

lemma ensures_bind_Let [io_rules]:
  "(\<And>x. x = t \<Longrightarrow> ensures (State_Monad.bind (g x) f) Q) \<Longrightarrow>
     ensures (State_Monad.bind (let x = t in g x) f) Q"
  by simp

lemma ensures_conj:
  "ensures m P \<Longrightarrow> ensures m Q \<Longrightarrow> ensures m (\<lambda>a es. P a es \<and> Q a es)"
  unfolding ensures_def by (metis same_append_eq)

lemma ensures_triv: "ensures m (\<lambda>_ _. True) \<Longrightarrow> (\<And>a es. Q a es) \<Longrightarrow> ensures m Q"
  by (rule ensures_mono)

text \<open>Looking at the environment without a call.\<close>

lemma ensures_peek_bind [io_rules]:
  "(\<And>n. ensures (f n) Q) \<Longrightarrow> ensures (State_Monad.bind (State (\<lambda>s. (g (trace s), s))) f) Q"
  by (rule ensures_bind [where P = "\<lambda>_ es. es = []"]) (auto simp: ensures_def)

subsection \<open>Phases\<close>

text \<open>A call whose answer does not matter, such as output.\<close>

definition emit :: "'e \<Rightarrow> ('e, unit) io" where
  "emit ev = query (\<lambda>_. ()) (\<lambda>_. ev)"

text \<open>
  A program made of parts with events of their own runs them one after the other. A phase starts
  with an empty trace of its own, its environment is chosen by the whole history so far, and its
  events become events of the program.
\<close>

definition phase :: "('e \<Rightarrow> 'f) \<Rightarrow> ('f list \<Rightarrow> ('e, 'a) io) \<Rightarrow> ('f, 'a) io" where
  "phase wrap f = State (\<lambda>s.
     case run_state (f (trace s)) \<lparr>trace = [], c_errno = c_errno s\<rparr> of
       (a, s') \<Rightarrow> (a, \<lparr>trace = trace s @ map wrap (trace s'), c_errno = c_errno s'\<rparr>))"

text \<open>What holds of every run from an empty trace holds of the phase.\<close>

lemma ensures_phase_run_bind:
  fixes wrap :: "'e \<Rightarrow> 'f"
  assumes f: "\<And>h e a s'. run_state (f h) \<lparr>trace = [], c_errno = e\<rparr> = (a, s') \<Longrightarrow> P a (trace s')"
    and g: "\<And>a es. P a es \<Longrightarrow> ensures (g a) (\<lambda>b es'. Q b (map wrap es @ es'))"
  shows "ensures (State_Monad.bind (phase wrap f) g) Q"
proof (rule ensures_bind)
  show "ensures (phase wrap f) (\<lambda>a es. \<exists>es'. es = map wrap es' \<and> P a es')"
  proof (rule ensuresI)
    fix s :: "'f env"
    obtain a s' where run: "run_state (f (trace s)) \<lparr>trace = [], c_errno = c_errno s\<rparr> = (a, s')"
      by (metis surj_pair)
    with f have "P a (trace s')" by blast
    then show "\<exists>es. trace (snd (run_state (phase wrap f) s)) = trace s @ es \<and>
        (\<exists>es'. es = map wrap es' \<and> P (fst (run_state (phase wrap f) s)) es')"
      by (auto simp: phase_def run)
  qed
qed (use g in auto)

lemma ensures_phase_bind:
  assumes f: "\<And>h. ensures (f h) P"
    and g: "\<And>a es. P a es \<Longrightarrow> ensures (g a) (\<lambda>b es'. Q b (map wrap es @ es'))"
  shows "ensures (State_Monad.bind (phase wrap f) g) Q"
proof (rule ensures_phase_run_bind [OF _ g])
  fix h e a s'
  assume "run_state (f h) \<lparr>trace = [], c_errno = e\<rparr> = (a, s')"
  from ensuresE [OF f this] show "P a (trace s')" by auto
qed

text \<open>Whatever runs in a phase, the program's trace grows by the wrapped events.\<close>

lemma ensures_phase_any:
  "(\<And>a es. ensures (g a) (\<lambda>b es'. Q b (map wrap es @ es'))) \<Longrightarrow>
     ensures (State_Monad.bind (phase wrap f) g) Q"
  by (rule ensures_phase_run_bind [where P = "\<lambda>_ _. True"], rule TrueI)

lemma ensures_emit_bind [io_rules]:
  "ensures (f ()) (\<lambda>b es. Q b (ev # es)) \<Longrightarrow> ensures (State_Monad.bind (emit ev) f) Q"
  unfolding emit_def by (intro io_rules) simp

lemma ensures_emit [io_rules]: "Q () [ev] \<Longrightarrow> ensures (emit ev) Q"
  unfolding emit_def by (intro io_rules) simp

text \<open>
  A part that keeps its history: it goes on from the events it has had so far in the program's
  trace, so that what one call leaves behind is there for the next.
\<close>

definition resume :: "('f \<Rightarrow> 'e list) \<Rightarrow> ('e \<Rightarrow> 'f) \<Rightarrow> ('f list \<Rightarrow> ('e, 'a) io) \<Rightarrow> ('f, 'a) io" where
  "resume part wrap f = State (\<lambda>s. let past = concat (map part (trace s)) in
     case run_state (f (trace s)) \<lparr>trace = past, c_errno = c_errno s\<rparr> of
       (a, s') \<Rightarrow> (a, \<lparr>trace = trace s @ map wrap (drop (length past) (trace s')), c_errno = c_errno s'\<rparr>))"

lemma run_resume:
  assumes "run_state (f (trace s)) \<lparr>trace = concat (map part (trace s)), c_errno = c_errno s\<rparr> = (a, s')"
    and "trace s' = concat (map part (trace s)) @ es"
  shows "run_state (resume part wrap f) s = (a, \<lparr>trace = trace s @ map wrap es, c_errno = c_errno s'\<rparr>)"
  using assms by (simp add: resume_def Let_def)

lemma ensures_resume_any:
  assumes "\<And>a es. ensures (g a) (\<lambda>b es'. Q b (map wrap es @ es'))"
  shows "ensures (State_Monad.bind (resume part wrap f) g) Q"
proof (rule ensures_bind [where P = "\<lambda>a es. \<exists>es'. es = map wrap es'"])
  show "ensures (resume part wrap f) (\<lambda>a es. \<exists>es'. es = map wrap es')"
    by (rule ensuresI) (auto simp: resume_def Let_def split: prod.splits)
qed (use assms in auto)

end
