(* ===== verification/Plugin_Loader.thy ===== *)
theory Plugin_Loader
  imports Plugin_Registry Effects "HOL-Library.Multiset"
begin

text \<open>
  Loading and unloading of plugin libraries, \<open>src/plugin/server_plugin_loader.c\<close>. The dynamic
  linker and the code inside the libraries are the oracle \<open>dl_api\<close>; each call is an event of
  the trace. \<open>server_plugin\<close> is the descriptor of \<open>plugin_api.h\<close> with its pointers as opaque
  addresses, \<open>None\<close> for \<open>NULL\<close>. The loader's array and count are one list, in load order.
\<close>

record server_plugin =
  plugin_name :: "bytes option"
  plugin_context :: "nat option"
  start :: "nat option"
  stop :: "nat option"
  handle_packet :: "nat option"

record loaded_server_plugin =
  loaded_port :: u8
  library_handle :: nat
  loaded_plugin :: server_plugin
  plugin_path :: bytes

type_synonym server_plugin_loader = "loaded_server_plugin list"
type_synonym plugin_registry = "server_plugin server_plugin_registry"

datatype dl_event =
    Dlopen bytes "nat option"
  | Dlerror "bytes option"
  | Dlsym nat bytes "nat option"
  | Factory nat "server_plugin option"
  | Start server_plugin int
  | Stop server_plugin int
  | Dlclose nat int
  | Config_Log bytes \<comment> \<open>failed to read plugin configuration\<close>
  | Plugin_Log log_level u8 bytes bytes \<comment> \<open>plugin port \<open>%u\<close> path \<open>%s: %s\<close>\<close>

record dl_api =
  dl_open :: "dl_event list \<Rightarrow> bytes \<Rightarrow> nat option"
  dl_error :: "dl_event list \<Rightarrow> bytes option"
  dl_sym :: "dl_event list \<Rightarrow> nat \<Rightarrow> bytes \<Rightarrow> nat option"
  dl_factory :: "dl_event list \<Rightarrow> nat \<Rightarrow> server_plugin option"
  dl_start :: "dl_event list \<Rightarrow> server_plugin \<Rightarrow> int"
  dl_stop :: "dl_event list \<Rightarrow> server_plugin \<Rightarrow> int"
  dl_close :: "dl_event list \<Rightarrow> nat \<Rightarrow> int"

definition server_plugin_path_max :: nat where
  "server_plugin_path_max = 512"

subsection \<open>Text helpers\<close>

definition copy_text :: "nat \<Rightarrow> bytes \<Rightarrow> bytes option" where
  "copy_text destination_size source =
     (if destination_size = 0 then None
      else if length source \<ge> destination_size then None
      else Some source)"

definition set_error_text :: "nat \<Rightarrow> bytes \<Rightarrow> bytes" where
  "set_error_text error_buffer_size message =
     (case copy_text error_buffer_size message of None \<Rightarrow> [] | Some text \<Rightarrow> text)"

definition resolve_plugin_path :: "bytes option \<Rightarrow> bytes \<Rightarrow> nat \<Rightarrow> bytes option" where
  "resolve_plugin_path stage_root path resolved_path_size =
     (if resolved_path_size = 0 then None
      else case stage_root of
        Some root \<Rightarrow>
          (if path \<noteq> [] \<and> hd path = of_char CHR ''/'' then
             (if length (root @ path) \<ge> resolved_path_size then None else Some (root @ path))
           else copy_text resolved_path_size path)
      | None \<Rightarrow> copy_text resolved_path_size path)"

subsection \<open>Loading\<close>

record load_result =
  load_ok :: bool
  load_error :: bytes
  load_loader :: server_plugin_loader
  load_registry :: plugin_registry

definition load_failed ::
  "nat \<Rightarrow> bytes \<Rightarrow> server_plugin_loader \<Rightarrow> plugin_registry \<Rightarrow> load_result" where
  "load_failed error_buffer_size message loader registry =
     \<lparr>load_ok = False, load_error = set_error_text error_buffer_size message,
      load_loader = loader, load_registry = registry\<rparr>"

definition call_dlerror :: "dl_api \<Rightarrow> (dl_event, bytes option) io" where
  "call_dlerror dl = query (dl_error dl) Dlerror"

definition call_dlclose :: "dl_api \<Rightarrow> nat \<Rightarrow> (dl_event, int) io" where
  "call_dlclose dl library = query (\<lambda>h. dl_close dl h library) (Dlclose library)"

definition call_start :: "dl_api \<Rightarrow> server_plugin \<Rightarrow> (dl_event, int) io" where
  "call_start dl p = query (\<lambda>h. dl_start dl h p) (Start p)"

definition call_stop :: "dl_api \<Rightarrow> server_plugin \<Rightarrow> (dl_event, int) io" where
  "call_stop dl p = query (\<lambda>h. dl_stop dl h p) (Stop p)"

definition get_server_plugin_symbol :: bytes where
  "get_server_plugin_symbol = ascii ''get_server_plugin''"

text \<open>The part of \<open>load_server_plugin\<close> from the factory call on, with the library open.\<close>

definition register_and_start ::
  "dl_api \<Rightarrow> nat \<Rightarrow> server_plugin_loader \<Rightarrow> plugin_registry \<Rightarrow> u8 \<Rightarrow> bytes \<Rightarrow> nat \<Rightarrow> nat \<Rightarrow>
     (dl_event, load_result) io" where
  "register_and_start dl esize loader registry port path library factory = do {
     plugin \<leftarrow> query (\<lambda>h. dl_factory dl h factory) (Factory factory);
     case plugin of
       None \<Rightarrow> do {
         _ \<leftarrow> call_dlclose dl library;
         State_Monad.return (load_failed esize (ascii ''plugin factory returned no plugin'')
           loader registry) }
     | Some p \<Rightarrow>
         if plugin_name p = None then do {
           _ \<leftarrow> call_dlclose dl library;
           State_Monad.return (load_failed esize (ascii ''plugin factory returned no plugin'')
             loader registry) }
         else case register_server_plugin registry port (Some p) of
           None \<Rightarrow> do {
             _ \<leftarrow> call_dlclose dl library;
             State_Monad.return (load_failed esize (ascii ''plugin port is already assigned'')
               loader registry) }
         | Some registry' \<Rightarrow> do {
             started \<leftarrow> (case start p of None \<Rightarrow> State_Monad.return 0 | Some _ \<Rightarrow> call_start dl p);
             if started \<noteq> 0 then do {
               _ \<leftarrow> call_dlclose dl library;
               State_Monad.return (load_failed esize (ascii ''plugin start callback failed'')
                 loader (clear_plugin_slot registry' port)) }
             else
               State_Monad.return
                 \<lparr>load_ok = True, load_error = set_error_text esize [],
                  load_loader = loader @ [\<lparr>loaded_port = port, library_handle = library,
                    loaded_plugin = p,
                    plugin_path = (case copy_text server_plugin_path_max path of
                      None \<Rightarrow> [] | Some text \<Rightarrow> text)\<rparr>],
                  load_registry = registry'\<rparr> } }"

definition load_server_plugin ::
  "dl_api \<Rightarrow> bytes option \<Rightarrow> nat \<Rightarrow> server_plugin_loader \<Rightarrow> plugin_registry \<Rightarrow> u8 \<Rightarrow> bytes \<Rightarrow>
     (dl_event, load_result) io" where
  "load_server_plugin dl stage_root esize loader registry port path =
     (if \<not> is_valid_server_port port then
        State_Monad.return (load_failed esize (ascii ''invalid plugin port'') loader registry)
      else if length loader \<ge> server_port_count then
        State_Monad.return (load_failed esize (ascii ''plugin loader is full'') loader registry)
      else case resolve_plugin_path stage_root path server_plugin_path_max of
        None \<Rightarrow>
          State_Monad.return (load_failed esize (ascii ''failed to resolve plugin path'')
            loader registry)
      | Some resolved \<Rightarrow> do {
          handle \<leftarrow> query (\<lambda>h. dl_open dl h resolved) (Dlopen resolved);
          case handle of
            None \<Rightarrow> do {
              message \<leftarrow> call_dlerror dl;
              State_Monad.return (load_failed esize
                (case message of Some text \<Rightarrow> text
                 | None \<Rightarrow> ascii ''failed to open plugin library'') loader registry) }
          | Some library \<Rightarrow> do {
              _ \<leftarrow> call_dlerror dl;
              factory \<leftarrow> query (\<lambda>h. dl_sym dl h library get_server_plugin_symbol)
                (Dlsym library get_server_plugin_symbol);
              message \<leftarrow> call_dlerror dl;
              case (factory, message) of
                (Some f, None) \<Rightarrow>
                  register_and_start dl esize loader registry port path library f
              | _ \<Rightarrow> do {
                  _ \<leftarrow> call_dlclose dl library;
                  State_Monad.return (load_failed esize
                    (case message of Some text \<Rightarrow> text
                     | None \<Rightarrow> ascii ''missing get_server_plugin symbol'') loader registry) } } })"

subsection \<open>Unloading\<close>

text \<open>The loop of \<open>unload_server_plugins\<close>; it runs from the last entry to the first.\<close>

primrec unload_entries ::
  "dl_api \<Rightarrow> plugin_registry \<Rightarrow> loaded_server_plugin list \<Rightarrow> (dl_event, plugin_registry) io" where
  "unload_entries dl registry [] = State_Monad.return registry"
| "unload_entries dl registry (entry # entries) = do {
     _ \<leftarrow> (case stop (loaded_plugin entry) of
            None \<Rightarrow> State_Monad.return 0
          | Some _ \<Rightarrow> call_stop dl (loaded_plugin entry));
     _ \<leftarrow> call_dlclose dl (library_handle entry);
     unload_entries dl (clear_plugin_slot registry (loaded_port entry)) entries }"

definition unload_server_plugins ::
  "dl_api \<Rightarrow> server_plugin_loader \<Rightarrow> plugin_registry \<Rightarrow>
     (dl_event, server_plugin_loader \<times> plugin_registry) io" where
  "unload_server_plugins dl loader registry = do {
     registry' \<leftarrow> unload_entries dl registry (rev loader);
     State_Monad.return ([], registry') }"

subsection \<open>The loader's invariant\<close>

definition entry_of :: "loaded_server_plugin \<Rightarrow> u8 \<times> server_plugin" where
  "entry_of e = (loaded_port e, loaded_plugin e)"

definition loader_inv :: "server_plugin_loader \<Rightarrow> plugin_registry \<Rightarrow> bool" where
  "loader_inv loader registry \<longleftrightarrow> reg.tracks registry (map entry_of loader) \<and>
     (\<forall>e \<in> set loader. is_valid_server_port (loaded_port e) \<and>
        plugin_name (loaded_plugin e) \<noteq> None \<and>
        length (plugin_path e) < server_plugin_path_max)"

lemma loader_inv_init: "loader_inv [] init_server_plugin_registry"
  by (simp add: loader_inv_def reg.tracks_empty)

lemma copy_text_SomeD: "copy_text n s = Some t \<Longrightarrow> t = s \<and> length t < n"
  by (auto simp: copy_text_def split: if_splits)

lemma loader_inv_append:
  assumes inv: "loader_inv loader registry"
    and reg: "register_server_plugin registry port (Some p) = Some registry'"
    and name: "plugin_name p \<noteq> None"
    and path: "length path' < server_plugin_path_max"
  shows "loader_inv (loader @ [\<lparr>loaded_port = port, library_handle = library,
    loaded_plugin = p, plugin_path = path'\<rparr>]) registry'"
proof -
  from inv have wf: "wf_registry registry"
    by (simp add: loader_inv_def reg.tracks_def)
  have "is_valid_server_port port"
    using reg.register_iff [OF wf, of port "Some p"] reg by auto
  with assms show ?thesis
    using reg.tracks_register [OF _ reg, of "map entry_of loader"]
    by (auto simp: loader_inv_def entry_of_def)
qed

lemma loader_inv_rollback:
  "loader_inv loader registry \<Longrightarrow>
   register_server_plugin registry port (Some p) = Some registry' \<Longrightarrow>
     loader_inv loader (clear_plugin_slot registry' port)"
  using reg.tracks_register_clear [of registry "map entry_of loader" port p registry']
  by (simp add: loader_inv_def)

lemmas loader_calls = call_dlerror_def call_dlclose_def call_start_def call_stop_def

subsection \<open>Accounting for libraries and started plugins\<close>

fun opened_handles :: "dl_event list \<Rightarrow> nat multiset" where
  "opened_handles [] = {#}"
| "opened_handles (Dlopen _ (Some h) # es) = add_mset h (opened_handles es)"
| "opened_handles (_ # es) = opened_handles es"

fun closed_handles :: "dl_event list \<Rightarrow> nat multiset" where
  "closed_handles [] = {#}"
| "closed_handles (Dlclose h _ # es) = add_mset h (closed_handles es)"
| "closed_handles (_ # es) = closed_handles es"

fun stopped_plugins :: "dl_event list \<Rightarrow> server_plugin list" where
  "stopped_plugins [] = []"
| "stopped_plugins (Stop p _ # es) = p # stopped_plugins es"
| "stopped_plugins (_ # es) = stopped_plugins es"

lemma opened_handles_append [simp]:
  "opened_handles (xs @ ys) = opened_handles xs + opened_handles ys"
  by (induction xs rule: opened_handles.induct) auto

lemma closed_handles_append [simp]:
  "closed_handles (xs @ ys) = closed_handles xs + closed_handles ys"
  by (induction xs rule: closed_handles.induct) auto

lemma stopped_plugins_append [simp]:
  "stopped_plugins (xs @ ys) = stopped_plugins xs @ stopped_plugins ys"
  by (induction xs rule: stopped_plugins.induct) auto

definition held_handles :: "server_plugin_loader \<Rightarrow> nat multiset" where
  "held_handles loader = mset (map library_handle loader)"

text \<open>What one call of \<open>load_server_plugin\<close> does, as one contract.\<close>

definition load_contract ::
  "server_plugin_loader \<Rightarrow> plugin_registry \<Rightarrow> u8 \<Rightarrow> load_result \<Rightarrow> dl_event list \<Rightarrow> bool" where
  "load_contract loader registry port r es \<longleftrightarrow>
     loader_inv (load_loader r) (load_registry r) \<and>
     opened_handles es + held_handles loader = closed_handles es + held_handles (load_loader r) \<and>
     stopped_plugins es = [] \<and>
     (if load_ok r
      then \<exists>e. load_loader r = loader @ [e] \<and> loaded_port e = port
      else load_loader r = loader \<and>
        find_server_plugin (load_registry r) = find_server_plugin registry)"

lemma rollback_find:
  assumes "loader_inv loader registry"
    and "register_server_plugin registry port (Some p) = Some registry'"
  shows "find_server_plugin (clear_plugin_slot registry' port) = find_server_plugin registry"
proof -
  have "reg.tracks (clear_plugin_slot registry' port) (map entry_of loader)"
    using loader_inv_rollback [OF assms] by (simp add: loader_inv_def)
  with assms(1) show ?thesis
    by (simp add: fun_eq_iff loader_inv_def reg.tracks_def)
qed

lemma register_and_start_contract:
  assumes inv: "loader_inv loader registry"
  shows "ensures (register_and_start dl esize loader registry port path library factory)
    (\<lambda>r es. load_contract loader registry port r (Dlopen p (Some library) # es))"
  unfolding register_and_start_def loader_calls
  by (intro io_rules)
     (use inv in \<open>auto simp: load_contract_def load_failed_def held_handles_def
        loader_inv_rollback rollback_find server_plugin_path_max_def
        intro!: loader_inv_append dest: copy_text_SomeD split: option.splits\<close>)

lemma load_server_plugin_contract:
  assumes inv: "loader_inv loader registry"
  shows "ensures (load_server_plugin dl stage_root esize loader registry port path)
    (load_contract loader registry port)"
proof -
  have open_part: "ensures (register_and_start dl esize loader registry port path library factory)
      (\<lambda>r es. load_contract loader registry port r (Dlopen resolved a #
         Dlerror m # Dlsym library sym f # Dlerror m' # es))"
    if "a = Some library" for library factory resolved m sym f m' a
    unfolding that
    by (rule ensures_mono [OF register_and_start_contract [OF inv, where p = resolved]])
       (simp add: load_contract_def)
  show ?thesis
    unfolding load_server_plugin_def loader_calls
    by (intro io_rules open_part)
       (use inv in \<open>auto simp: load_contract_def load_failed_def held_handles_def\<close>)
qed

subsection \<open>Unloading undoes loading\<close>

lemma loader_inv_butlast:
  "loader_inv (loader @ [e]) registry \<Longrightarrow>
     loader_inv loader (clear_plugin_slot registry (loaded_port e))"
  using reg.tracks_clear_last [of registry "map entry_of loader" "loaded_port e"]
  by (auto simp: loader_inv_def entry_of_def)

lemma unload_entries_contract:
  assumes "loader_inv (rev entries) registry"
  shows "ensures (unload_entries dl registry entries) (\<lambda>registry' es.
    loader_inv [] registry' \<and> opened_handles es = {#} \<and>
    closed_handles es = held_handles entries \<and>
    stopped_plugins es = filter (\<lambda>p. stop p \<noteq> None) (map loaded_plugin entries))"
  using assms
proof (induction entries arbitrary: registry)
  case Nil
  then show ?case
    by (auto intro!: io_rules simp: held_handles_def)
next
  case (Cons entry entries)
  have "loader_inv (rev entries) (clear_plugin_slot registry (loaded_port entry))"
    using Cons.prems by (auto intro: loader_inv_butlast)
  note rest = Cons.IH [OF this]
  show ?case
    unfolding unload_entries.simps loader_calls
    by (intro io_rules ensures_mono [OF rest]) (auto simp: held_handles_def)
qed

lemma unload_server_plugins_contract:
  assumes "loader_inv loader registry"
  shows "ensures (unload_server_plugins dl loader registry) (\<lambda>(loader', registry') es.
    loader' = [] \<and> loader_inv [] registry' \<and> opened_handles es = {#} \<and>
    closed_handles es = held_handles loader \<and>
    stopped_plugins es = filter (\<lambda>p. stop p \<noteq> None) (rev (map loaded_plugin loader)))"
  unfolding unload_server_plugins_def
  by (rule ensures_bind [OF unload_entries_contract])
     (use assms in \<open>auto intro!: io_rules simp: held_handles_def rev_map\<close>)

lemma loader_inv_Nil_find: "loader_inv [] registry \<Longrightarrow> find_server_plugin registry port = None"
  by (simp add: loader_inv_def reg.tracks_def)

end
