(* ===== verification/Server_Config.thy ===== *)
theory Server_Config
  imports Plugin_Loader
begin

text \<open>
  The command line (\<open>src/config/server_config.c\<close>) and the plugin configuration file
  (\<open>src/config/server_plugin_config.c\<close>): argument scanning, line reading with \<open>fgets\<close>,
  trimming, tokenising with \<open>strtok\<close>, number parsing with \<open>strtol\<close> and the directives. A parse
  returns \<open>Inl message\<close> where the C code returns \<open>-1\<close> and sets \<open>*error_message\<close>.
\<close>

subsection \<open>Command line\<close>

datatype server_run_mode = server_run_mode_console | server_run_mode_daemon

record server_config =
  run_mode :: server_run_mode
  show_help :: bool
  config_path :: bytes

definition server_default_config_path :: bytes where
  "server_default_config_path = ascii ''/opt/squid/etc/squid_server.conf''"

definition init_server_config :: server_config where
  "init_server_config = \<lparr>run_mode = server_run_mode_console, show_help = False,
     config_path = server_default_config_path\<rparr>"

text \<open>The argument loop; the list holds \<open>argv[index]\<close> onwards.\<close>

fun parse_arguments :: "server_config \<Rightarrow> bytes list \<Rightarrow> bytes + server_config" where
  "parse_arguments config [] = Inr config"
| "parse_arguments config (argument # rest) =
     (if argument = ascii ''--help'' \<or> argument = ascii ''-h'' then
        Inr (config\<lparr>show_help := True\<rparr>)
      else if argument = ascii ''--console'' then
        parse_arguments (config\<lparr>run_mode := server_run_mode_console\<rparr>) rest
      else if argument = ascii ''--daemon'' then
        parse_arguments (config\<lparr>run_mode := server_run_mode_daemon\<rparr>) rest
      else if argument = ascii ''--config'' then
        (case rest of
           [] \<Rightarrow> Inl (ascii ''missing path after --config'')
         | path # rest' \<Rightarrow>
             (if length path \<ge> server_plugin_path_max then
                Inl (ascii ''configuration path is too long'')
              else parse_arguments (config\<lparr>config_path := path\<rparr>) rest'))
      else Inl (ascii ''unknown argument''))"

definition parse_server_config :: "bytes list \<Rightarrow> bytes + server_config" where
  "parse_server_config argv = parse_arguments init_server_config (drop 1 argv)"

definition server_run_mode_name :: "server_run_mode \<Rightarrow> bytes" where
  "server_run_mode_name mode =
     (case mode of server_run_mode_console \<Rightarrow> ascii ''console''
      | server_run_mode_daemon \<Rightarrow> ascii ''daemon'')"

subsection \<open>Text scanning\<close>

definition trim_left :: "bytes \<Rightarrow> bytes" where
  "trim_left text = dropWhile isspace text"

definition trim_right :: "bytes \<Rightarrow> bytes" where
  "trim_right text = rev (dropWhile isspace (rev text))"

text \<open>One \<open>fgets\<close> with room for \<open>n\<close> bytes before the NUL: up to and including a newline.\<close>

fun fgets :: "nat \<Rightarrow> bytes \<Rightarrow> bytes \<times> bytes" where
  "fgets n [] = ([], [])"
| "fgets 0 input = ([], input)"
| "fgets (Suc n) (c # input) =
     (if c = 10 then ([c], input)
      else let (line, rest) = fgets n input in (c # line, rest))"

text \<open>\<open>strtok (line, " \t")\<close> called until it returns \<open>NULL\<close>.\<close>

definition is_delim :: "u8 \<Rightarrow> bool" where
  "is_delim c \<longleftrightarrow> c = 32 \<or> c = 9"

function strtok_all :: "bytes \<Rightarrow> bytes list" where
  "strtok_all line =
     (let s = dropWhile is_delim line in
      if s = [] then []
      else takeWhile (\<lambda>c. \<not> is_delim c) s # strtok_all (dropWhile (\<lambda>c. \<not> is_delim c) s))"
  by pat_completeness auto
termination
proof (relation "measure length", goal_cases)
  case 1
  show ?case by simp
next
  case (2 line s)
  from 2(2) obtain c cs where s: "s = c # cs"
    by (cases s) auto
  have "\<not> is_delim c"
    using 2 s hd_dropWhile [of is_delim line] by (metis list.sel(1))
  then have "length (dropWhile (\<lambda>c. \<not> is_delim c) s) \<le> length cs"
    by (simp add: s length_dropWhile_le)
  moreover have "length s \<le> length line"
    using 2 by (simp add: length_dropWhile_le)
  ultimately show ?case
    by (simp add: s)
qed

declare strtok_all.simps [simp del]

definition token :: "bytes list \<Rightarrow> nat \<Rightarrow> bytes option" where
  "token tokens i = (if i < length tokens then Some (tokens ! i) else None)"

text \<open>
  \<open>strtol (text, &tail, 10)\<close> on a 64-bit \<open>long\<close>: white space, an optional sign, digits,
  saturation at both ends. \<open>None\<close> when no digit was converted (\<open>tail == text\<close>).
\<close>

definition strtol :: "bytes \<Rightarrow> (int \<times> bytes) option" where
  "strtol text =
     (let s = dropWhile isspace text;
          negative = (s \<noteq> [] \<and> hd s = of_char CHR ''-'');
          s' = (if s \<noteq> [] \<and> (hd s = of_char CHR ''-'' \<or> hd s = of_char CHR ''+'') then tl s else s);
          digits = takeWhile isdigit s';
          value = digits_value 0 digits
      in if digits = [] then None
         else Some (max (- (2 ^ 63)) (min (2 ^ 63 - 1) (if negative then - value else value)),
           dropWhile isdigit s'))"

text \<open>Conversion of a 64-bit \<open>long\<close> to \<open>int\<close>, as gcc and clang define it.\<close>

definition int_of_long :: "int \<Rightarrow> int" where
  "int_of_long v = sint (word_of_int v :: 32 word)"

subsection \<open>The configuration\<close>

record server_plugin_mapping =
  mapping_port :: u8
  mapping_path :: bytes

record server_plugin_config_file =
  system_plugin_path :: bytes
  mappings :: "server_plugin_mapping list"
  serial_device :: bytes
  serial_baud :: int
  serial_databits :: int
  serial_parity :: int
  serial_stopbits :: int
  serial_flow :: int
  squid_payload :: int

definition server_default_system_plugin_path :: bytes where
  "server_default_system_plugin_path = ascii ''/opt/squid/lib/plugins/libsquidsys.so''"

definition server_plugin_mapping_max :: nat where "server_plugin_mapping_max = 15"
definition server_serial_device_path_max :: nat where "server_serial_device_path_max = 64"
definition server_squid_payload_min :: u8 where "server_squid_payload_min = 16"
definition server_squid_payload_max :: u8 where "server_squid_payload_max = 112"

definition init_server_plugin_config_file :: server_plugin_config_file where
  "init_server_plugin_config_file =
     \<lparr>system_plugin_path = server_default_system_plugin_path, mappings = [],
      serial_device = [], serial_baud = 9600, serial_databits = 8, serial_parity = 0,
      serial_stopbits = 1, serial_flow = 1, squid_payload = uint server_squid_payload_max\<rparr>"

definition copy_plugin_path :: "bytes \<Rightarrow> bytes option" where
  "copy_plugin_path source =
     (if length source \<ge> server_plugin_path_max then None else Some source)"

definition find_plugin_mapping ::
  "server_plugin_config_file \<Rightarrow> u8 \<Rightarrow> server_plugin_mapping option" where
  "find_plugin_mapping config port = find (\<lambda>m. mapping_port m = port) (mappings config)"

definition parse_port_number :: "bytes \<Rightarrow> u8 option" where
  "parse_port_number text =
     (case strtol text of
        None \<Rightarrow> None
      | Some (value, tail) \<Rightarrow>
          (if tail \<noteq> [] then None
           else if value < 0 \<or> value > 255 then None
           else Some (word_of_int value)))"

subsection \<open>Directives\<close>

definition parse_system_plugin_line ::
  "server_plugin_config_file \<Rightarrow> bytes option \<Rightarrow> bytes option \<Rightarrow>
     bytes + server_plugin_config_file" where
  "parse_system_plugin_line config path_token extra_token =
     (case path_token of
        None \<Rightarrow> Inl (ascii ''invalid system_plugin directive'')
      | Some path \<Rightarrow>
          (if extra_token \<noteq> None then Inl (ascii ''invalid system_plugin directive'')
           else case copy_plugin_path path of
             None \<Rightarrow> Inl (ascii ''system plugin path is too long'')
           | Some p \<Rightarrow> Inr (config\<lparr>system_plugin_path := p\<rparr>)))"

definition parse_plugin_line ::
  "server_plugin_config_file \<Rightarrow> bytes option \<Rightarrow> bytes option \<Rightarrow> bytes option \<Rightarrow>
     bytes + server_plugin_config_file" where
  "parse_plugin_line config port_token path_token extra_token =
     (case (port_token, path_token, extra_token) of
        (Some port_text, Some path, None) \<Rightarrow>
          (case parse_port_number port_text of
             None \<Rightarrow> Inl (ascii ''invalid port number'')
           | Some port \<Rightarrow>
               (if \<not> is_valid_assignable_server_port port then
                  Inl (ascii ''plugin ports must be in the range 1-15'')
                else if find_plugin_mapping config port \<noteq> None then
                  Inl (ascii ''duplicate plugin port assignment'')
                else if length (mappings config) \<ge> server_plugin_mapping_max then
                  Inl (ascii ''too many plugin mappings'')
                else case copy_plugin_path path of
                  None \<Rightarrow> Inl (ascii ''plugin path is too long'')
                | Some p \<Rightarrow> Inr (config\<lparr>mappings := mappings config @
                    [\<lparr>mapping_port = port, mapping_path = p\<rparr>]\<rparr>)))
      | _ \<Rightarrow> Inl (ascii ''invalid plugin directive''))"

definition parse_serial_device_line ::
  "server_plugin_config_file \<Rightarrow> bytes option \<Rightarrow> bytes option \<Rightarrow>
     bytes + server_plugin_config_file" where
  "parse_serial_device_line config first_value second_value =
     (case (first_value, second_value) of
        (Some device, None) \<Rightarrow>
          (if length device \<ge> server_serial_device_path_max then
             Inl (ascii ''serial device path is too long'')
           else Inr (config\<lparr>serial_device := device\<rparr>))
      | _ \<Rightarrow> Inl (ascii ''invalid serial_device directive''))"

definition parse_serial_baud_line ::
  "server_plugin_config_file \<Rightarrow> bytes option \<Rightarrow> bytes option \<Rightarrow>
     bytes + server_plugin_config_file" where
  "parse_serial_baud_line config first_value second_value =
     (case (first_value, second_value) of
        (Some text, None) \<Rightarrow>
          (case strtol text of
             None \<Rightarrow> Inl (ascii ''invalid serial baud rate'')
           | Some (parsed_baud, tail) \<Rightarrow>
               (if tail \<noteq> [] \<or> parsed_baud \<le> 0 then Inl (ascii ''invalid serial baud rate'')
                else Inr (config\<lparr>serial_baud := int_of_long parsed_baud\<rparr>)))
      | _ \<Rightarrow> Inl (ascii ''invalid serial_baud directive''))"

definition parse_serial_databits_line ::
  "server_plugin_config_file \<Rightarrow> bytes option \<Rightarrow> bytes option \<Rightarrow>
     bytes + server_plugin_config_file" where
  "parse_serial_databits_line config first_value second_value =
     (case (first_value, second_value) of
        (Some text, None) \<Rightarrow>
          (if text \<noteq> ascii ''7'' \<and> text \<noteq> ascii ''8'' then
             Inl (ascii ''serial_databits must be 7 or 8'')
           else Inr (config\<lparr>serial_databits := if hd text = of_char CHR ''7'' then 7 else 8\<rparr>))
      | _ \<Rightarrow> Inl (ascii ''serial_databits must be 7 or 8''))"

definition parse_serial_parity_line ::
  "server_plugin_config_file \<Rightarrow> bytes option \<Rightarrow> bytes option \<Rightarrow>
     bytes + server_plugin_config_file" where
  "parse_serial_parity_line config first_value second_value =
     (case (first_value, second_value) of
        (Some text, None) \<Rightarrow>
          (if text = ascii ''none'' then Inr (config\<lparr>serial_parity := 0\<rparr>)
           else if text = ascii ''even'' then Inr (config\<lparr>serial_parity := 1\<rparr>)
           else if text = ascii ''odd'' then Inr (config\<lparr>serial_parity := 2\<rparr>)
           else Inl (ascii ''serial_parity must be none, even, or odd''))
      | _ \<Rightarrow> Inl (ascii ''invalid serial_parity directive''))"

definition parse_serial_stopbits_line ::
  "server_plugin_config_file \<Rightarrow> bytes option \<Rightarrow> bytes option \<Rightarrow>
     bytes + server_plugin_config_file" where
  "parse_serial_stopbits_line config first_value second_value =
     (case (first_value, second_value) of
        (Some text, None) \<Rightarrow>
          (if text \<noteq> ascii ''1'' \<and> text \<noteq> ascii ''2'' then
             Inl (ascii ''serial_stopbits must be 1 or 2'')
           else Inr (config\<lparr>serial_stopbits := if hd text = of_char CHR ''2'' then 2 else 1\<rparr>))
      | _ \<Rightarrow> Inl (ascii ''serial_stopbits must be 1 or 2''))"

definition parse_serial_flow_line ::
  "server_plugin_config_file \<Rightarrow> bytes option \<Rightarrow> bytes option \<Rightarrow>
     bytes + server_plugin_config_file" where
  "parse_serial_flow_line config first_value second_value =
     (case (first_value, second_value) of
        (Some text, None) \<Rightarrow>
          (if text = ascii ''none'' then Inr (config\<lparr>serial_flow := 0\<rparr>)
           else if text = ascii ''rtscts'' then Inr (config\<lparr>serial_flow := 1\<rparr>)
           else if text = ascii ''xonxoff'' then Inr (config\<lparr>serial_flow := 2\<rparr>)
           else Inl (ascii ''serial_flow must be none, rtscts, or xonxoff''))
      | _ \<Rightarrow> Inl (ascii ''invalid serial_flow directive''))"

definition parse_squid_payload_line ::
  "server_plugin_config_file \<Rightarrow> bytes option \<Rightarrow> bytes option \<Rightarrow>
     bytes + server_plugin_config_file" where
  "parse_squid_payload_line config first_value second_value =
     (case (first_value, second_value) of
        (Some text, None) \<Rightarrow>
          (case parse_port_number text of
             None \<Rightarrow> Inl (ascii ''squid_payload must be from 16 to 112'')
           | Some payload \<Rightarrow>
               (if payload < server_squid_payload_min \<or> payload > server_squid_payload_max then
                  Inl (ascii ''squid_payload must be from 16 to 112'')
                else Inr (config\<lparr>squid_payload := uint payload\<rparr>)))
      | _ \<Rightarrow> Inl (ascii ''squid_payload must be from 16 to 112''))"

text \<open>The body of the line loop of \<open>parse_server_plugin_config_file\<close>.\<close>

definition parse_config_line ::
  "server_plugin_config_file \<Rightarrow> bytes \<Rightarrow> bytes + server_plugin_config_file" where
  "parse_config_line config line_buffer =
     (let line = trim_left (trim_right (c_string line_buffer)) in
      if line = [] \<or> hd line = of_char CHR ''#'' then Inr config
      else
        let tokens = strtok_all line;
            keyword = token tokens 0; first = token tokens 1;
            second = token tokens 2; extra = token tokens 3
        in if keyword = Some (ascii ''system_plugin'') then
             parse_system_plugin_line config first second
           else if keyword = Some (ascii ''plugin'') then
             parse_plugin_line config first second extra
           else if keyword = Some (ascii ''serial_device'') then
             parse_serial_device_line config first second
           else if keyword = Some (ascii ''serial_baud'') then
             parse_serial_baud_line config first second
           else if keyword = Some (ascii ''serial_databits'') then
             parse_serial_databits_line config first second
           else if keyword = Some (ascii ''serial_parity'') then
             parse_serial_parity_line config first second
           else if keyword = Some (ascii ''serial_stopbits'') then
             parse_serial_stopbits_line config first second
           else if keyword = Some (ascii ''serial_flow'') then
             parse_serial_flow_line config first second
           else if keyword = Some (ascii ''squid_payload'') then
             parse_squid_payload_line config first second
           else Inl (ascii ''unknown plugin configuration directive''))"

definition line_buffer_size :: nat where "line_buffer_size = 1024"

lemma fgets_length: "fgets n input = (line, rest) \<Longrightarrow> length line + length rest = length input"
  by (induction n input arbitrary: line rest rule: fgets.induct)
     (auto split: if_splits prod.splits)

lemma fgets_shorter:
  assumes "fgets n input = (line, rest)" and "0 < n" and "input \<noteq> []"
  shows "length rest < length input"
proof -
  have "line \<noteq> []"
    using assms by (cases n; cases input) (auto split: if_splits prod.splits)
  then show ?thesis
    using fgets_length [OF assms(1)] by (cases line) auto
qed

function parse_config_lines ::
  "server_plugin_config_file \<Rightarrow> bytes \<Rightarrow> bytes + server_plugin_config_file" where
  "parse_config_lines config input =
     (if input = [] then Inr config
      else let (line_buffer, rest) = fgets (line_buffer_size - 1) input in
        case parse_config_line config line_buffer of
          Inl message \<Rightarrow> Inl message
        | Inr config' \<Rightarrow> parse_config_lines config' rest)"
  by pat_completeness auto
termination
proof (relation "measure (\<lambda>(config, input). length input)", goal_cases)
  case 1
  show ?case by simp
next
  case (2 config input x line_buffer rest config')
  then show ?case
    using fgets_shorter [of "line_buffer_size - 1" input line_buffer rest]
    by (simp add: line_buffer_size_def del: fgets.simps)
qed

declare parse_config_lines.simps [simp del]

definition parse_server_plugin_config_file ::
  "(bytes \<Rightarrow> bytes option) \<Rightarrow> bytes option \<Rightarrow> bytes + server_plugin_config_file" where
  "parse_server_plugin_config_file fopen file_path =
     (case file_path of
        None \<Rightarrow> Inl (ascii ''missing plugin configuration path'')
      | Some path \<Rightarrow>
          (case fopen path of
             None \<Rightarrow> Inl (ascii ''failed to open plugin configuration'')
           | Some contents \<Rightarrow> parse_config_lines init_server_plugin_config_file contents))"

subsection \<open>Well-formed configurations\<close>

definition wf_plugin_config :: "server_plugin_config_file \<Rightarrow> bool" where
  "wf_plugin_config c \<longleftrightarrow>
     length (system_plugin_path c) < server_plugin_path_max \<and>
     distinct (map mapping_port (mappings c)) \<and>
     (\<forall>m \<in> set (mappings c). is_valid_assignable_server_port (mapping_port m) \<and>
        length (mapping_path m) < server_plugin_path_max) \<and>
     length (serial_device c) < server_serial_device_path_max \<and>
     serial_databits c \<in> {7, 8} \<and> serial_parity c \<in> {0, 1, 2} \<and>
     serial_stopbits c \<in> {1, 2} \<and> serial_flow c \<in> {0, 1, 2} \<and>
     16 \<le> squid_payload c \<and> squid_payload c \<le> 112"

lemmas directive_defs = parse_system_plugin_line_def parse_plugin_line_def
  parse_serial_device_line_def parse_serial_baud_line_def parse_serial_databits_line_def
  parse_serial_parity_line_def parse_serial_stopbits_line_def parse_serial_flow_line_def
  parse_squid_payload_line_def

lemma wf_init: "wf_plugin_config init_server_plugin_config_file"
  by (simp add: wf_plugin_config_def init_server_plugin_config_file_def
      server_default_system_plugin_path_def server_plugin_path_max_def
      server_serial_device_path_max_def server_squid_payload_max_def)

lemma find_plugin_mapping_None:
  "find_plugin_mapping c port = None \<longleftrightarrow> port \<notin> mapping_port ` set (mappings c)"
  by (auto simp: find_plugin_mapping_def find_None_iff)

lemma copy_plugin_path_SomeD:
  "copy_plugin_path s = Some t \<Longrightarrow> t = s \<and> length t < server_plugin_path_max"
  by (auto simp: copy_plugin_path_def split: if_splits)

lemma payload_range:
  "\<not> (payload < server_squid_payload_min \<or> payload > server_squid_payload_max) \<Longrightarrow>
     16 \<le> uint payload \<and> uint payload \<le> 112"
  by (simp add: server_squid_payload_min_def server_squid_payload_max_def word_le_def not_less
      del: One_nat_def)

lemma wf_updates:
  assumes "wf_plugin_config c"
  shows "length p < server_plugin_path_max \<Longrightarrow> wf_plugin_config (c\<lparr>system_plugin_path := p\<rparr>)"
    and "length d < server_serial_device_path_max \<Longrightarrow> wf_plugin_config (c\<lparr>serial_device := d\<rparr>)"
    and "wf_plugin_config (c\<lparr>serial_baud := n\<rparr>)"
    and "n \<in> {7, 8} \<Longrightarrow> wf_plugin_config (c\<lparr>serial_databits := n\<rparr>)"
    and "n \<in> {0, 1, 2} \<Longrightarrow> wf_plugin_config (c\<lparr>serial_parity := n\<rparr>)"
    and "n \<in> {1, 2} \<Longrightarrow> wf_plugin_config (c\<lparr>serial_stopbits := n\<rparr>)"
    and "n \<in> {0, 1, 2} \<Longrightarrow> wf_plugin_config (c\<lparr>serial_flow := n\<rparr>)"
    and "16 \<le> n \<Longrightarrow> n \<le> 112 \<Longrightarrow> wf_plugin_config (c\<lparr>squid_payload := n\<rparr>)"
  using assms by (simp_all add: wf_plugin_config_def)

lemma wf_add_mapping:
  "wf_plugin_config c \<Longrightarrow> is_valid_assignable_server_port port \<Longrightarrow>
   find_plugin_mapping c port = None \<Longrightarrow> length p < server_plugin_path_max \<Longrightarrow>
     wf_plugin_config (c\<lparr>mappings := mappings c @
       [\<lparr>mapping_port = port, mapping_path = p\<rparr>]\<rparr>)"
  by (simp add: wf_plugin_config_def find_plugin_mapping_None)

lemma directive_wf:
  assumes "wf_plugin_config c"
  shows "parse_system_plugin_line c a b = Inr c' \<Longrightarrow> wf_plugin_config c'"
    and "parse_plugin_line c a b d = Inr c' \<Longrightarrow> wf_plugin_config c'"
    and "parse_serial_device_line c a b = Inr c' \<Longrightarrow> wf_plugin_config c'"
    and "parse_serial_baud_line c a b = Inr c' \<Longrightarrow> wf_plugin_config c'"
    and "parse_serial_databits_line c a b = Inr c' \<Longrightarrow> wf_plugin_config c'"
    and "parse_serial_parity_line c a b = Inr c' \<Longrightarrow> wf_plugin_config c'"
    and "parse_serial_stopbits_line c a b = Inr c' \<Longrightarrow> wf_plugin_config c'"
    and "parse_serial_flow_line c a b = Inr c' \<Longrightarrow> wf_plugin_config c'"
    and "parse_squid_payload_line c a b = Inr c' \<Longrightarrow> wf_plugin_config c'"
  using payload_range
  by (auto simp: directive_defs wf_updates [OF assms] wf_add_mapping [OF assms]
      dest!: copy_plugin_path_SomeD split: option.splits if_split_asm)

lemma parse_config_line_wf:
  "wf_plugin_config c \<Longrightarrow> parse_config_line c line = Inr c' \<Longrightarrow> wf_plugin_config c'"
  by (auto simp: parse_config_line_def Let_def dest: directive_wf split: if_splits)

lemma parse_config_lines_wf:
  "wf_plugin_config c \<Longrightarrow> parse_config_lines c input = Inr c' \<Longrightarrow> wf_plugin_config c'"
proof (induction c input rule: parse_config_lines.induct)
  case (1 c input)
  show ?case
  proof (cases "input = []")
    case True
    with 1 show ?thesis by (simp add: parse_config_lines.simps)
  next
    case False
    obtain line rest where line: "fgets (line_buffer_size - 1) input = (line, rest)"
      by fastforce
    with 1 False show ?thesis
      by (auto simp: parse_config_lines.simps [of c input] parse_config_line_wf
          split: sum.splits)
  qed
qed

text \<open>The mapping table cannot fill up: fifteen distinct assignable ports are all there are.\<close>

lemma mapping_table_has_room:
  assumes wf: "wf_plugin_config c"
    and port: "is_valid_assignable_server_port port" "find_plugin_mapping c port = None"
  shows "length (mappings c) < server_plugin_mapping_max"
proof -
  let ?ports = "mapping_port ` set (mappings c)"
  have valid: "insert port ?ports \<subseteq> {1..15}"
    using wf port by (auto simp: wf_plugin_config_def is_valid_assignable_server_port_def)
  have "card (unat ` {1..15 :: u8}) \<le> card {1..15 :: nat}"
    by (rule card_mono) (auto simp: word_le_nat_alt)
  then have small: "card {1..15 :: u8} \<le> 15"
    by (subst (asm) card_image) (auto simp: inj_on_def word_unat_eq_iff)
  have "Suc (length (mappings c)) = card (insert port ?ports)"
    using wf port distinct_card [of "map mapping_port (mappings c)"]
    by (simp add: wf_plugin_config_def find_plugin_mapping_None)
  also have "\<dots> \<le> 15"
    using card_mono [OF _ valid] small by simp
  finally show ?thesis
    by (simp add: server_plugin_mapping_max_def)
qed

end
