(* ===== verification/Config_Render.thy ===== *)
theory Config_Render
  imports Server_Config
begin

text \<open>
  A printer for configurations, used as the specification of the parser: a well-formed
  configuration printed as a file and parsed again is the same configuration.
\<close>

subsection \<open>Decimal numbers\<close>

lemma strtol_show_nat:
  assumes "n < 2 ^ 63"
  shows "strtol (show_nat n) = Some (int n, [])"
proof -
  obtain c cs where s: "show_nat n = c # cs"
    using show_nat_props [of n] by (cases "show_nat n") auto
  have digits: "\<forall>x \<in> set (c # cs). isdigit x" and number: "digits_value 0 (c # cs) = int n"
    using show_nat_props [of n] by (simp_all add: s)
  have c: "\<not> isspace c" "c \<noteq> 45" "c \<noteq> 43"
    using digits isdigit_not_space [of c] by auto
  have "takeWhile isdigit (c # cs) = c # cs" "dropWhile isdigit (c # cs) = []"
    using digits by (simp_all add: takeWhile_eq_all_conv)
  moreover have "int n \<le> 2 ^ 63 - 1"
    using assms by simp
  ultimately show ?thesis
    using c number unfolding s strtol_def Let_def by simp
qed

subsection \<open>Lines of words\<close>

definition is_word :: "bytes \<Rightarrow> bool" where
  "is_word w \<longleftrightarrow> w \<noteq> [] \<and> (\<forall>c \<in> set w. \<not> isspace c \<and> c \<noteq> 0)"

fun join_words :: "bytes list \<Rightarrow> bytes" where
  "join_words [] = []"
| "join_words [w] = w"
| "join_words (w # ws) = w @ 32 # join_words ws"

lemma is_delim_isspace: "is_delim c \<Longrightarrow> isspace c"
  by (auto simp: is_delim_def isspace_def)

lemma word_no_delim: "is_word w \<Longrightarrow> c \<in> set w \<Longrightarrow> \<not> is_delim c"
  by (auto simp: is_word_def dest: is_delim_isspace)

lemma strtok_one:
  assumes "is_word w" and "rest = [] \<or> is_delim (hd rest)"
  shows "strtok_all (w @ rest) = w # strtok_all rest"
proof -
  obtain c cs where w: "w = c # cs" and c: "\<not> is_delim c"
    using assms(1) word_no_delim [OF assms(1)] by (cases w) (auto simp: is_word_def)
  have skip: "dropWhile is_delim (w @ rest) = w @ rest"
    using c by (simp add: w)
  have "\<forall>x \<in> set w. \<not> is_delim x"
    using word_no_delim [OF assms(1)] by blast
  then have "takeWhile (\<lambda>c. \<not> is_delim c) (w @ rest) = w"
    and "dropWhile (\<lambda>c. \<not> is_delim c) (w @ rest) = rest"
    using assms(2) by (cases rest; simp add: takeWhile_append2 dropWhile_append2)+
  then show ?thesis
    using skip by (subst strtok_all.simps) (simp add: w)
qed

lemma strtok_all_Nil [simp]: "strtok_all [] = []"
  by (simp add: strtok_all.simps)

lemma strtok_all_delim: "is_delim c \<Longrightarrow> strtok_all (c # s) = strtok_all s"
  by (subst (1 2) strtok_all.simps) simp

lemma strtok_join_words: "\<forall>w \<in> set ws. is_word w \<Longrightarrow> strtok_all (join_words ws) = ws"
proof (induction ws rule: join_words.induct)
  case (2 w)
  then show ?case using strtok_one [of w "[]"] by simp
next
  case (3 w v ws)
  then show ?case
    using strtok_one [of w "32 # join_words (v # ws)"]
    by (simp add: strtok_all_delim is_delim_def)
qed simp

lemma join_words_ends:
  assumes "ws \<noteq> []" and "\<forall>w \<in> set ws. is_word w"
  shows "join_words ws \<noteq> [] \<and> hd (join_words ws) = hd (hd ws) \<and>
    \<not> isspace (hd (join_words ws)) \<and> \<not> isspace (last (join_words ws)) \<and> 0 \<notin> set (join_words ws)"
  using assms
  by (induction ws rule: join_words.induct) (auto simp: is_word_def)

lemma isspace_newline: "isspace 10"
  by (simp add: isspace_def)

lemma trim_line:
  assumes "s \<noteq> []" and "\<not> isspace (hd s)" and "\<not> isspace (last s)" and "0 \<notin> set s"
  shows "trim_left (trim_right (c_string (s @ [10]))) = s"
proof -
  have cs: "c_string (s @ [10]) = s @ [10]"
    using assms(4) by (intro c_string_id) (auto simp: is_c_string_def)
  obtain x xs where r: "rev s = x # xs" and x: "x = last s"
    using assms(1) by (cases "rev s") (auto simp: last_rev [symmetric] hd_rev)
  have "rev (x # xs) = s"
    using r by (metis rev_rev_ident)
  then have "trim_right (s @ [10]) = s"
    using assms(3) unfolding trim_right_def rev_append r x by (simp add: isspace_newline)
  moreover have "trim_left s = s"
    using assms(1,2) by (cases s) (simp_all add: trim_left_def)
  ultimately show ?thesis by (simp add: cs)
qed

text \<open>A line made of words is read as exactly these words.\<close>

definition directive ::
  "server_plugin_config_file \<Rightarrow> bytes list \<Rightarrow> bytes + server_plugin_config_file" where
  "directive c ws = parse_config_line c (join_words ws @ [10])"

lemma line_of_words:
  assumes "ws \<noteq> []" and "\<forall>w \<in> set ws. is_word w"
  shows "trim_left (trim_right (c_string (join_words ws @ [10]))) = join_words ws"
    and "strtok_all (join_words ws) = ws" and "join_words ws \<noteq> []"
    and "hd (join_words ws) = hd (hd ws)"
  using join_words_ends [OF assms] assms(2) trim_line strtok_join_words by auto

lemma fgets_line:
  "length l < n \<Longrightarrow> 10 \<notin> set l \<Longrightarrow> fgets n (l @ 10 # rest) = (l @ [10], rest)"
proof (induction l arbitrary: n)
  case Nil
  then show ?case by (cases n) auto
next
  case (Cons c l)
  then show ?case by (cases n) auto
qed

lemma parse_config_lines_line:
  assumes "length l < line_buffer_size - 1" and "10 \<notin> set l"
  shows "parse_config_lines c (l @ 10 # rest) =
    (case parse_config_line c (l @ [10]) of Inl m \<Rightarrow> Inl m | Inr c' \<Rightarrow> parse_config_lines c' rest)"
  using fgets_line [OF assms, of rest]
  by (subst parse_config_lines.simps) simp

subsection \<open>Directives made of words\<close>

lemma keyword_words:
  "is_word (ascii ''system_plugin'')" "is_word (ascii ''plugin'')"
  "is_word (ascii ''serial_device'')" "is_word (ascii ''serial_baud'')"
  "is_word (ascii ''serial_databits'')" "is_word (ascii ''serial_parity'')"
  "is_word (ascii ''serial_stopbits'')" "is_word (ascii ''serial_flow'')"
  "is_word (ascii ''squid_payload'')"
  by (simp_all add: is_word_def ascii_Cons isspace_def)

lemma is_word_show_nat: "is_word (show_nat n)"
  using show_nat_props [of n] isdigit_not_space by (auto simp: is_word_def)

text \<open>The dispatch of \<open>parse_config_line\<close> on the words of a line.\<close>

lemma directive_dispatch:
  assumes "\<forall>w \<in> set (k # vs). is_word w" and "hd k \<noteq> 35"
  shows "directive c (k # vs) =
    (if k = ascii ''system_plugin'' then parse_system_plugin_line c (token vs 0) (token vs 1)
     else if k = ascii ''plugin'' then parse_plugin_line c (token vs 0) (token vs 1) (token vs 2)
     else if k = ascii ''serial_device'' then parse_serial_device_line c (token vs 0) (token vs 1)
     else if k = ascii ''serial_baud'' then parse_serial_baud_line c (token vs 0) (token vs 1)
     else if k = ascii ''serial_databits'' then parse_serial_databits_line c (token vs 0) (token vs 1)
     else if k = ascii ''serial_parity'' then parse_serial_parity_line c (token vs 0) (token vs 1)
     else if k = ascii ''serial_stopbits'' then parse_serial_stopbits_line c (token vs 0) (token vs 1)
     else if k = ascii ''serial_flow'' then parse_serial_flow_line c (token vs 0) (token vs 1)
     else if k = ascii ''squid_payload'' then parse_squid_payload_line c (token vs 0) (token vs 1)
     else Inl (ascii ''unknown plugin configuration directive''))"
proof -
  have ws: "k # vs \<noteq> []" by simp
  have t: "token (k # vs) 0 = Some k" "token (k # vs) 1 = token vs 0"
    "token (k # vs) 2 = token vs 1" "token (k # vs) 3 = token vs 2"
    by (simp_all add: token_def)
  show ?thesis
    unfolding directive_def parse_config_line_def line_of_words(1,2) [OF ws assms(1)] Let_def t
    using line_of_words(3,4) [OF ws assms(1)] assms(2) by simp
qed

lemma token_simps [simp]:
  "token [a] 0 = Some a" "token [a] (Suc 0) = None"
  "token [a, b] 0 = Some a" "token [a, b] (Suc 0) = Some b" "token [a, b] 2 = None"
  by (simp_all add: token_def)

lemma directive_values:
  assumes "is_word v"
  shows "directive c [ascii ''system_plugin'', v] = parse_system_plugin_line c (Some v) None"
    and "directive c [ascii ''serial_device'', v] = parse_serial_device_line c (Some v) None"
    and "directive c [ascii ''serial_baud'', v] = parse_serial_baud_line c (Some v) None"
    and "directive c [ascii ''serial_databits'', v] = parse_serial_databits_line c (Some v) None"
    and "directive c [ascii ''serial_parity'', v] = parse_serial_parity_line c (Some v) None"
    and "directive c [ascii ''serial_stopbits'', v] = parse_serial_stopbits_line c (Some v) None"
    and "directive c [ascii ''serial_flow'', v] = parse_serial_flow_line c (Some v) None"
    and "directive c [ascii ''squid_payload'', v] = parse_squid_payload_line c (Some v) None"
  using assms by (simp_all add: directive_dispatch keyword_words)

lemma directive_plugin:
  "is_word v \<Longrightarrow> is_word u \<Longrightarrow>
     directive c [ascii ''plugin'', u, v] = parse_plugin_line c (Some u) (Some v) None"
  by (simp add: directive_dispatch keyword_words)

subsection \<open>Printing a configuration\<close>

definition config_words :: "server_plugin_config_file \<Rightarrow> bytes list list" where
  "config_words c =
     [[ascii ''system_plugin'', system_plugin_path c]] @
     map (\<lambda>m. [ascii ''plugin'', show_nat (unat (mapping_port m)), mapping_path m]) (mappings c) @
     (if serial_device c = [] then [] else [[ascii ''serial_device'', serial_device c]]) @
     [[ascii ''serial_baud'', show_nat (nat (serial_baud c))],
      [ascii ''serial_databits'', if serial_databits c = 7 then ascii ''7'' else ascii ''8''],
      [ascii ''serial_parity'', if serial_parity c = 0 then ascii ''none''
         else if serial_parity c = 1 then ascii ''even'' else ascii ''odd''],
      [ascii ''serial_stopbits'', if serial_stopbits c = 2 then ascii ''2'' else ascii ''1''],
      [ascii ''serial_flow'', if serial_flow c = 0 then ascii ''none''
         else if serial_flow c = 1 then ascii ''rtscts'' else ascii ''xonxoff''],
      [ascii ''squid_payload'', show_nat (nat (squid_payload c))]]"

definition render_config :: "server_plugin_config_file \<Rightarrow> bytes" where
  "render_config c = concat (map (\<lambda>ws. join_words ws @ [10]) (config_words c))"

text \<open>Configurations the file format can express: paths are single words, the baud rate fits.\<close>

definition expressible :: "server_plugin_config_file \<Rightarrow> bool" where
  "expressible c \<longleftrightarrow> wf_plugin_config c \<and> is_word (system_plugin_path c) \<and>
     (\<forall>m \<in> set (mappings c). is_word (mapping_path m)) \<and>
     (serial_device c = [] \<or> is_word (serial_device c)) \<and>
     0 < serial_baud c \<and> serial_baud c < 2 ^ 31"

fun run_directives ::
  "server_plugin_config_file \<Rightarrow> bytes list list \<Rightarrow> bytes + server_plugin_config_file" where
  "run_directives c [] = Inr c"
| "run_directives c (ws # wss) =
     (case directive c ws of Inl m \<Rightarrow> Inl m | Inr c' \<Rightarrow> run_directives c' wss)"

definition short_line :: "bytes list \<Rightarrow> bool" where
  "short_line ws \<longleftrightarrow> ws \<noteq> [] \<and> (\<forall>w \<in> set ws. is_word w) \<and> length (join_words ws) < 1023"

lemma join_words_no_newline: "\<forall>w \<in> set ws. is_word w \<Longrightarrow> 10 \<notin> set (join_words ws)"
  by (induction ws rule: join_words.induct) (auto simp: is_word_def isspace_newline)

lemma parse_rendered_lines:
  "\<forall>ws \<in> set wss. short_line ws \<Longrightarrow>
     parse_config_lines c (concat (map (\<lambda>ws. join_words ws @ [10]) wss)) = run_directives c wss"
proof (induction wss arbitrary: c)
  case Nil
  then show ?case by (simp add: parse_config_lines.simps)
next
  case (Cons ws wss)
  have "length (join_words ws) < line_buffer_size - 1" and "10 \<notin> set (join_words ws)"
    using Cons.prems join_words_no_newline [of ws]
    by (simp_all add: short_line_def line_buffer_size_def)
  then show ?case
    using Cons by (auto simp: parse_config_lines_line directive_def split: sum.splits)
qed

lemma length_show_nat: "n < 10 ^ k \<Longrightarrow> 0 < k \<Longrightarrow> length (show_nat n) \<le> k"
proof (induction k arbitrary: n)
  case (Suc k)
  show ?case
  proof (cases "n < 10")
    case True
    then show ?thesis by (subst show_nat.simps) simp
  next
    case False
    then have "0 < k" using Suc.prems by (cases k) auto
    moreover have "n div 10 < 10 ^ k" using Suc.prems by (simp add: div_less_iff_less_mult mult.commute)
    ultimately have "length (show_nat (n div 10)) \<le> k" by (rule Suc.IH [rotated])
    with False show ?thesis by (subst show_nat.simps) simp
  qed
qed simp

lemma run_directives_append:
  "run_directives c (xs @ ys) =
     (case run_directives c xs of Inl m \<Rightarrow> Inl m | Inr c' \<Rightarrow> run_directives c' ys)"
  by (induction xs arbitrary: c) (auto split: sum.splits)

lemma value_words:
  "is_word (ascii ''7'')" "is_word (ascii ''8'')" "is_word (ascii ''1'')" "is_word (ascii ''2'')"
  "is_word (ascii ''none'')" "is_word (ascii ''even'')" "is_word (ascii ''odd'')"
  "is_word (ascii ''rtscts'')" "is_word (ascii ''xonxoff'')"
  by (simp_all add: is_word_def ascii_Cons isspace_def)

lemma parse_port_number_show:
  "parse_port_number (show_nat (unat (port :: u8))) = Some port"
proof -
  have "unat port < 256" using unsigned_less [of port] by simp
  then have "strtol (show_nat (unat port)) = Some (int (unat port), [])"
    by (intro strtol_show_nat) simp
  moreover have "int (unat port) < 256"
    using \<open>unat port < 256\<close> by linarith
  ultimately show ?thesis
    by (simp add: parse_port_number_def)
qed

lemma plugin_directives:
  assumes "wf_plugin_config c" and "mappings c = ms @ ms'"
    and "\<forall>m \<in> set (mappings c). is_word (mapping_path m)"
  shows "run_directives (c0\<lparr>mappings := ms\<rparr>)
      (map (\<lambda>m. [ascii ''plugin'', show_nat (unat (mapping_port m)), mapping_path m]) ms') =
    Inr (c0\<lparr>mappings := mappings c\<rparr>)"
  using assms(2)
proof (induction ms' arbitrary: ms)
  case Nil
  then show ?case by simp
next
  case (Cons m ms')
  from assms(1) have part: "wf_plugin_config (c\<lparr>mappings := ms\<rparr>)"
    and port: "is_valid_assignable_server_port (mapping_port m)"
    and path: "length (mapping_path m) < server_plugin_path_max"
    and fresh: "mapping_port m \<notin> mapping_port ` set ms"
    unfolding wf_plugin_config_def Cons.prems by auto
  have "length ms < server_plugin_mapping_max"
    using mapping_table_has_room [OF part port] fresh by (simp add: find_plugin_mapping_None)
  moreover have "is_word (mapping_path m)"
    using assms(3) by (simp add: Cons.prems)
  moreover have "find_plugin_mapping (c0\<lparr>mappings := ms\<rparr>) (mapping_port m) = None"
    using fresh by (simp add: find_plugin_mapping_None)
  ultimately have "directive (c0\<lparr>mappings := ms\<rparr>)
      [ascii ''plugin'', show_nat (unat (mapping_port m)), mapping_path m] =
    Inr (c0\<lparr>mappings := ms @ [m]\<rparr>)"
    using port path
    by (simp add: directive_plugin is_word_show_nat parse_plugin_line_def parse_port_number_show
        copy_plugin_path_def)
  then show ?case
    using Cons.IH [of "ms @ [m]"] Cons.prems by simp
qed

lemma sint_of_word_of_int: "sint (word_of_int x :: 32 word) = signed_take_bit 31 x"
  by (transfer; simp)

lemma scalar_directives:
  assumes c: "expressible c"
  shows "run_directives c0
     [[ascii ''serial_baud'', show_nat (nat (serial_baud c))],
      [ascii ''serial_databits'', if serial_databits c = 7 then ascii ''7'' else ascii ''8''],
      [ascii ''serial_parity'', if serial_parity c = 0 then ascii ''none''
         else if serial_parity c = 1 then ascii ''even'' else ascii ''odd''],
      [ascii ''serial_stopbits'', if serial_stopbits c = 2 then ascii ''2'' else ascii ''1''],
      [ascii ''serial_flow'', if serial_flow c = 0 then ascii ''none''
         else if serial_flow c = 1 then ascii ''rtscts'' else ascii ''xonxoff''],
      [ascii ''squid_payload'', show_nat (nat (squid_payload c))]] =
    Inr (c0\<lparr>serial_baud := serial_baud c, serial_databits := serial_databits c,
      serial_parity := serial_parity c, serial_stopbits := serial_stopbits c,
      serial_flow := serial_flow c, squid_payload := squid_payload c\<rparr>)"
proof -
  have wf: "wf_plugin_config c" and baud: "0 < serial_baud c" "serial_baud c < 2 ^ 31"
    using c by (simp_all add: expressible_def)
  have baud_line: "parse_serial_baud_line c1 (Some (show_nat (nat (serial_baud c)))) None =
      Inr (c1\<lparr>serial_baud := serial_baud c\<rparr>)" for c1
  proof -
    have "strtol (show_nat (nat (serial_baud c))) = Some (serial_baud c, [])"
      using strtol_show_nat [of "nat (serial_baud c)"] baud by simp
    moreover have "int_of_long (serial_baud c) = serial_baud c"
      using baud by (simp add: int_of_long_def signed_take_bit_int_eq_self
          sint_of_word_of_int)
    ultimately show ?thesis
      using baud by (simp add: parse_serial_baud_line_def)
  qed
  have payload_line: "parse_squid_payload_line c1 (Some (show_nat (nat (squid_payload c)))) None =
      Inr (c1\<lparr>squid_payload := squid_payload c\<rparr>)" for c1
  proof -
    have range: "16 \<le> squid_payload c" "squid_payload c \<le> 112"
      using wf by (simp_all add: wf_plugin_config_def)
    have u: "uint (word_of_int (squid_payload c) :: u8) = squid_payload c"
      using range by (simp add: uint_word_of_int_eq take_bit_int_eq_self)
    have "parse_port_number (show_nat (nat (squid_payload c))) =
        Some (word_of_int (squid_payload c))"
      using strtol_show_nat [of "nat (squid_payload c)"] range
      by (simp add: parse_port_number_def)
    moreover have "16 \<le> (word_of_int (squid_payload c) :: u8)"
      and "(word_of_int (squid_payload c) :: u8) \<le> 112"
      using range by (simp_all only: word_le_def u) simp_all
    ultimately show ?thesis
      using u by (simp add: parse_squid_payload_line_def server_squid_payload_min_def
          server_squid_payload_max_def not_less)
  qed
  have "serial_databits c \<in> {7, 8}" "serial_parity c \<in> {0, 1, 2}" "serial_stopbits c \<in> {1, 2}"
    "serial_flow c \<in> {0, 1, 2}"
    using wf by (simp_all add: wf_plugin_config_def)
  then have lines:
    "parse_serial_databits_line c1 (Some (if serial_databits c = 7 then ascii ''7'' else ascii ''8''))
       None = Inr (c1\<lparr>serial_databits := serial_databits c\<rparr>)"
    "parse_serial_parity_line c1 (Some (if serial_parity c = 0 then ascii ''none''
       else if serial_parity c = 1 then ascii ''even'' else ascii ''odd'')) None =
         Inr (c1\<lparr>serial_parity := serial_parity c\<rparr>)"
    "parse_serial_stopbits_line c1 (Some (if serial_stopbits c = 2 then ascii ''2'' else ascii ''1''))
       None = Inr (c1\<lparr>serial_stopbits := serial_stopbits c\<rparr>)"
    "parse_serial_flow_line c1 (Some (if serial_flow c = 0 then ascii ''none''
       else if serial_flow c = 1 then ascii ''rtscts'' else ascii ''xonxoff'')) None =
         Inr (c1\<lparr>serial_flow := serial_flow c\<rparr>)" for c1
    by (auto simp: parse_serial_databits_line_def parse_serial_parity_line_def
        parse_serial_stopbits_line_def parse_serial_flow_line_def)
  have words:
    "is_word (if serial_databits c = 7 then ascii ''7'' else ascii ''8'')"
    "is_word (if serial_parity c = 0 then ascii ''none''
       else if serial_parity c = 1 then ascii ''even'' else ascii ''odd'')"
    "is_word (if serial_stopbits c = 2 then ascii ''2'' else ascii ''1'')"
    "is_word (if serial_flow c = 0 then ascii ''none''
       else if serial_flow c = 1 then ascii ''rtscts'' else ascii ''xonxoff'')"
    by (simp_all add: value_words)
  show ?thesis
    by (simp only: run_directives.simps directive_values(3-) [OF is_word_show_nat]
        directive_values(3-) [OF words(1)] directive_values(3-) [OF words(2)]
        directive_values(3-) [OF words(3)] directive_values(3-) [OF words(4)]
        lines baud_line payload_line sum.case)
qed

lemma config_lines_short:
  assumes "expressible c"
  shows "\<forall>ws \<in> set (config_words c). short_line ws"
proof -
  have port: "length (show_nat (unat (port :: u8))) \<le> 3" for port
    by (rule length_show_nat) (use unat_u8 [of port] in simp_all)
  have baud: "length (show_nat (nat (serial_baud c))) \<le> 10"
    by (rule length_show_nat) (use assms in \<open>auto simp: expressible_def nat_less_iff\<close>)
  have payload: "length (show_nat (nat (squid_payload c))) \<le> 3"
    by (rule length_show_nat) (use assms in \<open>simp_all add: expressible_def wf_plugin_config_def nat_less_iff\<close>)
  have "length (system_plugin_path c) < 512" "is_word (system_plugin_path c)"
    "\<forall>m \<in> set (mappings c). is_word (mapping_path m) \<and> length (mapping_path m) < 512"
    "length (serial_device c) < 64" "serial_device c \<noteq> [] \<longrightarrow> is_word (serial_device c)"
    using assms by (simp_all add: expressible_def wf_plugin_config_def server_plugin_path_max_def
        server_serial_device_path_max_def disj_imp)
  moreover have "length (show_nat (unat (mapping_port m))) + length (mapping_path m) < 1015"
    if "m \<in> set (mappings c)" for m
    using that calculation(3) port [of "mapping_port m"] by fastforce
  ultimately show ?thesis
    using baud payload
    by (auto simp: config_words_def short_line_def is_word_show_nat keyword_words value_words
        intro: le_less_trans)
qed

lemma device_directive:
  assumes "expressible c"
  shows "run_directives (c0\<lparr>serial_device := []\<rparr>)
      (if serial_device c = [] then [] else [[ascii ''serial_device'', serial_device c]]) =
    Inr (c0\<lparr>serial_device := serial_device c\<rparr>)"
  using assms
  by (cases "serial_device c = []")
     (simp_all add: directive_values parse_serial_device_line_def expressible_def
       wf_plugin_config_def)

lemma system_directive:
  "expressible c \<Longrightarrow> directive c0 [ascii ''system_plugin'', system_plugin_path c] =
     Inr (c0\<lparr>system_plugin_path := system_plugin_path c\<rparr>)"
  by (simp add: directive_values parse_system_plugin_line_def copy_plugin_path_def
      expressible_def wf_plugin_config_def)

lemma run_config_words:
  assumes "expressible c"
  shows "run_directives init_server_plugin_config_file (config_words c) = Inr c"
proof -
  have "wf_plugin_config c" and "\<forall>m \<in> set (mappings c). is_word (mapping_path m)"
    using assms by (simp_all add: expressible_def)
  note plugins = plugin_directives [OF this(1) append_Nil [symmetric] this(2)]
  let ?c1 = "init_server_plugin_config_file\<lparr>system_plugin_path := system_plugin_path c\<rparr>"
  let ?c2 = "?c1\<lparr>mappings := mappings c\<rparr>"
  let ?c3 = "?c2\<lparr>serial_device := serial_device c\<rparr>"
  have c1: "?c1 = ?c1\<lparr>mappings := []\<rparr>" and c2: "?c2 = ?c2\<lparr>serial_device := []\<rparr>"
    by (simp_all add: init_server_plugin_config_file_def)
  have "run_directives init_server_plugin_config_file
      [[ascii ''system_plugin'', system_plugin_path c]] = Inr ?c1"
    by (simp add: system_directive [OF assms])
  moreover have "run_directives ?c1 (map (\<lambda>m. [ascii ''plugin'',
      show_nat (unat (mapping_port m)), mapping_path m]) (mappings c)) = Inr ?c2"
    using plugins [of ?c1] c1 by simp
  moreover have "run_directives ?c2 (if serial_device c = [] then []
      else [[ascii ''serial_device'', serial_device c]]) = Inr ?c3"
    using device_directive [OF assms, of ?c2] c2 by simp
  moreover note scalar_directives [OF assms, of ?c3]
  ultimately show ?thesis
    by (simp only: config_words_def run_directives_append sum.case)
       (simp add: init_server_plugin_config_file_def)
qed

lemma parse_render_config:
  "expressible c \<Longrightarrow>
     parse_config_lines init_server_plugin_config_file (render_config c) = Inr c"
  by (simp add: render_config_def parse_rendered_lines config_lines_short run_config_words)

subsection \<open>Properties\<close>

text \<open>
  C26. Configuration round trip. Every configuration that the file format can express, written out
  in the format, is read back unchanged by the parser: the plugin mappings in their order, the
  system plugin, the serial settings and the payload size.
\<close>

theorem config_round_trip:
  assumes "expressible c"
  shows "parse_server_plugin_config_file (\<lambda>_. Some (render_config c)) (Some path) = Inr c"
  using parse_render_config [OF assms] by (simp add: parse_server_plugin_config_file_def)

theorem config_round_trip_witness:
  "let c = init_server_plugin_config_file
       \<lparr>mappings := [\<lparr>mapping_port = 3, mapping_path = ascii ''/a.so''\<rparr>], serial_baud := 115200\<rparr>
   in expressible c \<and>
     parse_server_plugin_config_file (\<lambda>_. Some (render_config c)) (Some []) = Inr c"
proof -
  have "is_word (ascii ''/a.so'')" "is_word server_default_system_plugin_path"
    by code_simp+
  then have "expressible (init_server_plugin_config_file
      \<lparr>mappings := [\<lparr>mapping_port = 3, mapping_path = ascii ''/a.so''\<rparr>], serial_baud := 115200\<rparr>)"
    using wf_init
    by (simp add: expressible_def wf_plugin_config_def init_server_plugin_config_file_def
        is_valid_assignable_server_port_def server_plugin_path_max_def)
  then show ?thesis
    using config_round_trip [of _ "[]"] by (simp add: Let_def)
qed

text \<open>
  Whatever a configuration file contains, an accepted configuration is well formed: at most
  one plugin per port, all ports assignable, every path fits its buffer, the serial parameters
  and the payload size are in range.
\<close>

theorem parsed_config_well_formed:
  assumes "parse_server_plugin_config_file fopen path = Inr c"
  shows "wf_plugin_config c"
  using assms parse_config_lines_wf [OF wf_init]
  by (auto simp: parse_server_plugin_config_file_def split: option.splits)

theorem parsed_config_well_formed_witness:
  "parse_server_plugin_config_file (\<lambda>_. Some []) (Some []) = Inr init_server_plugin_config_file \<and>
   wf_plugin_config init_server_plugin_config_file"
proof -
  have "parse_server_plugin_config_file (\<lambda>_. Some []) (Some []) = Inr init_server_plugin_config_file"
    by (simp add: parse_server_plugin_config_file_def parse_config_lines.simps)
  with parsed_config_well_formed [OF this] show ?thesis by simp
qed

lemma fgets_full: "length l = n \<Longrightarrow> 10 \<notin> set l \<Longrightarrow> fgets n (l @ rest) = (l, rest)"
proof (induction l arbitrary: n)
  case Nil
  then show ?case by (cases rest) auto
next
  case (Cons c l)
  then show ?case by (cases n) auto
qed

text \<open>
  C34. A comment longer than the line buffer does not end at its newline: the bytes after the
  first 1023 are read as a line of their own, and a directive hidden there takes effect.
\<close>

theorem long_comment_tail_is_parsed:
  assumes "length comment = 1022" and "10 \<notin> set comment" and "0 \<notin> set comment"
  shows "parse_config_lines c ((35 # comment) @ tail) = parse_config_lines c tail"
proof -
  have line: "fgets (line_buffer_size - 1) ((35 # comment) @ tail) = (35 # comment, tail)"
    by (rule fgets_full) (use assms in \<open>auto simp: line_buffer_size_def\<close>)
  have "trim_left (trim_right (35 # comment)) = 35 # rev (dropWhile isspace (rev comment))"
    by (simp add: trim_left_def trim_right_def isspace_def dropWhile_append)
  moreover have "c_string (35 # comment) = 35 # comment"
    using assms by (intro c_string_id) (auto simp: is_c_string_def)
  ultimately have "parse_config_line c (35 # comment) = Inr c"
    by (simp add: parse_config_line_def Let_def)
  then show ?thesis
    by (subst parse_config_lines.simps) (simp add: line [simplified One_nat_def] del: append_Cons)
qed

theorem long_comment_tail_is_parsed_witness:
  "parse_config_lines init_server_plugin_config_file ((35 # replicate 1022 120) @ [10]) =
     parse_config_lines init_server_plugin_config_file [10]"
  by (rule long_comment_tail_is_parsed) simp_all

text \<open>
  The check on the baud rate is made before the value is narrowed to \<open>int\<close>: a rate beyond
  the range of \<open>int\<close> passes it and is stored as a different, possibly negative, number.
\<close>

theorem serial_baud_is_narrowed:
  "parse_serial_baud_line config (Some (show_nat 4294967295)) None =
     Inr (config\<lparr>serial_baud := -1\<rparr>)"
  by (simp add: parse_serial_baud_line_def strtol_show_nat int_of_long_def)

end
