(* ===== verification/Runtime.thy ===== *)
theory Runtime
  imports Server_Config
begin

text \<open>
  The server core of \<open>src/runtime/server_runtime.c\<close>: one libsquid socket per plugin port,
  reassembly of length-prefixed packets from the byte stream of a port, dispatch to the
  plugin, framing and retransmission of responses, and the loop that moves between
  handshake and connected operation.

  libsquid, the transport's readiness wait, the plugins' packet handlers and the arrival of
  signals are the oracle \<open>rt_api\<close>. Two documented facts are built into the calls: \<open>squid_recv\<close>
  never delivers more than the bytes asked for, and a handler writes inside the 255 byte
  response buffer it was given. Arrays indexed by port are functions of the port. The texts
  given to the log are the constructors of \<open>log_text\<close>, with the values their format strings
  print.
\<close>

definition server_packet_max :: nat where "server_packet_max = 255"
definition server_squid_queue_capacity :: nat where
  "server_squid_queue_capacity = server_packet_max + 1"

lemmas packet_constants [simp] = server_packet_max_def server_squid_queue_capacity_def

datatype log_text =
    Squid_Open_Failed u8 \<comment> \<open>squid_open failed for port \<open>%u\<close>\<close>
  | Squid_Bind_Failed u8 \<comment> \<open>squid_bind failed for port \<open>%u\<close>\<close>
  | Zero_Length_Packet \<comment> \<open>invalid zero-length squid packet\<close>
  | Invalid_Response "bytes option" u8 \<comment> \<open>plugin \<open>%s\<close> on port \<open>%u\<close> returned an invalid response\<close>
  | Wait_Failed errno \<comment> \<open>transport readiness wait failed\<close>
  | Link_Established \<comment> \<open>squid link established\<close>
  | Link_Lost \<comment> \<open>squid link lost; waiting for a new handshake\<close>

text \<open>What \<open>handle_packet\<close> leaves behind: its return value and the response descriptor.\<close>

record plugin_reply =
  reply_ret :: int
  reply_moved :: bool \<comment> \<open>\<open>response.packet_data\<close> no longer points at the runtime's buffer\<close>
  reply_size :: nat
  reply_byte :: "nat \<Rightarrow> u8" \<comment> \<open>contents of the response buffer\<close>

definition reply_buffer :: "plugin_reply \<Rightarrow> bytes" where
  "reply_buffer r = map (reply_byte r) [0..<server_packet_max]"

datatype rt_event =
    Squid_Open nat nat int
  | Squid_Bind int u8 int
  | Squid_Close int
  | Recv u8 int nat "bytes option"
  | Send u8 int bytes bool
  | Handle u8 server_plugin bytes plugin_reply
  | Burst
  | Link_Up bool
  | Wait "errno + int"
  | Signal bool
  | Log log_level log_text

record rt_api =
  squid_open :: "rt_event list \<Rightarrow> nat \<Rightarrow> nat \<Rightarrow> int"
  squid_bind :: "rt_event list \<Rightarrow> int \<Rightarrow> u8 \<Rightarrow> int"
  squid_recv :: "rt_event list \<Rightarrow> int \<Rightarrow> nat \<Rightarrow> bytes option"
  squid_send :: "rt_event list \<Rightarrow> int \<Rightarrow> bytes \<Rightarrow> bool"
  snet_link_is_up :: "rt_event list \<Rightarrow> bool"
  transport_wait :: "rt_event list \<Rightarrow> errno + int"
  signal_arrived :: "rt_event list \<Rightarrow> bool"
  run_handler :: "rt_event list \<Rightarrow> server_plugin \<Rightarrow> u8 \<Rightarrow> bytes \<Rightarrow> plugin_reply"

subsection \<open>State\<close>

record server_runtime =
  plugin_registry :: plugin_registry
  squid_fds :: "u8 \<Rightarrow> int"
  request_packets :: "u8 \<Rightarrow> bytes"
  request_packet_sizes :: "u8 \<Rightarrow> nat"
  request_packet_expected :: "u8 \<Rightarrow> nat"
  pending_responses :: "u8 \<Rightarrow> bytes"
  pending_response_sizes :: "u8 \<Rightarrow> nat"
  keep_running :: bool

text \<open>\<open>init_server_runtime\<close>: everything zero, every socket closed.\<close>

definition init_server_runtime :: server_runtime where
  "init_server_runtime =
     \<lparr>plugin_registry = init_server_plugin_registry, squid_fds = (\<lambda>_. -1),
      request_packets = (\<lambda>_. replicate server_packet_max 0),
      request_packet_sizes = (\<lambda>_. 0), request_packet_expected = (\<lambda>_. 0),
      pending_responses = (\<lambda>_. replicate server_squid_queue_capacity 0),
      pending_response_sizes = (\<lambda>_. 0), keep_running = True\<rparr>"

text \<open>The ports of \<open>for (port = server_plugin_port_min; port <= server_plugin_port_max; ++port)\<close>.\<close>

definition plugin_ports :: "u8 list" where
  "plugin_ports = map of_nat [1..<16]"

subsection \<open>Calls\<close>

definition log_message :: "log_level \<Rightarrow> log_text \<Rightarrow> (rt_event, unit) io" where
  "log_message level text = query (\<lambda>_. ()) (\<lambda>_. Log level text)"

definition call_recv :: "rt_api \<Rightarrow> u8 \<Rightarrow> int \<Rightarrow> nat \<Rightarrow> (rt_event, bytes option) io" where
  "call_recv api port fd n =
     query (\<lambda>h. map_option (take n) (squid_recv api h fd n)) (Recv port fd n)"

definition call_send :: "rt_api \<Rightarrow> u8 \<Rightarrow> int \<Rightarrow> bytes \<Rightarrow> (rt_event, bool) io" where
  "call_send api port fd frame = query (\<lambda>h. squid_send api h fd frame) (Send port fd frame)"

definition call_handler ::
  "rt_api \<Rightarrow> server_plugin \<Rightarrow> u8 \<Rightarrow> bytes \<Rightarrow> (rt_event, plugin_reply) io" where
  "call_handler api p port request =
     query (\<lambda>h. run_handler api h p port request) (Handle port p request)"

definition call_burst :: "(rt_event, unit) io" where
  "call_burst = query (\<lambda>_. ()) (\<lambda>_. Burst)"

definition call_link_is_up :: "rt_api \<Rightarrow> (rt_event, bool) io" where
  "call_link_is_up api = query (snet_link_is_up api) Link_Up"

definition call_close :: "int \<Rightarrow> (rt_event, unit) io" where
  "call_close fd = query (\<lambda>_. ()) (\<lambda>_. Squid_Close fd)"

lemmas rt_calls = log_message_def call_recv_def call_send_def call_handler_def call_burst_def
  call_link_is_up_def call_close_def

subsection \<open>Sockets\<close>

definition open_plugin_socket ::
  "rt_api \<Rightarrow> server_runtime \<Rightarrow> u8 \<Rightarrow> (rt_event, server_runtime) io" where
  "open_plugin_socket api rt port =
     (if find_server_plugin (plugin_registry rt) port = None then State_Monad.return rt
      else do {
        fd \<leftarrow> query (\<lambda>h. squid_open api h server_squid_queue_capacity server_squid_queue_capacity)
          (Squid_Open server_squid_queue_capacity server_squid_queue_capacity);
        if fd < 0 then do {
          _ \<leftarrow> log_message server_log_level_warning (Squid_Open_Failed port);
          State_Monad.return (rt\<lparr>squid_fds := (squid_fds rt)(port := fd)\<rparr>) }
        else do {
          bound \<leftarrow> query (\<lambda>h. squid_bind api h fd port) (Squid_Bind fd port);
          if bound \<noteq> 0 then do {
            _ \<leftarrow> log_message server_log_level_warning (Squid_Bind_Failed port);
            _ \<leftarrow> call_close fd;
            State_Monad.return (rt\<lparr>squid_fds := (squid_fds rt)(port := -1)\<rparr>) }
          else State_Monad.return (rt\<lparr>squid_fds := (squid_fds rt)(port := fd)\<rparr>) } })"

fun open_sockets :: "rt_api \<Rightarrow> server_runtime \<Rightarrow> u8 list \<Rightarrow> (rt_event, server_runtime) io" where
  "open_sockets api rt [] = State_Monad.return rt"
| "open_sockets api rt (port # ports) = do {
     rt' \<leftarrow> open_plugin_socket api rt port;
     open_sockets api rt' ports }"

definition open_plugin_sockets ::
  "rt_api \<Rightarrow> server_runtime \<Rightarrow> (rt_event, server_runtime) io" where
  "open_plugin_sockets api rt = open_sockets api rt plugin_ports"

fun close_sockets :: "server_runtime \<Rightarrow> u8 list \<Rightarrow> (rt_event, server_runtime) io" where
  "close_sockets rt [] = State_Monad.return rt"
| "close_sockets rt (port # ports) =
     (if squid_fds rt port \<ge> 0 then do {
        _ \<leftarrow> call_close (squid_fds rt port);
        close_sockets (rt\<lparr>squid_fds := (squid_fds rt)(port := -1)\<rparr>) ports }
      else close_sockets rt ports)"

definition close_plugin_sockets :: "server_runtime \<Rightarrow> (rt_event, server_runtime) io" where
  "close_plugin_sockets rt = close_sockets rt plugin_ports"

subsection \<open>Receiving one packet\<close>

text \<open>
  The header phase of \<open>receive_plugin_packet\<close>: \<open>Inl r\<close> is an early return of \<open>r\<close>.
\<close>

definition receive_header ::
  "rt_api \<Rightarrow> server_runtime \<Rightarrow> u8 \<Rightarrow> (rt_event, int + server_runtime) io" where
  "receive_header api rt port =
     (if request_packet_expected rt port = 0 then do {
        received \<leftarrow> call_recv api port (squid_fds rt port) 1;
        case received of
          None \<Rightarrow> State_Monad.return (Inl (-1))
        | Some data \<Rightarrow>
            (case data of
               [] \<Rightarrow> State_Monad.return (Inl 0)
             | wire_size # _ \<Rightarrow>
                 (if wire_size = 0 then do {
                    _ \<leftarrow> log_message server_log_level_warning Zero_Length_Packet;
                    State_Monad.return (Inl (-1)) }
                  else State_Monad.return (Inr (rt\<lparr>
                    request_packet_expected := (request_packet_expected rt)(port := unat wire_size),
                    request_packet_sizes := (request_packet_sizes rt)(port := 0)\<rparr>)))) }
      else State_Monad.return (Inr rt))"

text \<open>The body phase, and the result.\<close>

definition receive_body ::
  "rt_api \<Rightarrow> server_runtime \<Rightarrow> u8 \<Rightarrow> (rt_event, int \<times> server_runtime) io" where
  "receive_body api rt port =
     (let size = request_packet_sizes rt port; expected = request_packet_expected rt port in
      if size < expected then do {
        received \<leftarrow> call_recv api port (squid_fds rt port) (expected - size);
        case received of
          None \<Rightarrow> State_Monad.return (-1, rt)
        | Some data \<Rightarrow>
            (let size' = size + length data in
             State_Monad.return (if size' = expected then 1 else 0,
               rt\<lparr>request_packets := (request_packets rt)
                    (port := buf_write (request_packets rt port) size data),
                  request_packet_sizes := (request_packet_sizes rt)(port := size')\<rparr>)) }
      else State_Monad.return (if size = expected then 1 else 0, rt))"

definition receive_plugin_packet ::
  "rt_api \<Rightarrow> server_runtime \<Rightarrow> u8 \<Rightarrow> (rt_event, int \<times> server_runtime) io" where
  "receive_plugin_packet api rt port = do {
     header \<leftarrow> receive_header api rt port;
     case header of
       Inl r \<Rightarrow> State_Monad.return (r, rt)
     | Inr rt' \<Rightarrow> receive_body api rt' port }"

subsection \<open>Dispatch\<close>

text \<open>The \<open>handle_packet\<close> call and what the runtime makes of the response.\<close>

definition handle_request ::
  "rt_api \<Rightarrow> server_runtime \<Rightarrow> u8 \<Rightarrow> server_plugin \<Rightarrow> (rt_event, server_runtime) io" where
  "handle_request api rt port p = do {
     reply \<leftarrow> call_handler api p port
       (take (request_packet_sizes rt port) (request_packets rt port));
     rt1 \<leftarrow> (let rt0 = rt\<lparr>pending_responses := (pending_responses rt)
               (port := buf_write (pending_responses rt port) 1 (reply_buffer reply))\<rparr> in
       if reply_ret reply = 0 then
         (if reply_size reply > 0 \<and> (reply_moved reply \<or> reply_size reply > server_packet_max)
          then do {
            _ \<leftarrow> log_message server_log_level_warning (Invalid_Response (plugin_name p) port);
            State_Monad.return rt0 }
          else if reply_size reply > 0 then
            (let framed_size = reply_size reply + 1;
                 buffer = buf_write (pending_responses rt0 port) 0 [of_nat (reply_size reply)];
                 rt' = rt0\<lparr>pending_responses := (pending_responses rt0)(port := buffer)\<rparr>
             in do {
               sent \<leftarrow> call_send api port (squid_fds rt port) (take framed_size buffer);
               State_Monad.return (rt'\<lparr>pending_response_sizes :=
                 (pending_response_sizes rt')(port := if sent then 0 else framed_size)\<rparr>) })
          else State_Monad.return rt0)
       else State_Monad.return rt0);
     State_Monad.return (rt1\<lparr>
       request_packet_sizes := (request_packet_sizes rt1)(port := 0),
       request_packet_expected := (request_packet_expected rt1)(port := 0)\<rparr>) }"

text \<open>One iteration of the loop of \<open>dispatch_received_packets\<close>; \<open>continue\<close> returns the state.\<close>

definition flush_pending ::
  "rt_api \<Rightarrow> server_runtime \<Rightarrow> u8 \<Rightarrow> (rt_event, server_runtime option) io" where
  "flush_pending api rt port =
     (if pending_response_sizes rt port > 0 then do {
        sent \<leftarrow> call_send api port (squid_fds rt port)
          (take (pending_response_sizes rt port) (pending_responses rt port));
        State_Monad.return (if sent
          then Some (rt\<lparr>pending_response_sizes := (pending_response_sizes rt)(port := 0)\<rparr>)
          else None) }
      else State_Monad.return (Some rt))"

text \<open>The \<open>if\<close> after \<open>packet_ready\<close>: \<open>ready\<close> is the result of \<open>receive_plugin_packet\<close>.\<close>

definition handle_ready ::
  "rt_api \<Rightarrow> u8 \<Rightarrow> int \<times> server_runtime \<Rightarrow> (rt_event, server_runtime) io" where
  "handle_ready api port ready =
     (case ready of (packet_ready, rt) \<Rightarrow>
        if packet_ready \<le> 0 then State_Monad.return rt
        else case find_server_plugin (plugin_registry rt) port of
          None \<Rightarrow> State_Monad.return rt
        | Some p \<Rightarrow>
            (if handle_packet p = None then State_Monad.return rt
             else handle_request api rt port p))"

definition dispatch_port ::
  "rt_api \<Rightarrow> server_runtime \<Rightarrow> u8 \<Rightarrow> (rt_event, server_runtime) io" where
  "dispatch_port api rt port =
     (if squid_fds rt port < 0 then State_Monad.return rt
      else do {
        flushed \<leftarrow> flush_pending api rt port;
        case flushed of
          None \<Rightarrow> State_Monad.return rt
        | Some rt1 \<Rightarrow> do {
            ready \<leftarrow> receive_plugin_packet api rt1 port;
            handle_ready api port ready } })"

fun dispatch_ports :: "rt_api \<Rightarrow> server_runtime \<Rightarrow> u8 list \<Rightarrow> (rt_event, server_runtime) io" where
  "dispatch_ports api rt [] = State_Monad.return rt"
| "dispatch_ports api rt (port # ports) = do {
     rt' \<leftarrow> dispatch_port api rt port;
     dispatch_ports api rt' ports }"

definition dispatch_received_packets ::
  "rt_api \<Rightarrow> server_runtime \<Rightarrow> (rt_event, server_runtime) io" where
  "dispatch_received_packets api rt = dispatch_ports api rt plugin_ports"

subsection \<open>The dispatch loop\<close>

definition wait_for_transport ::
  "rt_api \<Rightarrow> server_runtime \<Rightarrow> (rt_event, server_runtime) io" where
  "wait_for_transport api rt = do {
     result \<leftarrow> syscall (transport_wait api) Wait;
     case result of
       None \<Rightarrow> do {
         e \<leftarrow> get_errno;
         _ \<leftarrow> log_message server_log_level_error (Wait_Failed e);
         State_Monad.return (rt\<lparr>keep_running := False\<rparr>) }
     | Some _ \<Rightarrow> State_Monad.return rt }"

text \<open>
  A read of \<open>keep_running\<close>: a termination signal may have cleared it since the last read.
\<close>

definition read_keep_running ::
  "rt_api \<Rightarrow> server_runtime \<Rightarrow> (rt_event, bool \<times> server_runtime) io" where
  "read_keep_running api rt = do {
     signal \<leftarrow> query (signal_arrived api) Signal;
     State_Monad.return (keep_running rt \<and> \<not> signal,
       rt\<lparr>keep_running := keep_running rt \<and> \<not> signal\<rparr>) }"

definition reset_port_state :: "server_runtime \<Rightarrow> server_runtime" where
  "reset_port_state rt = rt\<lparr>
     request_packet_sizes := (\<lambda>p. if p \<in> set plugin_ports then 0 else request_packet_sizes rt p),
     request_packet_expected := (\<lambda>p. if p \<in> set plugin_ports then 0 else request_packet_expected rt p),
     pending_response_sizes := (\<lambda>p. if p \<in> set plugin_ports then 0 else pending_response_sizes rt p)\<rparr>"

text \<open>The body of the connected loop.\<close>

definition connected_pass :: "rt_api \<Rightarrow> server_runtime \<Rightarrow> (rt_event, server_runtime) io" where
  "connected_pass api rt = do {
     _ \<leftarrow> call_burst;
     rt \<leftarrow> dispatch_received_packets api rt;
     _ \<leftarrow> call_burst;
     wait_for_transport api rt }"

text \<open>
  \<open>run_dispatch_loop\<close> as a step function. \<open>Outer\<close> is the test of the outer loop, \<open>Handshake\<close>
  and \<open>Connected\<close> the tests and bodies of the two inner loops, \<open>Exited\<close> the return.
\<close>

datatype loop_pc = Outer | Handshake | Connected | Exited

definition loop_step ::
  "rt_api \<Rightarrow> loop_pc \<Rightarrow> server_runtime \<Rightarrow> (rt_event, loop_pc \<times> server_runtime) io" where
  "loop_step api pc rt =
     (case pc of
        Outer \<Rightarrow> do {
          (running, rt) \<leftarrow> read_keep_running api rt;
          State_Monad.return (if running then Handshake else Exited, rt) }
      | Handshake \<Rightarrow> do {
          (running, rt) \<leftarrow> read_keep_running api rt;
          if \<not> running then State_Monad.return (Exited, rt)
          else do {
            up \<leftarrow> call_link_is_up api;
            if \<not> up then do {
              _ \<leftarrow> call_burst;
              rt \<leftarrow> wait_for_transport api rt;
              State_Monad.return (Handshake, rt) }
            else do {
              (running, rt) \<leftarrow> read_keep_running api rt;
              if \<not> running then State_Monad.return (Exited, rt)
              else do {
                _ \<leftarrow> log_message server_log_level_info Link_Established;
                State_Monad.return (Connected, rt) } } } }
      | Connected \<Rightarrow> do {
          (running, rt) \<leftarrow> read_keep_running api rt;
          up \<leftarrow> (if running then call_link_is_up api else State_Monad.return False);
          if running \<and> up then do {
            rt \<leftarrow> connected_pass api rt;
            State_Monad.return (Connected, rt) }
          else do {
            still_up \<leftarrow> call_link_is_up api;
            if \<not> still_up then do {
              _ \<leftarrow> log_message server_log_level_info Link_Lost;
              State_Monad.return (Outer, reset_port_state rt) }
            else State_Monad.return (Outer, rt) } }
      | Exited \<Rightarrow> State_Monad.return (Exited, rt))"

fun run_dispatch_loop ::
  "rt_api \<Rightarrow> nat \<Rightarrow> loop_pc \<Rightarrow> server_runtime \<Rightarrow> (rt_event, server_runtime option) io" where
  "run_dispatch_loop api fuel Exited rt = State_Monad.return (Some rt)"
| "run_dispatch_loop api 0 pc rt = State_Monad.return None"
| "run_dispatch_loop api (Suc fuel) pc rt = do {
     (pc', rt') \<leftarrow> loop_step api pc rt;
     run_dispatch_loop api fuel pc' rt' }"

text \<open>The part of \<open>run_server_runtime\<close> between \<open>snet_init\<close> and the closing of the transport.\<close>

definition serve :: "rt_api \<Rightarrow> nat \<Rightarrow> server_runtime \<Rightarrow> (rt_event, server_runtime option) io" where
  "serve api fuel rt = do {
     rt \<leftarrow> open_plugin_sockets api rt;
     result \<leftarrow> run_dispatch_loop api fuel Outer rt;
     case result of
       None \<Rightarrow> State_Monad.return None
     | Some rt \<Rightarrow> do {
         rt \<leftarrow> close_plugin_sockets rt;
         State_Monad.return (Some rt) } }"

end
