(* ===== verification/Runtime_Streams.thy ===== *)
theory Runtime_Streams
  imports Runtime
begin

text \<open>
  What the dispatch code of \<open>server_runtime.c\<close> does to the byte streams of a port. The
  specification is \<open>deframe\<close>, which cuts a byte stream into length-prefixed packets; the
  implementation reads one header byte, then pieces of a body, across many dispatch passes.
  The refinement is \<open>port_streams\<close>: over any sequence of steps of a session, what the plugin
  is handed is exactly what \<open>deframe\<close> makes of the bytes received, and what libsquid accepts
  for sending, followed by what is still pending, is exactly the framed responses.
\<close>

subsection \<open>Framing\<close>

definition frame :: "bytes \<Rightarrow> bytes" where
  "frame packet = of_nat (length packet) # packet"

function deframe :: "bytes \<Rightarrow> bytes list \<times> bytes" where
  "deframe [] = ([], [])"
| "deframe (n # rest) =
     (if n = 0 then deframe rest
      else if length rest < unat n then ([], n # rest)
      else let (packets, tail) = deframe (drop (unat n) rest)
           in (take (unat n) rest # packets, tail))"
  by pat_completeness auto
termination by (relation "measure length") auto

lemma unat_u8_pos: "(n :: u8) \<noteq> 0 \<Longrightarrow> 0 < unat n"
  by (simp add: unat_gt_0)

lemma deframe_incomplete:
  "n \<noteq> 0 \<Longrightarrow> length rest < unat n \<Longrightarrow> deframe (n # rest) = ([], n # rest)"
  by simp

lemma deframe_complete:
  "n \<noteq> 0 \<Longrightarrow> length body = unat n \<Longrightarrow>
     deframe (n # body @ rest) = (body # fst (deframe rest), snd (deframe rest))"
  by (simp add: split_beta Let_def)

lemma deframe_append:
  "deframe (xs @ ys) =
     (fst (deframe xs) @ fst (deframe (snd (deframe xs) @ ys)),
      snd (deframe (snd (deframe xs) @ ys)))"
proof (induction xs rule: deframe.induct)
  case 1
  then show ?case by simp
next
  case (2 n rest)
  show ?case
  proof (cases "n = 0 \<or> length rest < unat n")
    case True
    then show ?thesis using 2 by auto
  next
    case False
    then have "unat n \<le> length rest" by simp
    then have "deframe ((n # rest) @ ys) =
        (take (unat n) rest # fst (deframe (drop (unat n) rest @ ys)),
         snd (deframe (drop (unat n) rest @ ys)))"
      using False by (simp add: Let_def split_beta)
    with False 2 show ?thesis
      by (simp add: Let_def split_beta)
  qed
qed

lemma deframe_frames:
  assumes "\<forall>p \<in> set packets. p \<noteq> [] \<and> length p \<le> 255"
  shows "deframe (concat (map frame packets) @ rest) = (packets @ fst (deframe rest), snd (deframe rest))"
  using assms
proof (induction packets)
  case (Cons p packets)
  let ?n = "of_nat (length p) :: u8"
  have n: "unat ?n = length p"
    using Cons.prems by (simp add: unat_of_nat)
  then have "?n \<noteq> 0"
    using Cons.prems by (auto simp flip: unat_gt_0)
  then show ?case
    using Cons n by (simp add: frame_def deframe_complete del: deframe.simps)
qed simp

text \<open>A decoder that is fed pieces sees the same packets however the stream is cut.\<close>

fun deframe_chunks :: "bytes \<Rightarrow> bytes list \<Rightarrow> bytes list \<times> bytes" where
  "deframe_chunks held [] = deframe held"
| "deframe_chunks held (c # cs) =
     (let (packets, held') = deframe (held @ c); (more, tail) = deframe_chunks held' cs
      in (packets @ more, tail))"

lemma deframe_chunks_concat: "deframe_chunks held cs = deframe (held @ concat cs)"
proof (induction cs arbitrary: held)
  case (Cons c cs)
  then show ?case
    using deframe_append [of "held @ c" "concat cs"] by (simp add: Let_def split_beta)
qed simp

subsection \<open>Observations on a trace\<close>

fun received_of :: "u8 \<Rightarrow> rt_event \<Rightarrow> bytes" where
  "received_of p (Recv q _ _ d) =
     (if q = p then (case d of None \<Rightarrow> [] | Some x \<Rightarrow> x) else [])"
| "received_of p _ = []"

fun requests_of :: "u8 \<Rightarrow> rt_event \<Rightarrow> bytes list" where
  "requests_of p (Handle q _ request _) = (if q = p then [request] else [])"
| "requests_of p _ = []"

text \<open>The response the runtime accepts from a handler, if any.\<close>

definition accepted_response :: "plugin_reply \<Rightarrow> bytes option" where
  "accepted_response r =
     (if reply_ret r = 0 \<and> 0 < reply_size r \<and> \<not> reply_moved r \<and> reply_size r \<le> server_packet_max
      then Some (take (reply_size r) (reply_buffer r)) else None)"

fun responses_of :: "u8 \<Rightarrow> rt_event \<Rightarrow> bytes list" where
  "responses_of p (Handle q _ _ reply) =
     (if q = p then (case accepted_response reply of None \<Rightarrow> [] | Some r \<Rightarrow> [r]) else [])"
| "responses_of p _ = []"

fun sent_of :: "u8 \<Rightarrow> rt_event \<Rightarrow> bytes" where
  "sent_of p (Send q _ f ok) = (if q = p \<and> ok then f else [])"
| "sent_of p _ = []"

definition received :: "u8 \<Rightarrow> rt_event list \<Rightarrow> bytes" where
  "received p es = concat (map (received_of p) es)"

definition requests :: "u8 \<Rightarrow> rt_event list \<Rightarrow> bytes list" where
  "requests p es = concat (map (requests_of p) es)"

definition responses :: "u8 \<Rightarrow> rt_event list \<Rightarrow> bytes list" where
  "responses p es = concat (map (responses_of p) es)"

definition sent :: "u8 \<Rightarrow> rt_event list \<Rightarrow> bytes" where
  "sent p es = concat (map (sent_of p) es)"

lemma observe_simps [simp]:
  "received p [] = []" "received p (e # es) = received_of p e @ received p es"
  "received p (es @ es') = received p es @ received p es'"
  "requests p [] = []" "requests p (e # es) = requests_of p e @ requests p es"
  "requests p (es @ es') = requests p es @ requests p es'"
  "responses p [] = []" "responses p (e # es) = responses_of p e @ responses p es"
  "responses p (es @ es') = responses p es @ responses p es'"
  "sent p [] = []" "sent p (e # es) = sent_of p e @ sent p es"
  "sent p (es @ es') = sent p es @ sent p es'"
  by (simp_all add: received_def requests_def responses_def sent_def)

subsection \<open>The invariant of a port\<close>

definition port_inv :: "server_runtime \<Rightarrow> u8 \<Rightarrow> bool" where
  "port_inv rt p \<longleftrightarrow>
     length (request_packets rt p) = server_packet_max \<and>
     length (pending_responses rt p) = server_squid_queue_capacity \<and>
     request_packet_expected rt p \<le> server_packet_max \<and>
     request_packet_sizes rt p \<le> request_packet_expected rt p \<and>
     pending_response_sizes rt p \<le> server_squid_queue_capacity"

lemma port_inv_init: "port_inv init_server_runtime p"
  by (simp add: port_inv_def init_server_runtime_def)

lemma port_inv_reset: "port_inv rt p \<Longrightarrow> port_inv (reset_port_state rt) p"
  by (simp add: port_inv_def reset_port_state_def)

lemma port_inv_keep_running [simp]: "port_inv (rt\<lparr>keep_running := b\<rparr>) p = port_inv rt p"
  by (simp add: port_inv_def)

text \<open>The bytes of a packet that has not been handed over yet.\<close>

definition partial :: "server_runtime \<Rightarrow> u8 \<Rightarrow> bytes" where
  "partial rt p =
     (if request_packet_expected rt p = 0 then []
      else of_nat (request_packet_expected rt p) #
        take (request_packet_sizes rt p) (request_packets rt p))"

definition pending :: "server_runtime \<Rightarrow> u8 \<Rightarrow> bytes" where
  "pending rt p = take (pending_response_sizes rt p) (pending_responses rt p)"

text \<open>The port has a plugin that handles packets.\<close>

definition served :: "server_runtime \<Rightarrow> u8 \<Rightarrow> bool" where
  "served rt p \<longleftrightarrow> (case find_server_plugin (plugin_registry rt) p of
     None \<Rightarrow> False | Some pl \<Rightarrow> handle_packet pl \<noteq> None)"

text \<open>The state of the port as libsquid's peer could know it: nothing is held complete.\<close>

definition port_streams :: "u8 \<Rightarrow> server_runtime \<Rightarrow> rt_event list \<Rightarrow> server_runtime \<Rightarrow> bool" where
  "port_streams p rt es rt' \<longleftrightarrow>
     deframe (partial rt p @ received p es) = (requests p es, partial rt' p) \<and>
     pending rt p @ concat (map frame (responses p es)) = sent p es @ pending rt' p"

lemma port_streams_trans:
  assumes "port_streams p rt es rt1" and "port_streams p rt1 es' rt2"
  shows "port_streams p rt (es @ es') rt2"
proof -
  have "deframe (partial rt p @ received p es @ received p es') =
      (requests p es @ requests p es', partial rt2 p)"
    using deframe_append [of "partial rt p @ received p es" "received p es'"] assms
    by (simp add: port_streams_def)
  moreover have "(pending rt p @ concat (map frame (responses p es))) @
      concat (map frame (responses p es')) = sent p es @ sent p es' @ pending rt2 p"
    using assms by (simp add: port_streams_def)
  ultimately show ?thesis
    by (simp add: port_streams_def)
qed

text \<open>Between passes a served port never holds a complete packet.\<close>

definition served_inv :: "server_runtime \<Rightarrow> u8 \<Rightarrow> bool" where
  "served_inv rt p \<longleftrightarrow> port_inv rt p \<and> served rt p \<and>
     (request_packet_expected rt p = 0 \<or> request_packet_sizes rt p < request_packet_expected rt p)"

lemma deframe_partial:
  assumes "served_inv rt p"
  shows "deframe (partial rt p) = ([], partial rt p)"
proof (cases "request_packet_expected rt p = 0")
  case False
  moreover have "unat (of_nat (request_packet_expected rt p) :: u8) = request_packet_expected rt p"
    using assms by (simp add: served_inv_def port_inv_def unat_of_nat)
  moreover from this False have "(of_nat (request_packet_expected rt p) :: u8) \<noteq> 0"
    by (metis unat_0)
  ultimately show ?thesis
    using assms by (simp add: partial_def served_inv_def port_inv_def)
qed (simp add: partial_def)

lemma port_streams_refl: "served_inv rt p \<Longrightarrow> port_streams p rt [] rt"
  by (simp add: port_streams_def deframe_partial)

subsection \<open>Receiving\<close>

text \<open>
  What one call of \<open>receive_plugin_packet\<close> on port \<open>p\<close> may do: it consumes stream bytes
  and either completes a packet, which is then in the buffer, or not.
\<close>

definition same_except_request :: "u8 \<Rightarrow> server_runtime \<Rightarrow> server_runtime \<Rightarrow> bool" where
  "same_except_request p rt rt' \<longleftrightarrow>
     plugin_registry rt' = plugin_registry rt \<and> squid_fds rt' = squid_fds rt \<and>
     keep_running rt' = keep_running rt \<and> pending_responses rt' = pending_responses rt \<and>
     pending_response_sizes rt' = pending_response_sizes rt \<and>
     (\<forall>q. q \<noteq> p \<longrightarrow> request_packets rt' q = request_packets rt q \<and>
        request_packet_sizes rt' q = request_packet_sizes rt q \<and>
        request_packet_expected rt' q = request_packet_expected rt q)"

fun only_receives :: "u8 \<Rightarrow> rt_event \<Rightarrow> bool" where
  "only_receives p (Recv q _ _ _) \<longleftrightarrow> q = p"
| "only_receives p (Log _ _) \<longleftrightarrow> True"
| "only_receives p _ \<longleftrightarrow> False"

definition receive_contract ::
  "u8 \<Rightarrow> server_runtime \<Rightarrow> int \<times> server_runtime \<Rightarrow> rt_event list \<Rightarrow> bool" where
  "receive_contract p rt r es \<longleftrightarrow>
     same_except_request p rt (snd r) \<and> port_inv (snd r) p \<and> list_all (only_receives p) es \<and>
     (if fst r \<le> 0
      then served_inv (snd r) p \<and> deframe (partial rt p @ received p es) = ([], partial (snd r) p)
      else deframe (partial rt p @ received p es) =
        ([take (request_packet_sizes (snd r) p) (request_packets (snd r) p)], []))"

lemma ensures_call_recv_bind:
  "(\<And>d. (\<And>x. d = Some x \<Longrightarrow> length x \<le> n) \<Longrightarrow>
      ensures (f d) (\<lambda>b es. Q b (Recv port fd n d # es))) \<Longrightarrow>
   ensures (State_Monad.bind (call_recv api port fd n) f) Q"
  unfolding call_recv_def
  by (rule ensures_bind [where P = "\<lambda>a es. es = [Recv port fd n a] \<and>
        (\<forall>x. a = Some x \<longrightarrow> length x \<le> n)"])
     (auto simp: ensures_def)

definition put_body :: "server_runtime \<Rightarrow> u8 \<Rightarrow> bytes \<Rightarrow> server_runtime" where
  "put_body rt p d = rt\<lparr>
     request_packets := (request_packets rt)
       (p := buf_write (request_packets rt p) (request_packet_sizes rt p) d),
     request_packet_sizes := (request_packet_sizes rt)(p := request_packet_sizes rt p + length d)\<rparr>"

definition put_header :: "server_runtime \<Rightarrow> u8 \<Rightarrow> u8 \<Rightarrow> server_runtime" where
  "put_header rt p n = rt\<lparr>
     request_packet_expected := (request_packet_expected rt)(p := unat n),
     request_packet_sizes := (request_packet_sizes rt)(p := 0)\<rparr>"

lemma put_header_inv:
  assumes "port_inv rt p" "served rt p" "n \<noteq> 0"
  shows "served_inv (put_header rt p n) p" "partial (put_header rt p n) p = [n]"
    "0 < request_packet_expected (put_header rt p n) p"
  using assms unat_u8 [of n] unat_u8_pos [of n]
  by (auto simp: served_inv_def port_inv_def served_def put_header_def partial_def)

lemma put_body_inv:
  assumes inv: "served_inv rt p"
    and room: "length d \<le> request_packet_expected rt p - request_packet_sizes rt p"
    and exp: "0 < request_packet_expected rt p"
  shows "port_inv (put_body rt p d) p" "served (put_body rt p d) p"
    "partial (put_body rt p d) p = partial rt p @ d"
proof -
  have "request_packet_sizes rt p + length d \<le> server_packet_max"
    using inv room exp by (auto simp: served_inv_def port_inv_def)
  then have "request_packet_sizes rt p + length d \<le> length (request_packets rt p)"
    using inv by (simp add: served_inv_def port_inv_def)
  with inv room exp show "port_inv (put_body rt p d) p" "served (put_body rt p d) p"
    "partial (put_body rt p d) p = partial rt p @ d"
    by (auto simp: served_inv_def port_inv_def served_def put_body_def partial_def)
qed

lemma deframe_whole:
  assumes "port_inv rt p" "0 < request_packet_expected rt p"
    and "request_packet_sizes rt p = request_packet_expected rt p"
  shows "deframe (partial rt p) =
    ([take (request_packet_sizes rt p) (request_packets rt p)], [])"
proof -
  let ?n = "of_nat (request_packet_expected rt p) :: u8"
  have n: "unat ?n = request_packet_expected rt p"
    using assms by (simp add: port_inv_def unat_of_nat)
  with assms(2) have "?n \<noteq> 0" by (metis less_not_refl unat_0)
  then show ?thesis
    using assms n deframe_complete [of ?n "take (request_packet_sizes rt p) (request_packets rt p)" "[]"]
    by (simp add: partial_def port_inv_def)
qed

lemma same_except_request_refl: "same_except_request p rt rt"
  by (simp add: same_except_request_def)

lemma same_except_request_put:
  "same_except_request p rt (put_header rt p n)"
  "same_except_request p rt rt' \<Longrightarrow> same_except_request p rt (put_body rt' p d)"
  by (simp_all add: same_except_request_def put_header_def put_body_def)

lemma put_body_contract:
  assumes inv: "served_inv rt p" and exp: "0 < request_packet_expected rt p"
    and room: "length d \<le> request_packet_expected rt p - request_packet_sizes rt p"
    and same: "same_except_request p rt0 rt"
    and es: "list_all (only_receives p) es" "partial rt0 p @ received p es = partial rt p @ d"
  shows "receive_contract p rt0
    (if request_packet_sizes rt p + length d = request_packet_expected rt p then 1 else 0,
     put_body rt p d) es"
proof -
  note put = put_body_inv [OF inv room exp]
  have size: "request_packet_sizes (put_body rt p d) p = request_packet_sizes rt p + length d"
    "request_packet_expected (put_body rt p d) p = request_packet_expected rt p"
    by (simp_all add: put_body_def)
  have pos: "deframe (partial rt p @ d) =
      ([take (request_packet_sizes rt p + length d) (request_packets (put_body rt p d) p)], [])"
    if "request_packet_sizes rt p + length d = request_packet_expected rt p"
    using deframe_whole [OF put(1)] that exp size put(3) by simp
  have neg: "served_inv (put_body rt p d) p \<and>
      deframe (partial rt p @ d) = ([], partial (put_body rt p d) p)"
    if "request_packet_sizes rt p + length d \<noteq> request_packet_expected rt p"
  proof -
    have "served_inv (put_body rt p d) p"
      using that put(1,2) size room inv by (auto simp: served_inv_def port_inv_def)
    then show ?thesis
      using deframe_partial put(3) by fastforce
  qed
  show ?thesis
    using same_except_request_put(2) [OF same] put(1) es pos neg
    by (auto simp: receive_contract_def size)
qed

definition header_contract ::
  "u8 \<Rightarrow> server_runtime \<Rightarrow> int + server_runtime \<Rightarrow> rt_event list \<Rightarrow> bool" where
  "header_contract p rt r es \<longleftrightarrow> list_all (only_receives p) es \<and>
     (case r of
        Inl code \<Rightarrow> code \<le> 0 \<and> deframe (partial rt p @ received p es) = ([], partial rt p)
      | Inr rt1 \<Rightarrow> served_inv rt1 p \<and> 0 < request_packet_expected rt1 p \<and>
          same_except_request p rt rt1 \<and> partial rt p @ received p es = partial rt1 p)"

lemma receive_header_contract:
  assumes inv: "served_inv rt p"
  shows "ensures (receive_header api rt p) (header_contract p rt)"
proof (cases "request_packet_expected rt p = 0")
  case True
  then have none: "partial rt p = []"
    by (simp add: partial_def)
  have put: "header_contract p rt (Inr (put_header rt p n)) [Recv p fd k (Some (n # ns))]"
    if "n \<noteq> 0" "ns = []" for n ns fd k
    using that inv put_header_inv [of rt p n] same_except_request_put(1) [of p rt n] none
    by (simp add: header_contract_def served_inv_def)
  show ?thesis
    unfolding receive_header_def rt_calls(1) if_P [OF True]
    apply (intro ensures_call_recv_bind io_rules)
    using inv put by (auto simp: header_contract_def none put_header_def)
next
  case False
  then show ?thesis
    using inv by (auto simp: receive_header_def header_contract_def same_except_request_refl
        intro!: io_rules)
qed

lemma receive_body_contract:
  assumes rt1: "served_inv rt1 p" "0 < request_packet_expected rt1 p" "same_except_request p rt rt1"
    and es: "list_all (only_receives p) es" "partial rt p @ received p es = partial rt1 p"
  shows "ensures (receive_body api rt1 p) (\<lambda>r es'. receive_contract p rt r (es @ es'))"
proof -
  have more: "request_packet_sizes rt1 p < request_packet_expected rt1 p"
    using rt1 by (simp add: served_inv_def)
  show ?thesis
    unfolding receive_body_def Let_def if_P [OF more]
    apply (intro ensures_call_recv_bind io_rules)
    subgoal for d using rt1 es by (auto simp: receive_contract_def served_inv_def deframe_partial)
    subgoal for d data
      using put_body_contract [OF rt1(1,2) _ rt1(3), of data "es @ [Recv p (squid_fds rt1 p)
         (request_packet_expected rt1 p - request_packet_sizes rt1 p) d]"] es
      by (simp add: put_body_def)
    done
qed

lemma receive_plugin_packet_contract:
  assumes inv: "served_inv rt p"
  shows "ensures (receive_plugin_packet api rt p) (receive_contract p rt)"
  unfolding receive_plugin_packet_def
proof (rule ensures_bind [OF receive_header_contract [OF inv]], intro io_rules)
  fix header es code assume "header_contract p rt header es" "header = Inl code"
  then show "receive_contract p rt (code, rt) (es @ [])"
    using inv by (simp add: header_contract_def receive_contract_def same_except_request_refl
        served_inv_def)
next
  fix header es rt1 assume "header_contract p rt header es" "header = Inr rt1"
  then show "ensures (receive_body api rt1 p) (\<lambda>r es'. receive_contract p rt r (es @ es'))"
    by (intro receive_body_contract) (simp_all add: header_contract_def)
qed
subsection \<open>Dispatching one packet\<close>

text \<open>Two states agree on a port, and on everything that is not per port.\<close>

definition same_globals :: "server_runtime \<Rightarrow> server_runtime \<Rightarrow> bool" where
  "same_globals rt rt' \<longleftrightarrow> plugin_registry rt' = plugin_registry rt \<and>
     squid_fds rt' = squid_fds rt \<and> keep_running rt' = keep_running rt"

definition same_port :: "u8 \<Rightarrow> server_runtime \<Rightarrow> server_runtime \<Rightarrow> bool" where
  "same_port q rt rt' \<longleftrightarrow>
     request_packets rt' q = request_packets rt q \<and>
     request_packet_sizes rt' q = request_packet_sizes rt q \<and>
     request_packet_expected rt' q = request_packet_expected rt q \<and>
     pending_responses rt' q = pending_responses rt q \<and>
     pending_response_sizes rt' q = pending_response_sizes rt q"

fun event_port :: "rt_event \<Rightarrow> u8 option" where
  "event_port (Recv q _ _ _) = Some q"
| "event_port (Send q _ _ _) = Some q"
| "event_port (Handle q _ _ _) = Some q"
| "event_port _ = None"

definition silent :: "u8 \<Rightarrow> rt_event list \<Rightarrow> bool" where
  "silent q es \<longleftrightarrow> list_all (\<lambda>e. event_port e \<noteq> Some q) es"

definition confined :: "u8 \<Rightarrow> server_runtime \<Rightarrow> server_runtime \<Rightarrow> rt_event list \<Rightarrow> bool" where
  "confined p rt rt' es \<longleftrightarrow> same_globals rt rt' \<and>
     (\<forall>q. q \<noteq> p \<longrightarrow> same_port q rt rt' \<and> silent q es)"

lemma silent_append [simp]: "silent q (es @ es') \<longleftrightarrow> silent q es \<and> silent q es'"
  by (simp add: silent_def)

lemma silent_observe:
  assumes "silent q es"
  shows "received q es = []" "requests q es = []" "responses q es = []" "sent q es = []"
proof -
  have "received_of q e = [] \<and> requests_of q e = [] \<and> responses_of q e = [] \<and> sent_of q e = []"
    if "event_port e \<noteq> Some q" for e
    using that by (cases e) auto
  with assms show "received q es = []" "requests q es = []" "responses q es = []" "sent q es = []"
    by (auto simp: silent_def list_all_iff received_def requests_def responses_def sent_def)
qed

lemma confined_refl: "confined p rt rt []"
  by (simp add: confined_def same_globals_def same_port_def silent_def)

lemma confined_trans:
  "confined p rt rt1 es \<Longrightarrow> confined p rt1 rt2 es' \<Longrightarrow> confined p rt rt2 (es @ es')"
  by (auto simp: confined_def same_globals_def same_port_def)

lemma only_receives_silent: "list_all (only_receives p) es \<Longrightarrow> q \<noteq> p \<Longrightarrow> silent q es"
  unfolding silent_def
  by (erule list.pred_mono_strong) (auto elim: only_receives.elims)

lemma same_except_request_confined:
  "same_except_request p rt rt' \<Longrightarrow> list_all (only_receives p) es \<Longrightarrow> confined p rt rt' es"
  using only_receives_silent
  by (auto simp: same_except_request_def confined_def same_globals_def same_port_def)

lemma only_receives_observe:
  "list_all (only_receives p) es \<Longrightarrow> requests p es = [] \<and> responses p es = [] \<and> sent p es = []"
  by (induction es) (auto elim: only_receives.elims)

definition handled :: "u8 \<Rightarrow> server_runtime \<Rightarrow> server_runtime \<Rightarrow> rt_event list \<Rightarrow> bool" where
  "handled p rt rt' es \<longleftrightarrow> confined p rt rt' es \<and> port_inv rt' p \<and>
     request_packet_expected rt' p = 0 \<and> request_packet_sizes rt' p = 0 \<and>
     received p es = [] \<and>
     requests p es = [take (request_packet_sizes rt p) (request_packets rt p)] \<and>
     concat (map frame (responses p es)) = sent p es @ pending rt' p"

lemma length_reply_buffer [simp]: "length (reply_buffer r) = 255"
  by (simp add: reply_buffer_def)

lemma response_buffer:
  "length buf = 256 \<Longrightarrow>
     take (Suc n) (buf_write (buf_write buf (Suc 0) (reply_buffer r)) 0 [x]) =
       x # take n (reply_buffer r)"
  by (cases buf) (simp_all add: buf_write_def)

lemma handle_request_contract:
  assumes inv: "port_inv rt p" and idle: "pending_response_sizes rt p = 0"
  shows "ensures (handle_request api rt p pl) (handled p rt)"
proof -
  have buf [simp]: "length (pending_responses rt p) = 256"
    using inv by (simp add: port_inv_def)
  show ?thesis
    unfolding handle_request_def rt_calls Let_def
    by (intro io_rules)
       (use inv idle in \<open>auto simp: handled_def confined_def same_globals_def same_port_def silent_def
        port_inv_def pending_def response_buffer [OF buf] accepted_response_def frame_def\<close>)
qed

subsection \<open>One pass over a port\<close>

text \<open>The contract of one pass over a served port.\<close>

definition pass :: "u8 \<Rightarrow> server_runtime \<Rightarrow> server_runtime \<Rightarrow> rt_event list \<Rightarrow> bool" where
  "pass p rt rt' es \<longleftrightarrow> confined p rt rt' es \<and> served_inv rt' p \<and> port_streams p rt es rt' \<and>
     length (requests p es) \<le> 1"

definition flushed :: "u8 \<Rightarrow> server_runtime \<Rightarrow> server_runtime option \<Rightarrow> rt_event list \<Rightarrow> bool" where
  "flushed p rt r es \<longleftrightarrow>
     (case r of
        None \<Rightarrow> pending_response_sizes rt p > 0 \<and> es = [Send p (squid_fds rt p) (pending rt p) False]
      | Some rt1 \<Rightarrow> rt1 = rt\<lparr>pending_response_sizes := (pending_response_sizes rt)(p := 0)\<rparr> \<and>
          es = (if pending_response_sizes rt p > 0
                then [Send p (squid_fds rt p) (pending rt p) True] else []))"

lemma flush_pending_contract: "ensures (flush_pending api rt p) (flushed p rt)"
  unfolding flush_pending_def rt_calls
  by (intro io_rules) (auto simp: flushed_def pending_def fun_upd_idem)

lemma confined_served:
  assumes "confined q rt rt' es"
  shows "served rt' p = served rt p"
  using assms by (simp add: confined_def same_globals_def served_def)

lemma receive_dispatch_contract:
  assumes inv: "served_inv rt p" and idle: "pending_response_sizes rt p = 0"
  shows "ensures (State_Monad.bind (receive_plugin_packet api rt p) (handle_ready api p)) (pass p rt)"
proof (rule ensures_bind [OF receive_plugin_packet_contract [OF inv]])
  fix r es assume rc: "receive_contract p rt r es"
  obtain code rt2 where r: "r = (code, rt2)" by (cases r)
  have conf: "confined p rt rt2 es"
    using rc by (simp add: r receive_contract_def same_except_request_confined)
  note obs = only_receives_observe [of p es]
  have served: "served rt2 p"
    using confined_served [OF conf] inv by (simp add: served_inv_def)
  have idle2: "pending_response_sizes rt2 p = 0"
    using rc idle by (simp add: r receive_contract_def same_except_request_def)
  have quiet: "pass p rt rt2 es" if "code \<le> 0"
    using that rc conf obs idle idle2
    by (simp add: pass_def r receive_contract_def port_streams_def pending_def)
  have full: "pass p rt rt' (es @ es')" if "\<not> code \<le> 0" and h: "handled p rt2 rt' es'" for rt' es'
    using that rc obs idle served confined_trans [OF conf, of rt' es'] confined_served [of p rt2 rt' es' p]
    by (simp add: pass_def r receive_contract_def handled_def port_streams_def pending_def
        served_inv_def partial_def)
  show "ensures (handle_ready api p r) (\<lambda>b es'. pass p rt b (es @ es'))"
    unfolding r handle_ready_def prod.case
    by (intro io_rules ensures_mono [OF handle_request_contract full])
       (use served rc idle2 quiet in \<open>auto simp: served_def r receive_contract_def\<close>)
qed

lemma pass_refl: "served_inv rt p \<Longrightarrow> pass p rt rt []"
  by (simp add: pass_def confined_refl port_streams_refl)

lemma flushed_pass:
  assumes inv: "served_inv rt p" and fl: "flushed p rt (Some rt1) es"
    and pass: "pass p rt1 rt' es'"
  shows "pass p rt rt' (es @ es')"
proof -
  have rt1: "rt1 = rt\<lparr>pending_response_sizes := (pending_response_sizes rt)(p := 0)\<rparr>"
    and es: "es = (if pending_response_sizes rt p > 0
       then [Send p (squid_fds rt p) (pending rt p) True] else [])"
    using fl by (simp_all add: flushed_def)
  have "confined p rt rt1 es"
    by (simp add: rt1 es confined_def same_globals_def same_port_def silent_def)
  moreover have "port_streams p rt es rt1"
    using deframe_partial [OF inv]
    by (simp add: rt1 es port_streams_def partial_def pending_def)
  ultimately show ?thesis
    using pass confined_trans port_streams_trans
    by (auto simp: pass_def es)
qed

lemma dispatch_port_contract:
  assumes inv: "served_inv rt p"
  shows "ensures (dispatch_port api rt p) (pass p rt)"
proof (cases "squid_fds rt p < 0")
  case True
  then show ?thesis
    using inv by (auto simp: dispatch_port_def intro!: io_rules pass_refl)
next
  case False
  have blocked: "pass p rt rt es" if "flushed p rt None es" for es
    using that inv deframe_partial [OF inv]
    by (simp add: flushed_def pass_def confined_def same_globals_def same_port_def silent_def
        port_streams_def)
  have ready: "served_inv rt1 p \<and> pending_response_sizes rt1 p = 0" if "flushed p rt (Some rt1) es" for rt1 es
    using that inv by (auto simp: flushed_def served_inv_def port_inv_def served_def)
  show ?thesis
    unfolding dispatch_port_def if_not_P [OF False]
    by (rule ensures_bind [OF flush_pending_contract],
        intro ensures_option ensures_return
          ensures_mono [OF receive_dispatch_contract flushed_pass [OF inv]])
       (use blocked ready in auto)
qed

subsection \<open>Any port, served or not\<close>

definition contained :: "u8 \<Rightarrow> server_runtime \<Rightarrow> server_runtime \<Rightarrow> rt_event list \<Rightarrow> bool" where
  "contained p rt rt' es \<longleftrightarrow> confined p rt rt' es \<and> (port_inv rt p \<longrightarrow> port_inv rt' p)"

lemma receive_contained:
  "ensures (receive_plugin_packet api rt p) (\<lambda>r es. contained p rt (snd r) es \<and>
     pending_response_sizes (snd r) p = pending_response_sizes rt p)"
  unfolding receive_plugin_packet_def receive_header_def receive_body_def Let_def rt_calls(1)
  by (intro io_rules ensures_call_recv_bind)
     (auto simp: contained_def confined_def same_globals_def same_port_def silent_def port_inv_def
       unat_u8_le le_trans [OF _ unat_u8_le])

lemma contained_trans:
  "contained p rt rt1 es \<Longrightarrow> contained p rt1 rt2 es' \<Longrightarrow> contained p rt rt2 (es @ es')"
  by (auto simp: contained_def intro: confined_trans)

lemma contained_refl: "contained p rt rt []"
  by (simp add: contained_def confined_refl)

lemma handle_request_contained:
  assumes "pending_response_sizes rt p = 0"
  shows "ensures (handle_request api rt p pl) (contained p rt)"
  unfolding handle_request_def rt_calls Let_def
  by (intro io_rules)
     (auto simp: contained_def confined_def same_globals_def same_port_def silent_def port_inv_def)

lemma flushed_contained:
  "flushed p rt (Some rt1) es \<Longrightarrow> contained p rt rt1 es \<and> pending_response_sizes rt1 p = 0"
  "flushed p rt None es \<Longrightarrow> contained p rt rt es"
  by (auto simp: flushed_def contained_def confined_def same_globals_def same_port_def silent_def
      port_inv_def)

lemma handle_ready_contained:
  assumes c: "contained p rt (snd r) es" and idle: "pending_response_sizes (snd r) p = 0"
  shows "ensures (handle_ready api p r) (\<lambda>rt' es'. contained p rt rt' (es @ es'))"
  unfolding handle_ready_def
  by (intro io_rules ensures_mono [OF handle_request_contained])
     (use c idle contained_trans [OF c] in auto)

lemma receive_dispatch_contained:
  assumes "pending_response_sizes rt p = 0"
  shows "ensures (State_Monad.bind (receive_plugin_packet api rt p) (handle_ready api p))
    (contained p rt)"
  by (rule ensures_bind [OF receive_contained], rule handle_ready_contained) (use assms in auto)

lemma dispatch_port_contained: "ensures (dispatch_port api rt p) (contained p rt)"
  unfolding dispatch_port_def
proof (intro ensures_if ensures_return contained_refl,
    rule ensures_bind [OF flush_pending_contract])
  fix r es assume fl: "flushed p rt r es"
  have rest: "ensures (State_Monad.bind (receive_plugin_packet api rt1 p) (handle_ready api p))
      (\<lambda>b es'. contained p rt b (es @ es'))" if "r = Some rt1" for rt1
    using flushed_contained(1) [of p rt rt1 es] fl that
    by (intro ensures_mono [OF receive_dispatch_contained]) (auto intro: contained_trans)
  show "ensures (case r of None \<Rightarrow> State_Monad.return rt
      | Some rt1 \<Rightarrow> State_Monad.bind (receive_plugin_packet api rt1 p) (handle_ready api p))
      (\<lambda>b es'. contained p rt b (es @ es'))"
    using fl flushed_contained(2) by (intro ensures_option ensures_return rest) auto
qed

end
