(* ===== verification/Runtime_Loop.thy ===== *)
theory Runtime_Loop
  imports Runtime_Streams "HOL-Library.Multiset"
begin

text \<open>
  The dispatch loop of \<open>server_runtime.c\<close> over its whole life: sessions between a handshake
  and the loss of the link, termination after a signal, and the sockets that are opened before
  the loop and closed after it.
\<close>

subsection \<open>A pass over all ports\<close>

definition session_step :: "u8 \<Rightarrow> server_runtime \<Rightarrow> server_runtime \<Rightarrow> rt_event list \<Rightarrow> bool" where
  "session_step p rt rt' es \<longleftrightarrow> plugin_registry rt' = plugin_registry rt \<and>
     squid_fds rt' = squid_fds rt \<and> served_inv rt' p \<and> port_streams p rt es rt'"

lemma session_step_refl: "served_inv rt p \<Longrightarrow> session_step p rt rt []"
  by (simp add: session_step_def port_streams_refl)

lemma session_step_trans:
  "session_step p rt rt1 es \<Longrightarrow> session_step p rt1 rt2 es' \<Longrightarrow> session_step p rt rt2 (es @ es')"
  by (auto simp: session_step_def intro: port_streams_trans)

lemma session_step_served: "session_step p rt rt' es \<Longrightarrow> served_inv rt' p"
  by (simp add: session_step_def)

lemma session_step_quiet:
  assumes "served_inv rt p" "same_port p rt rt'" "silent p es"
    and "plugin_registry rt' = plugin_registry rt" "squid_fds rt' = squid_fds rt"
  shows "session_step p rt rt' es"
proof -
  have "partial rt' p = partial rt p" "pending rt' p = pending rt p"
    using assms by (simp_all add: same_port_def partial_def pending_def)
  moreover have "served_inv rt' p"
    using assms by (simp add: served_inv_def same_port_def port_inv_def served_def)
  ultimately show ?thesis
    using assms silent_observe [OF assms(3)]
    by (simp add: session_step_def port_streams_def deframe_partial)
qed

lemma dispatch_port_session:
  assumes "served_inv rt p"
  shows "ensures (dispatch_port api rt q) (session_step p rt)"
proof (cases "q = p")
  case True
  show ?thesis
    unfolding True
    by (rule ensures_mono [OF dispatch_port_contract [OF assms]])
       (auto simp: pass_def session_step_def confined_def same_globals_def)
next
  case False
  show ?thesis
    by (rule ensures_mono [OF dispatch_port_contained])
       (use False assms in \<open>auto simp: contained_def confined_def same_globals_def
          intro!: session_step_quiet\<close>)
qed

lemma dispatch_ports_session:
  "served_inv rt p \<Longrightarrow> ensures (dispatch_ports api rt ports) (session_step p rt)"
proof (induction ports arbitrary: rt)
  case Nil
  then show ?case by (auto intro!: io_rules session_step_refl)
next
  case (Cons q ports)
  have "ensures (dispatch_ports api rt1 ports) (\<lambda>rt2 es'. session_step p rt rt2 (es @ es'))"
    if "session_step p rt rt1 es" for rt1 es
    by (rule ensures_mono [OF Cons.IH [OF session_step_served [OF that]]])
       (rule session_step_trans [OF that])
  then show ?case
    unfolding dispatch_ports.simps by (rule ensures_bind [OF dispatch_port_session [OF Cons.prems]])
qed

subsection \<open>Sessions\<close>

text \<open>
  A session: the steps of the inner loop, from the moment the link is established. The
  contract of one step covers both ends of the loop body.
\<close>

lemma session_step_keep_running:
  "served_inv rt p \<Longrightarrow> silent p es \<Longrightarrow> session_step p rt (rt\<lparr>keep_running := b\<rparr>) es"
  by (rule session_step_quiet) (simp_all add: same_port_def)

lemma served_inv_keep_running [simp]: "served_inv (rt\<lparr>keep_running := b\<rparr>) p = served_inv rt p"
  by (simp add: served_inv_def served_def)

lemma wait_session:
  assumes "served_inv rt p"
  shows "ensures (wait_for_transport api rt) (session_step p rt)"
  unfolding wait_for_transport_def rt_calls
  by (intro io_rules) (use assms in \<open>auto intro!: session_step_keep_running session_step_quiet
     simp: silent_def same_port_def\<close>)

lemma ensures_session_bind:
  assumes "ensures m (session_step p rt)"
    and "\<And>rt1. served_inv rt1 p \<Longrightarrow> ensures (f rt1) (session_step p rt1)"
  shows "ensures (State_Monad.bind m f) (session_step p rt)"
proof (rule ensures_bind [OF assms(1)])
  fix rt1 es assume st: "session_step p rt rt1 es"
  show "ensures (f rt1) (\<lambda>rt2 es'. session_step p rt rt2 (es @ es'))"
    by (rule ensures_mono [OF assms(2) [OF session_step_served [OF st]]])
       (rule session_step_trans [OF st])
qed

lemma ensures_burst_bind:
  assumes "served_inv rt p" and "ensures f (session_step p rt)"
  shows "ensures (State_Monad.bind call_burst (\<lambda>_. f)) (session_step p rt)"
  unfolding call_burst_def
proof (rule ensures_query_bind)
  have "session_step p rt rt [Burst]"
    using assms(1) by (auto intro!: session_step_quiet simp: same_port_def silent_def)
  then show "ensures f (\<lambda>rt' es. session_step p rt rt' (Burst # es))"
    by (intro ensures_mono [OF assms(2)]) (auto dest: session_step_trans)
qed

lemma connected_pass_session:
  assumes "served_inv rt p"
  shows "ensures (connected_pass api rt) (session_step p rt)"
  unfolding connected_pass_def dispatch_received_packets_def
  using assms
  by (intro ensures_burst_bind ensures_session_bind dispatch_ports_session wait_session)

lemma read_keep_running_silent:
  "ensures (read_keep_running api rt) (\<lambda>r es. \<exists>b. es = [Signal b] \<and>
     r = (keep_running rt \<and> \<not> b, rt\<lparr>keep_running := keep_running rt \<and> \<not> b\<rparr>))"
  unfolding read_keep_running_def by (intro io_rules) auto

lemma loop_step_session:
  assumes inv: "served_inv rt p"
  shows "ensures (loop_step api Connected rt)
    (\<lambda>r es. fst r = Connected \<longrightarrow> session_step p rt (snd r) es)"
proof -
  have pass: "ensures (connected_pass api rt1) (\<lambda>rt2 es. session_step p rt rt2 (Signal b # Link_Up u # es))"
    if "rt1 = rt\<lparr>keep_running := c\<rparr>" for rt1 b u c
  proof -
    have st: "session_step p rt rt1 [Signal b, Link_Up u]"
      using inv by (simp add: that session_step_keep_running silent_def)
    show ?thesis
      by (rule ensures_mono [OF connected_pass_session [OF session_step_served [OF st]]])
         (use session_step_trans [OF st] in auto)
  qed
  show ?thesis
    unfolding loop_step_def loop_pc.case read_keep_running_def rt_calls
    by (intro io_rules ensures_bind [OF pass]) auto
qed

inductive session :: "rt_api \<Rightarrow> server_runtime \<Rightarrow> rt_event env \<Rightarrow> server_runtime \<Rightarrow> rt_event env \<Rightarrow> bool"
  for api rt s where
  start: "session api rt s rt s"
| step: "session api rt s rt1 s1 \<Longrightarrow> run_state (loop_step api Connected rt1) s1 = ((Connected, rt2), s2) \<Longrightarrow>
    session api rt s rt2 s2"

lemma session_streams:
  assumes "session api rt s rt' s'" and "served_inv rt p"
  shows "\<exists>es. trace s' = trace s @ es \<and> session_step p rt rt' es"
  using assms
proof (induction rule: session.induct)
  case start
  then show ?case by (auto intro: session_step_refl)
next
  case (step rt1 s1 rt2 s2)
  then obtain es where es: "trace s1 = trace s @ es" "session_step p rt rt1 es"
    by auto
  obtain es' where "trace s2 = trace s1 @ es'" "session_step p rt1 rt2 es'"
    using ensuresE [OF loop_step_session [OF session_step_served [OF es(2)]] step.hyps(2)] by auto
  with es show ?case
    by (auto intro: session_step_trans)
qed

subsection \<open>The life of the loop\<close>

inductive loop_reaches ::
  "rt_api \<Rightarrow> server_runtime \<Rightarrow> rt_event env \<Rightarrow> loop_pc \<Rightarrow> server_runtime \<Rightarrow> rt_event env \<Rightarrow> bool"
  for api rt0 s0 where
  enter: "loop_reaches api rt0 s0 Outer rt0 s0"
| step: "loop_reaches api rt0 s0 pc rt s \<Longrightarrow>
    run_state (loop_step api pc rt) s = ((pc', rt'), s') \<Longrightarrow> loop_reaches api rt0 s0 pc' rt' s'"

text \<open>Asking for the link's state does not change it; only \<open>snet_burst\<close> moves the protocol on.\<close>

definition link_stable :: "rt_api \<Rightarrow> bool" where
  "link_stable api \<longleftrightarrow>
     (\<forall>h. snet_link_is_up api (h @ [Link_Up (snet_link_is_up api h)]) = snet_link_is_up api h)"

definition clean_port :: "server_runtime \<Rightarrow> u8 \<Rightarrow> bool" where
  "clean_port rt p \<longleftrightarrow> request_packet_sizes rt p = 0 \<and> request_packet_expected rt p = 0 \<and>
     pending_response_sizes rt p = 0"

definition clean :: "server_runtime \<Rightarrow> bool" where
  "clean rt \<longleftrightarrow> (\<forall>p \<in> set plugin_ports. clean_port rt p)"

lemma clean_reset: "clean (reset_port_state rt)"
  by (simp add: clean_def clean_port_def reset_port_state_def)

lemma clean_keep_running [simp]: "clean (rt\<lparr>keep_running := b\<rparr>) = clean rt"
  by (simp add: clean_def clean_port_def)

lemma clean_port_streams: "clean_port rt p \<Longrightarrow> partial rt p = [] \<and> pending rt p = []"
  by (simp add: clean_port_def partial_def pending_def)

lemma run_read_keep_running [simp]:
  "run_state (read_keep_running api rt) s =
     (let b = signal_arrived api (trace s); r = keep_running rt \<and> \<not> b in
      ((r, rt\<lparr>keep_running := r\<rparr>), s\<lparr>trace := trace s @ [Signal b]\<rparr>))"
  by (simp add: read_keep_running_def Let_def)

lemma run_calls [simp]:
  "run_state (call_link_is_up api) s =
     (snet_link_is_up api (trace s), s\<lparr>trace := trace s @ [Link_Up (snet_link_is_up api (trace s))]\<rparr>)"
  "run_state (log_message l t) s = ((), s\<lparr>trace := trace s @ [Log l t]\<rparr>)"
  "run_state call_burst s = ((), s\<lparr>trace := trace s @ [Burst]\<rparr>)"
  by (simp_all add: rt_calls)

lemma wait_keeps:
  "ensures (wait_for_transport api rt) (\<lambda>rt' es. \<exists>b. rt' = rt\<lparr>keep_running := b\<rparr>)"
  unfolding wait_for_transport_def rt_calls
  by (intro io_rules) (auto intro: exI [of _ "keep_running rt"])

text \<open>
  Outside a session the ports are clean, unless the loop is about to return: a session that
  ends because the link is lost is followed by a reset.
\<close>

definition loop_inv :: "loop_pc \<Rightarrow> server_runtime \<Rightarrow> bool" where
  "loop_inv pc rt \<longleftrightarrow>
     (case pc of Outer \<Rightarrow> keep_running rt \<longrightarrow> clean rt | Handshake \<Rightarrow> clean rt | _ \<Rightarrow> True)"

lemma loop_step_Connected_exit:
  assumes "link_stable api" and "\<not> (keep_running rt \<and> \<not> signal_arrived api (trace s))"
  shows "fst (fst (run_state (loop_step api Connected rt) s)) = Outer \<and>
    \<not> keep_running (snd (fst (run_state (loop_step api Connected rt) s)))"
  using assms(2) by (auto simp: loop_step_def Let_def reset_port_state_def)

lemma loop_step_Connected_lost:
  assumes "link_stable api" and "keep_running rt \<and> \<not> signal_arrived api (trace s)"
    and "\<not> snet_link_is_up api (trace s @ [Signal False])"
  shows "fst (run_state (loop_step api Connected rt) s) =
    (Outer, reset_port_state (rt\<lparr>keep_running := True\<rparr>))"
proof -
  have "\<not> snet_link_is_up api ((trace s @ [Signal False]) @ [Link_Up False])"
    using assms(1,3) unfolding link_stable_def by metis
  then show ?thesis
    using assms by (simp add: loop_step_def Let_def)
qed

lemma loop_step_Connected_up:
  assumes "keep_running rt \<and> \<not> signal_arrived api (trace s)"
    and "snet_link_is_up api (trace s @ [Signal False])"
  shows "fst (fst (run_state (loop_step api Connected rt) s)) = Connected"
  using assms by (simp add: loop_step_def Let_def split_beta)

lemma loop_step_inv:
  assumes stable: "link_stable api" and inv: "loop_inv pc rt"
    and run: "run_state (loop_step api pc rt) s = ((pc', rt'), s')"
  shows "loop_inv pc' rt' \<and> (pc \<noteq> Connected \<and> pc' = Connected \<longrightarrow> clean rt')"
proof (cases pc)
  case Outer
  then show ?thesis
    using inv run by (auto simp: loop_step_def Let_def loop_inv_def split: if_split_asm)
next
  case Handshake
  have "ensures (loop_step api Handshake rt) (\<lambda>r es. clean (snd r) \<and> fst r \<noteq> Outer)"
    unfolding loop_step_def loop_pc.case read_keep_running_def rt_calls
    by (intro io_rules ensures_bind [OF wait_keeps])
       (use inv Handshake in \<open>auto simp: loop_inv_def\<close>)
  from ensuresE [OF this run [unfolded Handshake]] have "clean rt' \<and> pc' \<noteq> Outer"
    by auto
  then show ?thesis
    by (cases pc') (auto simp: loop_inv_def)
next
  case Connected
  consider (stop) "\<not> (keep_running rt \<and> \<not> signal_arrived api (trace s))"
    | (lost) "keep_running rt \<and> \<not> signal_arrived api (trace s)"
        "\<not> snet_link_is_up api (trace s @ [Signal False])"
    | (up) "keep_running rt \<and> \<not> signal_arrived api (trace s)"
        "snet_link_is_up api (trace s @ [Signal False])"
    by auto
  then show ?thesis
  proof cases
    case stop
    then show ?thesis
      using loop_step_Connected_exit [OF stable stop] run Connected by (simp add: loop_inv_def)
  next
    case lost
    then show ?thesis
      using loop_step_Connected_lost [OF stable lost] run Connected
      by (auto simp: loop_inv_def clean_reset)
  next
    case up
    then show ?thesis
      using loop_step_Connected_up [OF up] run Connected by (simp add: loop_inv_def)
  qed
next
  case Exited
  then show ?thesis using run by (auto simp: loop_step_def loop_inv_def)
qed

lemma loop_reaches_inv:
  assumes "loop_reaches api rt0 s0 pc rt s" and "link_stable api" and "clean rt0"
  shows "loop_inv pc rt"
  using assms
proof (induction rule: loop_reaches.induct)
  case enter
  then show ?case by (simp add: loop_inv_def)
next
  case (step pc rt s pc' rt' s')
  then show ?case using loop_step_inv by blast
qed

subsection \<open>What no step of the loop changes\<close>

fun socket_event :: "rt_event \<Rightarrow> bool" where
  "socket_event (Squid_Open _ _ _) = True"
| "socket_event (Squid_Bind _ _ _) = True"
| "socket_event (Squid_Close _) = True"
| "socket_event _ = False"

definition no_sockets :: "rt_event list \<Rightarrow> bool" where
  "no_sockets es \<longleftrightarrow> list_all (\<lambda>e. \<not> socket_event e) es"

lemma no_sockets_simps [simp]:
  "no_sockets []" "no_sockets (e # es) \<longleftrightarrow> \<not> socket_event e \<and> no_sockets es"
  "no_sockets (es @ es') \<longleftrightarrow> no_sockets es \<and> no_sockets es'"
  by (simp_all add: no_sockets_def)

definition keeps :: "server_runtime \<Rightarrow> server_runtime \<Rightarrow> rt_event list \<Rightarrow> bool" where
  "keeps rt rt' es \<longleftrightarrow> plugin_registry rt' = plugin_registry rt \<and> squid_fds rt' = squid_fds rt \<and>
     (\<forall>p. port_inv rt p \<longrightarrow> port_inv rt' p) \<and> no_sockets es"

lemma keeps_refl: "no_sockets es \<Longrightarrow> keeps rt rt es"
  by (simp add: keeps_def)

lemma keeps_trans: "keeps rt rt1 es \<Longrightarrow> keeps rt1 rt2 es' \<Longrightarrow> keeps rt rt2 (es @ es')"
  by (auto simp: keeps_def)

lemma keeps_keep_running: "no_sockets es \<Longrightarrow> keeps rt (rt\<lparr>keep_running := b\<rparr>) es"
  by (simp add: keeps_def)

lemma keeps_reset: "no_sockets es \<Longrightarrow> keeps rt (reset_port_state rt) es"
  by (simp add: keeps_def port_inv_reset) (simp add: reset_port_state_def)

lemma dispatch_port_no_sockets: "ensures (dispatch_port api rt p) (\<lambda>_ es. no_sockets es)"
proof -
  have h: "ensures (handle_request api rt1 p pl) (\<lambda>_ es. no_sockets (es1 @ es))"
    if "no_sockets es1" for rt1 pl es1
    unfolding handle_request_def rt_calls Let_def by (intro io_rules) (use that in auto)
  have r: "ensures (receive_plugin_packet api rt1 p) (\<lambda>_ es. no_sockets es)" for rt1
    unfolding receive_plugin_packet_def receive_header_def receive_body_def Let_def rt_calls
    by (intro io_rules) auto
  have f: "ensures (flush_pending api rt p) (\<lambda>_ es. no_sockets es)"
    unfolding flush_pending_def rt_calls by (intro io_rules) auto
  have r': "ensures (handle_ready api p ready) (\<lambda>_ es. no_sockets es)" for ready
    unfolding handle_ready_def using h [of "[]"] by (intro io_rules) auto
  show ?thesis
    unfolding dispatch_port_def
    by (intro ensures_if ensures_return ensures_bind [OF f] ensures_option ensures_bind [OF r])
       (auto intro!: r')
qed

lemma dispatch_port_keeps: "ensures (dispatch_port api rt q) (keeps rt)"
proof (rule ensures_mono [OF ensures_conj [OF dispatch_port_contained dispatch_port_no_sockets]])
  fix rt' es assume c: "contained q rt rt' es \<and> no_sockets es"
  have "port_inv rt' p" if "port_inv rt p" for p
    using c that by (cases "p = q") (auto simp: contained_def confined_def same_port_def port_inv_def)
  with c show "keeps rt rt' es"
    by (auto simp: keeps_def contained_def confined_def same_globals_def)
qed

lemma ensures_keeps_bind:
  assumes "ensures m (keeps rt)" and "\<And>rt1. ensures (f rt1) (keeps rt1)"
  shows "ensures (State_Monad.bind m f) (keeps rt)"
proof (rule ensures_bind [OF assms(1)])
  fix rt1 es assume st: "keeps rt rt1 es"
  show "ensures (f rt1) (\<lambda>rt2 es'. keeps rt rt2 (es @ es'))"
    by (rule ensures_mono [OF assms(2)]) (rule keeps_trans [OF st])
qed

lemma dispatch_ports_keeps: "ensures (dispatch_ports api rt ports) (keeps rt)"
proof (induction ports arbitrary: rt)
  case Nil
  show ?case by (auto intro!: io_rules simp: keeps_def)
next
  case (Cons q ports)
  show ?case
    unfolding dispatch_ports.simps by (intro ensures_keeps_bind dispatch_port_keeps Cons)
qed

lemma wait_keeps_all: "ensures (wait_for_transport api rt) (keeps rt)"
  unfolding wait_for_transport_def rt_calls
  by (intro io_rules) (auto simp: keeps_def)

lemma ensures_keeps_burst:
  "ensures m (keeps rt) \<Longrightarrow> ensures (State_Monad.bind call_burst (\<lambda>_. m)) (keeps rt)"
  unfolding call_burst_def
  by (rule ensures_query_bind, erule ensures_mono) (simp add: keeps_def)

lemma connected_pass_keeps: "ensures (connected_pass api rt) (keeps rt)"
  unfolding connected_pass_def dispatch_received_packets_def
  by (intro ensures_keeps_burst ensures_keeps_bind dispatch_ports_keeps wait_keeps_all)

lemma loop_step_keeps:
  "ensures (loop_step api pc rt) (\<lambda>r es. keeps rt (snd r) es \<and> (pc \<noteq> Exited \<longrightarrow> es \<noteq> []))"
proof -
  note defs = loop_step_def loop_pc.case read_keep_running_def rt_calls
  have quiet: "keeps rt (rt\<lparr>keep_running := b\<rparr>) es \<and> keeps rt (reset_port_state (rt\<lparr>keep_running := b\<rparr>)) es"
    if "no_sockets es" for b es
    using keeps_trans [OF keeps_keep_running [of "[]"] keeps_reset [OF that]] keeps_keep_running [OF that]
    by simp
  have pass: "ensures (connected_pass api rt1) (\<lambda>rt2 es. keeps rt rt2 (Signal b # Link_Up u # es))"
    if "rt1 = rt\<lparr>keep_running := c\<rparr>" for rt1 b u c
    by (rule ensures_mono [OF connected_pass_keeps]) (simp add: that keeps_def)
  have wait: "ensures (wait_for_transport api rt1)
      (\<lambda>rt2 es. keeps rt rt2 (Signal b # Link_Up u # Burst # es))"
    if "rt1 = rt\<lparr>keep_running := c\<rparr>" for rt1 b u c
    by (rule ensures_mono [OF wait_keeps_all]) (simp add: that keeps_def)
  show ?thesis
  proof (cases pc)
    case Outer
    show ?thesis unfolding Outer defs by (intro io_rules) (auto simp: quiet)
  next
    case Handshake
    show ?thesis unfolding Handshake defs
      by (intro io_rules ensures_bind [OF wait]) (auto simp: quiet)
  next
    case Connected
    show ?thesis unfolding Connected defs
      by (intro io_rules ensures_bind [OF pass]) (auto simp: quiet)
  next
    case Exited
    show ?thesis unfolding Exited defs by (intro io_rules) (simp add: keeps_refl)
  qed
qed

lemma loop_reaches_keeps:
  assumes "loop_reaches api rt0 s0 pc rt s"
  shows "\<exists>es. trace s = trace s0 @ es \<and> keeps rt0 rt es"
  using assms
proof (induction rule: loop_reaches.induct)
  case enter
  then show ?case by (auto intro: keeps_refl)
next
  case (step pc rt s pc' rt' s')
  then obtain es where es: "trace s = trace s0 @ es" "keeps rt0 rt es"
    by auto
  obtain es' where "trace s' = trace s @ es'" "keeps rt rt' es'"
    using ensuresE [OF loop_step_keeps step.hyps(2)] by auto
  with es show ?case
    by (auto intro: keeps_trans)
qed

text \<open>Every session starts with clean ports, so its streams start empty.\<close>

lemma session_starts_served:
  assumes reach: "loop_reaches api rt0 s0 pc rt s" and stable: "link_stable api"
    and clean: "clean rt0" and start: "pc \<noteq> Connected"
    and run: "run_state (loop_step api pc rt) s = ((Connected, rt1), s1)"
    and p: "p \<in> set plugin_ports" "served rt0 p" "port_inv rt0 p"
  shows "served_inv rt1 p \<and> clean_port rt1 p"
proof -
  have "clean rt1"
    using loop_step_inv [OF stable loop_reaches_inv [OF reach stable clean] run] start by simp
  moreover have "\<exists>es. keeps rt0 rt1 es"
    using loop_reaches_keeps [OF loop_reaches.step [OF reach run]] by auto
  ultimately show ?thesis
    using p by (auto simp: clean_def clean_port_def served_inv_def served_def keeps_def)
qed

subsection \<open>Termination\<close>

lemma run_dispatch_loop_keeps:
  "ensures (run_dispatch_loop api fuel pc rt)
     (\<lambda>r es. case r of None \<Rightarrow> no_sockets es | Some rt' \<Rightarrow> keeps rt rt' es)"
proof (induction fuel arbitrary: pc rt)
  case 0
  then show ?case by (cases pc) (auto intro!: io_rules keeps_refl)
next
  case (Suc fuel)
  show ?case
  proof (cases "pc = Exited")
    case True
    then show ?thesis by (auto intro!: io_rules keeps_refl)
  next
    case False
    then have eq: "run_dispatch_loop api (Suc fuel) pc rt = do {
        (pc', rt') \<leftarrow> loop_step api pc rt; run_dispatch_loop api fuel pc' rt' }"
      by (cases pc) simp_all
    show ?thesis
      unfolding eq
      by (rule ensures_bind [OF loop_step_keeps], intro io_rules ensures_mono [OF Suc.IH])
         (auto split: option.splits simp: keeps_def)
  qed
qed

text \<open>A state from which the loop returns in at most two more steps.\<close>

lemma loop_step_stopped:
  assumes "\<not> keep_running rt \<or> signal_arrived api (trace s)"
  shows "let r = fst (run_state (loop_step api pc rt) s) in
    \<not> keep_running (snd r) \<and> fst r = (if pc = Connected then Outer else Exited) \<or> pc = Exited"
  using assms
  by (cases pc) (auto simp: loop_step_def Let_def reset_port_state_def)

lemma run_dispatch_loop_Suc:
  "pc \<noteq> Exited \<Longrightarrow> run_dispatch_loop api (Suc fuel) pc rt =
     State_Monad.bind (loop_step api pc rt) (\<lambda>(pc', rt'). run_dispatch_loop api fuel pc' rt')"
  by (cases pc) simp_all

lemma run_dispatch_loop_stopped:
  assumes "\<not> keep_running rt \<or> signal_arrived api (trace s)"
  shows "pc \<noteq> Connected \<Longrightarrow> \<exists>rt'. fst (run_state (run_dispatch_loop api (Suc fuel) pc rt) s) = Some rt'"
    and "\<exists>rt'. fst (run_state (run_dispatch_loop api (Suc (Suc fuel)) pc rt) s) = Some rt'"
proof -
  have one: "\<exists>rt'. fst (run_state (run_dispatch_loop api (Suc fuel) pc rt) s) = Some rt'"
    if "pc \<noteq> Connected" "\<not> keep_running rt \<or> signal_arrived api (trace s)" for pc rt s fuel
  proof (cases "pc = Exited")
    case False
    then show ?thesis
      using loop_step_stopped [OF that(2), of pc] that(1)
      by (auto simp: run_dispatch_loop_Suc Let_def split_beta)
  qed simp
  show "pc \<noteq> Connected \<Longrightarrow> \<exists>rt'. fst (run_state (run_dispatch_loop api (Suc fuel) pc rt) s) = Some rt'"
    using one assms by blast
  show "\<exists>rt'. fst (run_state (run_dispatch_loop api (Suc (Suc fuel)) pc rt) s) = Some rt'"
  proof (cases "pc = Connected")
    case True
    obtain pc1 rt1 s1 where r: "run_state (loop_step api pc rt) s = ((pc1, rt1), s1)"
      by (metis surj_pair)
    have "pc1 = Outer" "\<not> keep_running rt1"
      using loop_step_stopped [OF assms, of pc] True r by auto
    then show ?thesis
      using one [of Outer rt1 s1 fuel] True r by (simp add: run_dispatch_loop_Suc)
  qed (use one assms in blast)
qed

lemma run_dispatch_loop_returns:
  assumes "\<forall>h. n \<le> length h \<longrightarrow> signal_arrived api h"
    and "n + 2 \<le> length (trace s) + fuel" and "2 \<le> fuel"
  shows "\<exists>rt'. fst (run_state (run_dispatch_loop api fuel pc rt) s) = Some rt'"
  using assms(2,3)
proof (induction fuel arbitrary: pc rt s)
  case (Suc fuel)
  obtain f where f: "fuel = Suc f"
    using Suc.prems by (cases fuel) auto
  consider "pc = Exited" | "n \<le> length (trace s)" | "pc \<noteq> Exited" "\<not> n \<le> length (trace s)"
    by auto
  then show ?case
  proof cases
    case 1
    then show ?thesis by simp
  next
    case 2
    then show ?thesis
      using run_dispatch_loop_stopped(2) [of rt api s f pc] assms(1) f by auto
  next
    case 3
    obtain pc1 rt1 s1 where r: "run_state (loop_step api pc rt) s = ((pc1, rt1), s1)"
      by (metis surj_pair)
    obtain es where es: "trace s1 = trace s @ es" "es \<noteq> []"
      using ensuresE [OF loop_step_keeps r] 3 by auto
    have "\<exists>rt'. fst (run_state (run_dispatch_loop api fuel pc1 rt1) s1) = Some rt'"
      using Suc.prems es 3 by (intro Suc.IH) (cases es; auto)+
    then show ?thesis
      using r 3 by (simp add: run_dispatch_loop_Suc)
  qed
qed simp

subsection \<open>Sockets\<close>

fun opened_socket :: "rt_event \<Rightarrow> int multiset" where
  "opened_socket (Squid_Open _ _ fd) = (if fd \<ge> 0 then {#fd#} else {#})"
| "opened_socket _ = {#}"

fun closed_socket :: "rt_event \<Rightarrow> int multiset" where
  "closed_socket (Squid_Close fd) = {#fd#}"
| "closed_socket _ = {#}"

definition opened_sockets :: "rt_event list \<Rightarrow> int multiset" where
  "opened_sockets es = sum_list (map opened_socket es)"

definition closed_sockets :: "rt_event list \<Rightarrow> int multiset" where
  "closed_sockets es = sum_list (map closed_socket es)"

lemma sockets_simps [simp]:
  "opened_sockets [] = {#}" "opened_sockets (e # es) = opened_socket e + opened_sockets es"
  "opened_sockets (es @ es') = opened_sockets es + opened_sockets es'"
  "closed_sockets [] = {#}" "closed_sockets (e # es) = closed_socket e + closed_sockets es"
  "closed_sockets (es @ es') = closed_sockets es + closed_sockets es'"
  by (simp_all add: opened_sockets_def closed_sockets_def)

lemma no_sockets_none: "no_sockets es \<Longrightarrow> opened_sockets es = {#} \<and> closed_sockets es = {#}"
proof (induction es)
  case (Cons e es)
  then show ?case by (cases e) auto
qed simp

definition held_sockets :: "server_runtime \<Rightarrow> u8 list \<Rightarrow> int multiset" where
  "held_sockets rt ports = mset (filter (\<lambda>fd. fd \<ge> 0) (map (squid_fds rt) ports))"

lemma held_sockets_simps [simp]:
  "held_sockets rt [] = {#}"
  "held_sockets rt (p # ps) =
     (if squid_fds rt p \<ge> 0 then {#squid_fds rt p#} else {#}) + held_sockets rt ps"
  by (simp_all add: held_sockets_def)

lemma held_sockets_cong:
  "(\<And>p. p \<in> set ps \<Longrightarrow> squid_fds rt p = squid_fds rt' p) \<Longrightarrow> held_sockets rt ps = held_sockets rt' ps"
  by (simp add: held_sockets_def cong: map_cong)

lemma distinct_plugin_ports: "distinct plugin_ports"
  by (simp add: plugin_ports_def upt_rec)

definition opens :: "u8 list \<Rightarrow> server_runtime \<Rightarrow> server_runtime \<Rightarrow> rt_event list \<Rightarrow> bool" where
  "opens ports rt rt' es \<longleftrightarrow>
     (\<exists>fds. rt' = rt\<lparr>squid_fds := fds\<rparr> \<and>
       (\<forall>q. q \<notin> set ports \<longrightarrow> fds q = squid_fds rt q) \<and>
       (\<forall>q \<in> set ports. fds q \<ge> 0 \<longrightarrow> find_server_plugin (plugin_registry rt) q \<noteq> None)) \<and>
     opened_sockets es = closed_sockets es + held_sockets rt' ports"

lemma open_plugin_socket_opens:
  assumes "squid_fds rt p < 0"
  shows "ensures (open_plugin_socket api rt p) (opens [p] rt)"
  unfolding open_plugin_socket_def rt_calls
  by (intro io_rules) (use assms in \<open>auto simp: opens_def intro: exI [of _ "squid_fds rt"]\<close>)

lemma open_sockets_opens:
  assumes "distinct ports" and "\<forall>p \<in> set ports. squid_fds rt p < 0"
  shows "ensures (open_sockets api rt ports) (opens ports rt)"
  using assms
proof (induction ports arbitrary: rt)
  case Nil
  then show ?case by (auto intro!: io_rules simp: opens_def intro: exI [of _ "squid_fds rt"])
next
  case (Cons p ports)
  have "ensures (open_sockets api rt1 ports) (\<lambda>rt2 es'. opens (p # ports) rt rt2 (es @ es'))"
    if first: "opens [p] rt rt1 es" for rt1 es
  proof (rule ensures_mono [OF Cons.IH])
    show "distinct ports" "\<forall>q \<in> set ports. squid_fds rt1 q < 0"
      using first Cons.prems by (auto simp: opens_def)
    fix rt2 es' assume "opens ports rt1 rt2 es'"
    with first Cons.prems show "opens (p # ports) rt rt2 (es @ es')"
      by (auto simp: opens_def)
  qed
  then show ?case
    unfolding open_sockets.simps
    using Cons.prems by (intro ensures_bind [OF open_plugin_socket_opens]) auto
qed

definition closes :: "u8 list \<Rightarrow> server_runtime \<Rightarrow> server_runtime \<Rightarrow> rt_event list \<Rightarrow> bool" where
  "closes ports rt rt' es \<longleftrightarrow>
     opened_sockets es = {#} \<and> closed_sockets es = held_sockets rt ports \<and>
     (\<forall>p \<in> set ports. squid_fds rt' p < 0) \<and>
     (\<forall>q. q \<notin> set ports \<longrightarrow> squid_fds rt' q = squid_fds rt q)"

lemma close_sockets_closes:
  "distinct ports \<Longrightarrow> ensures (close_sockets rt ports) (closes ports rt)"
proof (induction ports arbitrary: rt)
  case Nil
  then show ?case by (auto intro!: io_rules simp: closes_def)
next
  case (Cons p ports)
  have same: "held_sockets (rt\<lparr>squid_fds := (squid_fds rt)(p := -1)\<rparr>) ports = held_sockets rt ports"
    using Cons.prems by (intro held_sockets_cong) auto
  show ?case
    unfolding close_sockets.simps rt_calls
    by (intro io_rules ensures_mono [OF Cons.IH])
       (use Cons.prems same in \<open>auto simp: closes_def\<close>)
qed

lemma serve_contract:
  assumes "\<forall>p. squid_fds rt p < 0"
  shows "ensures (serve api fuel rt) (\<lambda>r es. r \<noteq> None \<longrightarrow>
    opened_sockets es = closed_sockets es \<and> (\<forall>p. squid_fds (the r) p < 0))"
proof -
  have close: "ensures (close_sockets rt2 plugin_ports) (\<lambda>rt3 es3. opened_sockets (es1 @ es2 @ es3) =
        closed_sockets (es1 @ es2 @ es3) \<and> (\<forall>p. squid_fds rt3 p < 0))"
    if op: "opens plugin_ports rt rt1 es1" and keep: "keeps rt1 rt2 es2" for rt1 rt2 es1 es2
  proof (rule ensures_mono [OF close_sockets_closes [OF distinct_plugin_ports]])
    fix rt3 es3 assume cl: "closes plugin_ports rt2 rt3 es3"
    have "squid_fds rt2 = squid_fds rt1" "no_sockets es2"
      using keep by (simp_all add: keeps_def)
    then show "opened_sockets (es1 @ es2 @ es3) = closed_sockets (es1 @ es2 @ es3) \<and>
        (\<forall>p. squid_fds rt3 p < 0)"
      using op cl assms no_sockets_none [of es2] held_sockets_cong [of plugin_ports rt1 rt2]
      by (force simp: opens_def closes_def)
  qed
  show ?thesis
    unfolding serve_def open_plugin_sockets_def close_plugin_sockets_def
    by (rule ensures_bind [OF open_sockets_opens [OF distinct_plugin_ports]], use assms in simp,
        rule ensures_bind [OF run_dispatch_loop_keeps],
        intro io_rules ensures_bind [OF close]) auto
qed

subsection \<open>Properties\<close>

text \<open>
  C1. A session refines the framing specification. In every run of the dispatch loop, for every
  behaviour of libsquid and of the plugin on port \<open>p\<close>, and for every session that the loop has
  entered from the handshake: the packets handed to the plugin are, in order, exactly the
  packets \<open>deframe\<close> finds in the bytes received on the port since the session began, however
  the stream was cut, and the incomplete rest is what the runtime holds; and the bytes libsquid
  has accepted for sending, followed by the response still pending, are exactly the framed
  responses of the plugin. Nothing is lost, duplicated or reordered in either direction, and
  nothing is left over from an earlier session.
\<close>

theorem session_refines_deframe:
  assumes "link_stable api" and "clean rt0" and "p \<in> set plugin_ports"
    and "served rt0 p" and "port_inv rt0 p"
    and "loop_reaches api rt0 s0 Handshake rt s"
    and "run_state (loop_step api Handshake rt) s = ((Connected, rt1), s1)"
    and "session api rt1 s1 rt' s'"
  shows "\<exists>es. trace s' = trace s1 @ es \<and>
    deframe (received p es) = (requests p es, partial rt' p) \<and>
    concat (map frame (responses p es)) = sent p es @ pending rt' p"
proof -
  have start: "served_inv rt1 p \<and> clean_port rt1 p"
    using assms by (intro session_starts_served [of api rt0 s0 Handshake rt s]) auto
  then obtain es where "trace s' = trace s1 @ es" "session_step p rt1 rt' es"
    using session_streams assms by blast
  then show ?thesis
    using clean_port_streams [of rt1 p] start
    by (intro exI [of _ es]) (simp add: session_step_def port_streams_def)
qed

subsection \<open>A concrete run\<close>

text \<open>A peer that sends one packet in one go, and an echoing plugin on port 1.\<close>

definition demo_plugin :: server_plugin where
  "demo_plugin = \<lparr>plugin_name = Some (ascii ''echo''), plugin_context = None, start = None,
     stop = None, handle_packet = Some 0\<rparr>"

definition demo_api :: rt_api where
  "demo_api = \<lparr>squid_open = (\<lambda>h _ _. 3), squid_bind = (\<lambda>h _ _. 0),
     squid_recv = (\<lambda>h fd n. Some (take n (drop (length (received 1 h)) [2, 7, 9]))),
     squid_send = (\<lambda>h _ _. True), snet_link_is_up = (\<lambda>h. True),
     transport_wait = (\<lambda>h. Inr 1), signal_arrived = (\<lambda>h. 30 \<le> length h),
     run_handler = (\<lambda>h _ _ request. \<lparr>reply_ret = 0, reply_moved = False,
       reply_size = length request, reply_byte = (\<lambda>i. request ! i)\<rparr>)\<rparr>"

definition demo_runtime :: server_runtime where
  "demo_runtime = init_server_runtime\<lparr>
     plugin_registry := init_server_plugin_registry[1 := \<lparr>port_number = 1, plugin = Some demo_plugin\<rparr>],
     squid_fds := (\<lambda>p. if p = 1 then 3 else -1)\<rparr>"

definition demo_env :: "rt_event env" where
  "demo_env = \<lparr>trace = [], c_errno = EIO\<rparr>"

fun demo_steps :: "nat \<Rightarrow> (loop_pc \<times> server_runtime) \<times> rt_event env" where
  "demo_steps 0 = ((Outer, demo_runtime), demo_env)"
| "demo_steps (Suc n) = (case demo_steps n of ((pc, rt), s) \<Rightarrow> run_state (loop_step demo_api pc rt) s)"

abbreviation "demo_pc n \<equiv> fst (fst (demo_steps n))"
abbreviation "demo_rt n \<equiv> snd (fst (demo_steps n))"
abbreviation "demo_s n \<equiv> snd (demo_steps n)"

lemma demo_step:
  "run_state (loop_step demo_api (demo_pc n) (demo_rt n)) (demo_s n) =
     ((demo_pc (Suc n), demo_rt (Suc n)), demo_s (Suc n))"
  by (cases "demo_steps n") (auto split: prod.splits)

lemma demo_reaches: "loop_reaches demo_api demo_runtime demo_env (demo_pc n) (demo_rt n) (demo_s n)"
proof (induction n)
  case 0
  show ?case by (simp add: loop_reaches.enter)
next
  case (Suc n)
  then show ?case using loop_reaches.step demo_step by blast
qed

lemma demo_pcs: "demo_pc 1 = Handshake" "demo_pc 2 = Connected" "demo_pc 3 = Connected"
  by code_simp+

theorem session_refines_deframe_witness:
  "\<exists>es. trace (demo_s 3) = trace (demo_s 2) @ es \<and>
    deframe (received 1 es) = (requests 1 es, partial (demo_rt 3) 1) \<and>
    concat (map frame (responses 1 es)) = sent 1 es @ pending (demo_rt 3) 1"
proof (rule session_refines_deframe [of demo_api demo_runtime 1 demo_env "demo_rt 1" "demo_s 1"])
  show "link_stable demo_api" by (simp add: link_stable_def demo_api_def)
  show "clean demo_runtime"
    by (simp add: clean_def clean_port_def demo_runtime_def init_server_runtime_def)
  show "1 \<in> set plugin_ports" by code_simp
  show "served demo_runtime 1" by code_simp
  show "port_inv demo_runtime 1" by code_simp
  show "loop_reaches demo_api demo_runtime demo_env Handshake (demo_rt 1) (demo_s 1)"
    using demo_reaches [of 1] by (simp only: demo_pcs)
  show "run_state (loop_step demo_api Handshake (demo_rt 1)) (demo_s 1) =
      ((Connected, demo_rt 2), demo_s 2)"
    using demo_step [of 1] demo_pcs by (simp only: Suc_1)
  show "session demo_api (demo_rt 2) (demo_s 2) (demo_rt 3) (demo_s 3)"
    using session.step [OF session.start] demo_step [of 2] demo_pcs
    by (simp only: eval_nat_numeral)
qed
lemma serve_returns:
  assumes "\<forall>h. n \<le> length h \<longrightarrow> signal_arrived api h" and "n + 2 \<le> fuel"
  shows "\<exists>rt' s'. run_state (serve api fuel rt) s = (Some rt', s')"
proof -
  obtain rt1 s1 where op: "run_state (open_plugin_sockets api rt) s = (rt1, s1)"
    by (metis surj_pair)
  obtain rt2 where "fst (run_state (run_dispatch_loop api fuel Outer rt1) s1) = Some rt2"
    using run_dispatch_loop_returns [OF assms(1), of s1 fuel Outer rt1] assms(2) by auto
  then show ?thesis
    by (auto simp: serve_def op split_beta)
qed

lemma serve_ends:
  assumes "\<forall>h. n \<le> length h \<longrightarrow> signal_arrived api h" and "n + 2 \<le> fuel"
    and "\<forall>p. squid_fds rt p < 0"
  shows "ensures (serve api fuel rt) (\<lambda>r es. r \<noteq> None \<and>
    opened_sockets es = closed_sockets es \<and> (\<forall>p. squid_fds (the r) p < 0))"
proof (rule ensuresI)
  fix s
  obtain rt' s' where run: "run_state (serve api fuel rt) s = (Some rt', s')"
    using serve_returns [OF assms(1,2)] by blast
  show "\<exists>es. trace (snd (run_state (serve api fuel rt) s)) = trace s @ es \<and>
      fst (run_state (serve api fuel rt) s) \<noteq> None \<and> opened_sockets es = closed_sockets es \<and>
      (\<forall>p. squid_fds (the (fst (run_state (serve api fuel rt) s))) p < 0)"
    using ensuresE [OF serve_contract [OF assms(3)] run] by (auto simp: run)
qed

text \<open>
  C3. The loop ends and releases what it took. Once a termination signal has arrived (at the
  latest when the trace has \<open>n\<close> events), \<open>n + 2\<close> turns of the loop are enough for the server
  to leave it, whatever libsquid, the transport and the plugins do; and then every socket that
  was opened has been closed, exactly once.
\<close>

theorem serve_returns_and_closes:
  assumes "\<forall>h. n \<le> length h \<longrightarrow> signal_arrived api h"
    and "n + 2 \<le> fuel" and "\<forall>p. squid_fds rt p < 0"
  shows "\<exists>rt' s' es. run_state (serve api fuel rt) s = (Some rt', s') \<and> trace s' = trace s @ es \<and>
    opened_sockets es = closed_sockets es \<and> (\<forall>p. squid_fds rt' p < 0)"
proof -
  obtain rt' s' where run: "run_state (serve api fuel rt) s = (Some rt', s')"
    using serve_returns [OF assms(1,2)] by blast
  show ?thesis
    using ensuresE [OF serve_ends [OF assms] run] run by auto
qed

theorem serve_returns_and_closes_witness:
  "\<exists>rt' s' es. run_state (serve demo_api 32 (demo_runtime\<lparr>squid_fds := \<lambda>_. -1\<rparr>)) demo_env =
      (Some rt', s') \<and> trace s' = trace demo_env @ es \<and>
    opened_sockets es = closed_sockets es \<and> (\<forall>p. squid_fds rt' p < 0)"
  by (rule serve_returns_and_closes [of 30]) (simp_all add: demo_api_def)

text \<open>
  Backpressure. While a response is pending on a port, a pass over the port begins by
  offering exactly the pending bytes to libsquid; if libsquid has no room, that is all the pass
  does: no request byte is read, no plugin is called, and the pending response is kept as it is.
\<close>

theorem pending_response_first:
  assumes "0 < pending_response_sizes rt p" and "0 \<le> squid_fds rt p"
    and "run_state (dispatch_port api rt p) s = (rt', s')"
  shows "\<exists>ok es. trace s' = trace s @ Send p (squid_fds rt p) (pending rt p) ok # es \<and>
    (\<not> ok \<longrightarrow> es = [] \<and> rt' = rt)"
proof -
  have blocked: "ensures (dispatch_port api rt p) (\<lambda>rt' es. \<exists>ok es'.
      es = Send p (squid_fds rt p) (pending rt p) ok # es' \<and> (\<not> ok \<longrightarrow> es' = [] \<and> rt' = rt))"
    unfolding dispatch_port_def
    by (intro ensures_if ensures_bind [OF flush_pending_contract] ensures_option ensures_return
        ensures_mono [OF receive_dispatch_contained])
       (use assms in \<open>auto simp: flushed_def\<close>)
  from ensuresE [OF this assms(3)] show ?thesis by metis
qed

theorem pending_response_first_witness:
  "let rt = demo_runtime\<lparr>pending_response_sizes := \<lambda>_. 3\<rparr>;
       api = demo_api\<lparr>squid_send := \<lambda>_ _ _. False\<rparr>;
       (rt', s') = run_state (dispatch_port api rt 1) demo_env
   in \<exists>ok es. trace s' = trace demo_env @ Send 1 (squid_fds rt 1) (pending rt 1) ok # es \<and>
     (\<not> ok \<longrightarrow> es = [] \<and> rt' = rt)"
  unfolding Let_def split_beta
  by (rule pending_response_first) (simp_all add: demo_runtime_def)

text \<open>
  C29. Buffers. Whatever the peer sends and the plugins answer, in every state the dispatch loop
  reaches every port's buffers have their declared sizes, a declared packet length is at most
  255, the bytes collected never exceed it, and a pending frame fits its buffer.
\<close>

theorem port_inv_reachable:
  assumes "loop_reaches api rt0 s0 pc rt s" and "port_inv rt0 p"
  shows "port_inv rt p"
  using loop_reaches_keeps [OF assms(1)] assms(2) by (auto simp: keeps_def)

theorem port_inv_reachable_witness: "port_inv (demo_rt 3) 1"
  using port_inv_reachable [OF demo_reaches [of 3], of 1] by (simp add: port_inv_def demo_runtime_def init_server_runtime_def)

end
