(* ===== verification/Server_Startup.thy ===== *)
theory Server_Startup
  imports Config_Render Runtime_Loop
begin

text \<open>
  The start of the server: \<open>load_configured_plugins\<close> of \<open>src/runtime/server_runtime.c\<close>, which
  reads the configuration and loads the system plugin and the mapped plugins in file order, and
  the unloading that every exit of \<open>run_server_runtime\<close> performs.
\<close>

definition load_error_size :: nat where "load_error_size = 512"

record startup_result =
  startup_ok :: bool
  startup_config :: server_plugin_config_file
  startup_loader :: server_plugin_loader
  startup_registry :: plugin_registry

definition write_plugin_load_log ::
  "log_level \<Rightarrow> u8 \<Rightarrow> bytes \<Rightarrow> bytes \<Rightarrow> (dl_event, unit) io" where
  "write_plugin_load_log level port path message =
     query (\<lambda>_. ()) (\<lambda>_. Plugin_Log level port path message)"

text \<open>One \<open>load_server_plugin\<close> call with the logging around it.\<close>

definition load_logged ::
  "dl_api \<Rightarrow> bytes option \<Rightarrow> server_plugin_loader \<Rightarrow> plugin_registry \<Rightarrow> u8 \<Rightarrow> bytes \<Rightarrow>
     (dl_event, load_result) io" where
  "load_logged dl stage_root loader registry port path = do {
     r \<leftarrow> load_server_plugin dl stage_root load_error_size loader registry port path;
     _ \<leftarrow> (if load_ok r then write_plugin_load_log server_log_level_info port path (ascii ''loaded'')
           else write_plugin_load_log server_log_level_error port path (load_error r));
     State_Monad.return r }"

fun load_mappings ::
  "dl_api \<Rightarrow> bytes option \<Rightarrow> server_plugin_loader \<Rightarrow> plugin_registry \<Rightarrow> server_plugin_mapping list \<Rightarrow>
     (dl_event, bool \<times> server_plugin_loader \<times> plugin_registry) io" where
  "load_mappings dl stage_root loader registry [] = State_Monad.return (True, loader, registry)"
| "load_mappings dl stage_root loader registry (mapping # rest) = do {
     r \<leftarrow> load_logged dl stage_root loader registry (mapping_port mapping) (mapping_path mapping);
     if \<not> load_ok r then State_Monad.return (False, load_loader r, load_registry r)
     else load_mappings dl stage_root (load_loader r) (load_registry r) rest }"

definition load_configured_plugins ::
  "dl_api \<Rightarrow> bytes option \<Rightarrow> (bytes \<Rightarrow> bytes option) \<Rightarrow> bytes option \<Rightarrow>
     (dl_event, startup_result) io" where
  "load_configured_plugins dl stage_root fopen file_path =
     (case parse_server_plugin_config_file fopen file_path of
        Inl message \<Rightarrow> do {
          _ \<leftarrow> query (\<lambda>_. ()) (\<lambda>_. Config_Log message);
          State_Monad.return \<lparr>startup_ok = False, startup_config = init_server_plugin_config_file,
            startup_loader = [], startup_registry = init_server_plugin_registry\<rparr> }
      | Inr config \<Rightarrow> do {
          r \<leftarrow> load_logged dl stage_root [] init_server_plugin_registry server_system_port
            (system_plugin_path config);
          if \<not> load_ok r then State_Monad.return \<lparr>startup_ok = False, startup_config = config,
            startup_loader = load_loader r, startup_registry = load_registry r\<rparr>
          else do {
            (ok, loader, registry) \<leftarrow>
              load_mappings dl stage_root (load_loader r) (load_registry r) (mappings config);
            State_Monad.return \<lparr>startup_ok = ok, startup_config = config,
              startup_loader = loader, startup_registry = registry\<rparr> } })"

text \<open>Start and stop, as every path through \<open>run_server_runtime\<close> that gets this far does.\<close>

definition start_and_stop ::
  "dl_api \<Rightarrow> bytes option \<Rightarrow> (bytes \<Rightarrow> bytes option) \<Rightarrow> bytes option \<Rightarrow>
     (dl_event, startup_result \<times> server_plugin_loader \<times> plugin_registry) io" where
  "start_and_stop dl stage_root fopen file_path = do {
     r \<leftarrow> load_configured_plugins dl stage_root fopen file_path;
     final \<leftarrow> unload_server_plugins dl (startup_loader r) (startup_registry r);
     State_Monad.return (r, final) }"

subsection \<open>Contracts\<close>

definition loading :: "server_plugin_loader \<Rightarrow> server_plugin_loader \<Rightarrow> plugin_registry \<Rightarrow>
    dl_event list \<Rightarrow> bool" where
  "loading loader loader' registry' es \<longleftrightarrow> loader_inv loader' registry' \<and>
     opened_handles es + held_handles loader = closed_handles es + held_handles loader' \<and>
     stopped_plugins es = []"

lemma load_logged_contract:
  assumes "loader_inv loader registry"
  shows "ensures (load_logged dl stage_root loader registry port path) (load_contract loader registry port)"
  unfolding load_logged_def write_plugin_load_log_def
  by (rule ensures_bind [OF load_server_plugin_contract [OF assms]], intro io_rules)
     (auto simp: load_contract_def)

lemma load_mappings_contract:
  assumes "loader_inv loader registry"
  shows "ensures (load_mappings dl stage_root loader registry ms) (\<lambda>(ok, loader', registry') es.
    loading loader loader' registry' es \<and>
    (if ok then map loaded_port loader' = map loaded_port loader @ map mapping_port ms
     else \<exists>n < length ms. map loaded_port loader' = map loaded_port loader @ map mapping_port (take n ms)))"
  using assms
proof (induction ms arbitrary: loader registry)
  case Nil
  then show ?case by (auto intro!: io_rules simp: loading_def)
next
  case (Cons m ms)
  let ?Q = "\<lambda>ms loader (ok, loader', registry') es. loading loader loader' registry' es \<and>
    (if ok then map loaded_port loader' = map loaded_port loader @ map mapping_port ms
     else \<exists>n < length ms. map loaded_port loader' = map loaded_port loader @ map mapping_port (take n ms))"
  have rest: "ensures (load_mappings dl stage_root (load_loader r) (load_registry r) ms)
      (\<lambda>x es'. ?Q (m # ms) loader x (es @ es'))"
    if "load_ok r" "load_contract loader registry (mapping_port m) r es" for r es
  proof (rule ensures_mono [OF Cons.IH])
    show "loader_inv (load_loader r) (load_registry r)"
      using that by (simp add: load_contract_def)
    fix x es' assume "?Q ms (load_loader r) x es'"
    then show "?Q (m # ms) loader x (es @ es')"
      using that
      by (auto simp: load_contract_def loading_def split: if_splits intro: ledger_trans)
         (metis Suc_less_eq append.assoc append_Cons append_Nil list.simps(9) take_Suc_Cons)
  qed
  show ?case
    unfolding load_mappings.simps
    by (rule ensures_bind [OF load_logged_contract [OF Cons.prems]], intro io_rules rest)
       (auto simp: load_contract_def loading_def intro: exI [of _ 0])
qed

definition startup_contract :: "startup_result \<Rightarrow> dl_event list \<Rightarrow> bool" where
  "startup_contract r es \<longleftrightarrow> loading [] (startup_loader r) (startup_registry r) es \<and>
     (startup_ok r \<longrightarrow> map loaded_port (startup_loader r) =
        server_system_port # map mapping_port (mappings (startup_config r)))"

lemma load_configured_plugins_contract:
  "ensures (load_configured_plugins dl stage_root fopen path) startup_contract"
proof -
  have maps: "ensures (load_mappings dl stage_root (load_loader r) (load_registry r) ms)
      (\<lambda>(ok, loader, registry) es'. loading [] loader registry (es @ es') \<and>
         (ok \<longrightarrow> map loaded_port loader = server_system_port # map mapping_port ms))"
    if "load_ok r" "load_contract [] init_server_plugin_registry server_system_port r es" for r es ms
    by (rule ensures_mono [OF load_mappings_contract])
       (use that in \<open>auto simp: load_contract_def loading_def split: if_splits intro: ledger_trans\<close>)
  show ?thesis
    unfolding load_configured_plugins_def
    by (intro ensures_sum io_rules ensures_bind [OF load_logged_contract [OF loader_inv_init]]
          ensures_bind [OF maps])
       (auto simp: startup_contract_def loading_def load_contract_def loader_inv_init held_handles_def)
qed

text \<open>
  C4. Start and stop balance. For every configuration file and every behaviour of the dynamic
  linker and of the plugins, whether start-up succeeds or fails half way: after the unloading
  every library that was opened has been closed exactly once, no plugin is left registered, and
  the plugins that were running have been stopped, in the reverse of the order in which they
  were loaded. If start-up succeeded, these were the system plugin and then the mapped plugins
  in the order of the configuration file.
\<close>

theorem start_and_stop_balanced:
  "ensures (start_and_stop dl stage_root fopen path) (\<lambda>(r, loader, registry) es.
     opened_handles es = closed_handles es \<and> loader = [] \<and>
     find_server_plugin registry = (\<lambda>_. None) \<and>
     stopped_plugins es = filter (\<lambda>p. stop p \<noteq> None) (rev (map loaded_plugin (startup_loader r))) \<and>
     (startup_ok r \<longrightarrow> map loaded_port (startup_loader r) =
        server_system_port # map mapping_port (mappings (startup_config r))))"
proof -
  have un: "ensures (unload_server_plugins dl (startup_loader r) (startup_registry r))
      (\<lambda>(loader, registry) es'. opened_handles (es @ es') = closed_handles (es @ es') \<and> loader = [] \<and>
         find_server_plugin registry = (\<lambda>_. None) \<and>
         stopped_plugins (es @ es') =
           filter (\<lambda>p. stop p \<noteq> None) (rev (map loaded_plugin (startup_loader r))))"
    if "startup_contract r es" for r es
    by (rule ensures_mono [OF unload_server_plugins_contract])
       (use that in \<open>auto simp: startup_contract_def loading_def held_handles_def fun_eq_iff
          loader_inv_Nil_find\<close>)
  show ?thesis
    unfolding start_and_stop_def
    by (intro ensures_bind [OF load_configured_plugins_contract] ensures_bind [OF un] io_rules)
       (auto simp: startup_contract_def)
qed

definition demo_dl :: dl_api where
  "demo_dl = \<lparr>dl_open = (\<lambda>_ _. Some 1), dl_error = (\<lambda>_. None), dl_sym = (\<lambda>_ _ _. Some 2),
     dl_factory = (\<lambda>_ _. Some demo_plugin), dl_start = (\<lambda>_ _. 0), dl_stop = (\<lambda>_ _. 0),
     dl_close = (\<lambda>_ _. 0)\<rparr>"

definition demo_startup ::
  "(startup_result \<times> server_plugin_loader \<times> plugin_registry) \<times> dl_event env" where
  "demo_startup = run_state (start_and_stop demo_dl None (\<lambda>_. Some []) (Some []))
     \<lparr>trace = [], c_errno = E_OK\<rparr>"

lemma demo_startup_ok: "startup_ok (fst (fst demo_startup))"
  by code_simp

theorem start_and_stop_balanced_witness:
  "map loaded_port (startup_loader (fst (fst demo_startup))) =
     server_system_port # map mapping_port (mappings (startup_config (fst (fst demo_startup)))) \<and>
   opened_handles (trace (snd demo_startup)) = closed_handles (trace (snd demo_startup))"
proof -
  obtain r loader registry s where run: "demo_startup = ((r, loader, registry), s)"
    by (metis surj_pair)
  show ?thesis
    using ensuresE [OF start_and_stop_balanced run [unfolded demo_startup_def]] demo_startup_ok
    by (simp add: run) metis
qed

end
