(* ===== verification/Transports.thy ===== *)
theory Transports
  imports Effects "HOL-Library.Multiset"
begin

text \<open>
  The two transports under libsquid, \<open>src/transport/serial/serial_transport.c\<close> and
  \<open>src/transport/local/local_transport.c\<close>. The kernel is the oracle \<open>tr_api\<close>. libsquid reaches a
  transport through platform hooks without a context pointer, so each file has a module-level
  variable for the active endpoint: for the serial transport it is the argument \<open>active\<close> of the
  hooks, \<open>None\<close> for a null pointer, and for the local one the argument \<open>transport_fd\<close>.

  \<open>termios\<close> flags are sets of the names POSIX gives them; the character size, a field of
  \<open>c_cflag\<close> under the mask \<open>CSIZE\<close>, is a component of its own. \<open>EWOULDBLOCK\<close> is \<open>EAGAIN\<close>, as on
  Linux. \<open>poll\<close> on one descriptor returns the events that are ready, none on a timeout. Loops
  that repeat an interrupted call take fuel, and \<open>None\<close> is running out of it.
\<close>

subsection \<open>The kernel\<close>

datatype poll_flag = POLLIN | POLLOUT | POLLERR | POLLHUP | POLLNVAL

datatype speed = B1200 | B2400 | B4800 | B9600 | B19200 | B38400 | B57600 | B115200 | B_other nat

datatype character_size = CS5 | CS6 | CS7 | CS8

datatype tty_flag = PARENB | PARODD | CSTOPB | CRTSCTS | CREAD | CLOCAL
  | IXON | IXOFF | IXANY | ICRNL | INLCR | ICANON | ECHO | ECHOE | ISIG | OPOST | ONLCR
  | Other_flag nat

record termios =
  c_ispeed :: speed
  c_ospeed :: speed
  c_csize :: character_size
  c_cflag :: "tty_flag set"
  c_iflag :: "tty_flag set"
  c_lflag :: "tty_flag set"
  c_oflag :: "tty_flag set"
  c_vmin :: u8
  c_vtime :: u8

datatype tr_event =
    Open_Tty bytes "errno + nat"
  | Tcgetattr int "errno + termios"
  | Tcsetattr int termios "errno + unit"
  | Read_Char int "errno + u8 option"
  | Write_Bytes int bytes "errno + nat"
  | Poll_Ready int "poll_flag list" int "errno + poll_flag list"
  | Unix_Socket "errno + nat"
  | Unlink bytes
  | Bind int bytes "errno + unit"
  | Listen int "errno + unit"
  | Accept int "errno + nat"
  | Accept_Waits int
  | Connect int bytes "errno + unit"
  | Send_One int u8 "errno + nat"
  | Recv_One int "errno + u8 option"
  | Close_Fd int

record tr_api =
  k_open :: "tr_event list \<Rightarrow> bytes \<Rightarrow> errno + nat"
  k_tcgetattr :: "tr_event list \<Rightarrow> int \<Rightarrow> errno + termios"
  k_tcsetattr :: "tr_event list \<Rightarrow> int \<Rightarrow> termios \<Rightarrow> errno + unit"
  k_read :: "tr_event list \<Rightarrow> int \<Rightarrow> errno + u8 option"
  k_write :: "tr_event list \<Rightarrow> int \<Rightarrow> bytes \<Rightarrow> errno + nat"
  k_poll :: "tr_event list \<Rightarrow> int \<Rightarrow> poll_flag list \<Rightarrow> int \<Rightarrow> errno + poll_flag list"
  k_socket :: "tr_event list \<Rightarrow> errno + nat"
  k_bind :: "tr_event list \<Rightarrow> int \<Rightarrow> bytes \<Rightarrow> errno + unit"
  k_listen :: "tr_event list \<Rightarrow> int \<Rightarrow> errno + unit"
  k_accept :: "tr_event list \<Rightarrow> int \<Rightarrow> (errno + nat) option"
  k_connect :: "tr_event list \<Rightarrow> int \<Rightarrow> bytes \<Rightarrow> errno + unit"
  k_send :: "tr_event list \<Rightarrow> int \<Rightarrow> u8 \<Rightarrow> errno + nat"
  k_recv :: "tr_event list \<Rightarrow> int \<Rightarrow> errno + u8 option"

definition close_fd :: "int \<Rightarrow> (tr_event, unit) io" where
  "close_fd fd = query (\<lambda>_. ()) (\<lambda>_. Close_Fd fd)"

text \<open>\<open>write\<close> accepts at most the bytes it is given.\<close>

definition write_bytes :: "tr_api \<Rightarrow> int \<Rightarrow> bytes \<Rightarrow> (tr_event, nat option) io" where
  "write_bytes api fd bs =
     syscall (\<lambda>h. map_sum id (min (length bs)) (k_write api h fd bs)) (Write_Bytes fd bs)"

text \<open>The \<open>do\<close> loop around \<open>poll\<close>; \<open>Some None\<close> is the return value \<open>-1\<close>.\<close>

fun poll_again ::
  "tr_api \<Rightarrow> nat \<Rightarrow> int \<Rightarrow> poll_flag list \<Rightarrow> int \<Rightarrow> (tr_event, poll_flag list option option) io" where
  "poll_again api 0 fd events timeout_ms = State_Monad.return None"
| "poll_again api (Suc fuel) fd events timeout_ms = do {
     result \<leftarrow> syscall (\<lambda>h. k_poll api h fd events timeout_ms) (Poll_Ready fd events timeout_ms);
     case result of
       Some revents \<Rightarrow> State_Monad.return (Some (Some revents))
     | None \<Rightarrow> do {
         e \<leftarrow> get_errno;
         if e = EINTR then poll_again api fuel fd events timeout_ms
         else State_Monad.return (Some None) } }"

definition poll_failed :: "poll_flag list \<Rightarrow> bool" where
  "poll_failed revents \<longleftrightarrow> POLLERR \<in> set revents \<or> POLLHUP \<in> set revents \<or> POLLNVAL \<in> set revents"

text \<open>
  The clock hooks, the same in both files: \<open>tv_sec\<close> and \<open>tv_nsec\<close> of \<open>CLOCK_MONOTONIC\<close>, in the
  arithmetic of a 64 bit \<open>unsigned long\<close>.
\<close>

definition serial_get_tick :: "int \<Rightarrow> int \<Rightarrow> u8" where
  "serial_get_tick tv_sec tv_nsec =
     ucast ((word_of_int tv_sec * 50 + (word_of_int tv_nsec :: 64 word) div 20000000) AND 0xFF)"

definition local_get_tick :: "int \<Rightarrow> int \<Rightarrow> u8" where
  "local_get_tick tv_sec tv_nsec =
     ucast ((word_of_int tv_sec * 50 + (word_of_int tv_nsec :: 64 word) div 20000000) AND 0xFF)"

subsection \<open>Serial: state\<close>

definition serial_transport_device_path_max :: nat where "serial_transport_device_path_max = 64"
definition serial_transport_tx_capacity :: nat where "serial_transport_tx_capacity = 4096"
definition serial_parity_none :: int where "serial_parity_none = 0"
definition serial_parity_even :: int where "serial_parity_even = 1"
definition serial_parity_odd :: int where "serial_parity_odd = 2"
definition serial_flow_none :: int where "serial_flow_none = 0"
definition serial_flow_rtscts :: int where "serial_flow_rtscts = 1"
definition serial_flow_xonxoff :: int where "serial_flow_xonxoff = 2"

lemmas serial_constants [simp] = serial_transport_device_path_max_def serial_parity_none_def
  serial_parity_even_def serial_parity_odd_def serial_flow_none_def serial_flow_rtscts_def
  serial_flow_xonxoff_def

record serial_transport_config =
  cfg_device :: bytes
  cfg_baud :: int
  cfg_databits :: int
  cfg_parity :: int
  cfg_stopbits :: int
  cfg_flow :: int

record server_serial_transport =
  serial_fd :: int
  device :: bytes
  baud :: int
  databits :: int
  parity :: int
  stopbits :: int
  flow :: int
  saved_tty :: termios
  tx_queue :: bytes
  tx_head :: nat
  tx_count :: nat

definition map_baud_rate :: "int \<Rightarrow> speed" where
  "map_baud_rate rate =
     (if rate = 1200 then B1200 else if rate = 2400 then B2400 else if rate = 4800 then B4800
      else if rate = 9600 then B9600 else if rate = 19200 then B19200 else if rate = 38400 then B38400
      else if rate = 57600 then B57600 else if rate = 115200 then B115200 else B9600)"

subsection \<open>Serial: the hooks\<close>

definition serial_send_char ::
  "server_serial_transport option \<Rightarrow> u8 \<Rightarrow> int \<times> server_serial_transport option" where
  "serial_send_char active c =
     (case active of
        None \<Rightarrow> (-1, active)
      | Some transport \<Rightarrow>
          if tx_count transport \<ge> serial_transport_tx_capacity then (-1, active)
          else let tail = (tx_head transport + tx_count transport) mod serial_transport_tx_capacity in
            (0, Some (transport\<lparr>tx_queue := (tx_queue transport)[tail := c],
                                tx_count := tx_count transport + 1\<rparr>)))"

definition serial_recv_char ::
  "tr_api \<Rightarrow> server_serial_transport option \<Rightarrow> (tr_event, int) io" where
  "serial_recv_char api active =
     (case active of
        None \<Rightarrow> State_Monad.return (-1)
      | Some transport \<Rightarrow> do {
          n \<leftarrow> syscall (\<lambda>h. k_read api h (serial_fd transport)) (Read_Char (serial_fd transport));
          State_Monad.return (case n of Some (Some c) \<Rightarrow> uint c | _ \<Rightarrow> -1) })"

subsection \<open>Serial: opening and closing\<close>

text \<open>The settings \<open>configure_port\<close> applies to those it read.\<close>

definition line_settings :: "serial_transport_config \<Rightarrow> termios \<Rightarrow> termios" where
  "line_settings cfg tty =
     \<lparr>c_ispeed = map_baud_rate (cfg_baud cfg), c_ospeed = map_baud_rate (cfg_baud cfg),
      c_csize = (if cfg_databits cfg = 7 then CS7 else CS8),
      c_cflag = (c_cflag tty - {PARENB, PARODD, CSTOPB, CRTSCTS}) \<union> {CREAD, CLOCAL} \<union>
        (if cfg_parity cfg = serial_parity_even then {PARENB}
         else if cfg_parity cfg = serial_parity_odd then {PARENB, PARODD} else {}) \<union>
        (if cfg_stopbits cfg = 2 then {CSTOPB} else {}) \<union>
        (if cfg_flow cfg = serial_flow_rtscts then {CRTSCTS} else {}),
      c_iflag = (c_iflag tty - {IXON, IXOFF, IXANY, ICRNL, INLCR}) \<union>
        (if cfg_flow cfg = serial_flow_xonxoff then {IXON, IXOFF} else {}),
      c_lflag = c_lflag tty - {ICANON, ECHO, ECHOE, ISIG},
      c_oflag = c_oflag tty - {OPOST, ONLCR},
      c_vmin = 0, c_vtime = 0\<rparr>"

text \<open>The result is the saved settings, \<open>None\<close> for \<open>-1\<close>.\<close>

definition configure_port ::
  "tr_api \<Rightarrow> int \<Rightarrow> serial_transport_config \<Rightarrow> (tr_event, termios option) io" where
  "configure_port api fd cfg = do {
     saved \<leftarrow> syscall (\<lambda>h. k_tcgetattr api h fd) (Tcgetattr fd);
     case saved of
       None \<Rightarrow> State_Monad.return None
     | Some tty \<Rightarrow> do {
         result \<leftarrow> syscall (\<lambda>h. k_tcsetattr api h fd (line_settings cfg tty))
           (Tcsetattr fd (line_settings cfg tty));
         State_Monad.return (case result of None \<Rightarrow> None | Some _ \<Rightarrow> Some tty) } }"

text \<open>\<open>memset\<close> zeroes the settings that are saved later.\<close>

definition zero_termios :: termios where
  "zero_termios = \<lparr>c_ispeed = B_other 0, c_ospeed = B_other 0, c_csize = CS5, c_cflag = {},
     c_iflag = {}, c_lflag = {}, c_oflag = {}, c_vmin = 0, c_vtime = 0\<rparr>"

definition serial_init_transport_fields :: "serial_transport_config \<Rightarrow> server_serial_transport" where
  "serial_init_transport_fields cfg =
     \<lparr>serial_fd = -1, device = take (serial_transport_device_path_max - 1) (cfg_device cfg),
      baud = cfg_baud cfg, databits = cfg_databits cfg, parity = cfg_parity cfg,
      stopbits = cfg_stopbits cfg, flow = cfg_flow cfg, saved_tty = zero_termios,
      tx_queue = replicate serial_transport_tx_capacity 0, tx_head = 0, tx_count = 0\<rparr>"

text \<open>\<open>old\<close> is what the caller's structure held before; a path that is too long leaves it alone.\<close>

definition serial_transport_open ::
  "tr_api \<Rightarrow> server_serial_transport \<Rightarrow> serial_transport_config \<Rightarrow>
     (tr_event, int \<times> server_serial_transport) io" where
  "serial_transport_open api old cfg =
     (if length (cfg_device cfg) \<ge> serial_transport_device_path_max then State_Monad.return (-1, old)
      else let transport = serial_init_transport_fields cfg in do {
        fd \<leftarrow> syscall (\<lambda>h. k_open api h (cfg_device cfg)) (Open_Tty (cfg_device cfg));
        case fd of
          None \<Rightarrow> State_Monad.return (-1, transport)
        | Some fd \<Rightarrow> do {
            saved \<leftarrow> configure_port api (int fd) cfg;
            case saved of
              None \<Rightarrow> do { _ \<leftarrow> close_fd (int fd); State_Monad.return (-1, transport) }
            | Some tty \<Rightarrow>
                State_Monad.return (0, transport\<lparr>saved_tty := tty, serial_fd := int fd\<rparr>) } })"

text \<open>Activating a transport makes it the argument of the hooks.\<close>

definition serial_transport_activate ::
  "server_serial_transport option \<Rightarrow> server_serial_transport option \<Rightarrow> server_serial_transport option" where
  "serial_transport_activate transport active =
     (case transport of None \<Rightarrow> active | Some t \<Rightarrow> Some t)"

text \<open>
  Closing clears the module-level pointer when it points to this transport: the hooks' argument
  is then \<open>None\<close>.
\<close>

definition serial_transport_close ::
  "tr_api \<Rightarrow> server_serial_transport \<Rightarrow> (tr_event, server_serial_transport) io" where
  "serial_transport_close api transport =
     (if serial_fd transport \<ge> 0 then do {
        _ \<leftarrow> syscall (\<lambda>h. k_tcsetattr api h (serial_fd transport) (saved_tty transport))
          (Tcsetattr (serial_fd transport) (saved_tty transport));
        _ \<leftarrow> close_fd (serial_fd transport);
        State_Monad.return (transport\<lparr>serial_fd := -1\<rparr>) }
      else State_Monad.return transport)"

subsection \<open>Serial: output\<close>

fun flush_output ::
  "tr_api \<Rightarrow> nat \<Rightarrow> server_serial_transport \<Rightarrow> (tr_event, (int \<times> server_serial_transport) option) io" where
  "flush_output api 0 transport =
     State_Monad.return (if tx_count transport = 0 then Some (0, transport\<lparr>tx_head := 0\<rparr>) else None)"
| "flush_output api (Suc fuel) transport =
     (if tx_count transport = 0 then State_Monad.return (Some (0, transport\<lparr>tx_head := 0\<rparr>))
      else let room = serial_transport_tx_capacity - tx_head transport;
               contiguous = (if room > tx_count transport then tx_count transport else room)
        in do {
          written \<leftarrow> write_bytes api (serial_fd transport)
            (take contiguous (drop (tx_head transport) (tx_queue transport)));
          case written of
            Some n \<Rightarrow>
              (if n > 0 then flush_output api fuel (transport\<lparr>
                 tx_head := (tx_head transport + n) mod serial_transport_tx_capacity,
                 tx_count := tx_count transport - n\<rparr>)
               else State_Monad.return (Some (-1, transport)))
          | None \<Rightarrow> do {
              e \<leftarrow> get_errno;
              if e = EINTR then flush_output api fuel transport
              else State_Monad.return (Some (if e = EAGAIN then 0 else -1, transport)) } })"

definition serial_transport_wait ::
  "tr_api \<Rightarrow> nat \<Rightarrow> server_serial_transport \<Rightarrow> int \<Rightarrow>
     (tr_event, (int \<times> server_serial_transport) option) io" where
  "serial_transport_wait api fuel transport timeout_ms =
     (if serial_fd transport < 0 then do {
        _ \<leftarrow> set_errno EINVAL; State_Monad.return (Some (-1, transport)) }
      else do {
        result \<leftarrow> poll_again api fuel (serial_fd transport)
          (if tx_count transport \<noteq> 0 then [POLLIN, POLLOUT] else [POLLIN]) timeout_ms;
        case result of
          None \<Rightarrow> State_Monad.return None
        | Some None \<Rightarrow> State_Monad.return (Some (-1, transport))
        | Some (Some revents) \<Rightarrow>
            (if revents = [] then State_Monad.return (Some (0, transport))
             else do {
               flushed \<leftarrow> (if POLLOUT \<in> set revents then flush_output api fuel transport
                           else State_Monad.return (Some (0, transport)));
               case flushed of
                 None \<Rightarrow> State_Monad.return None
               | Some (r, transport) \<Rightarrow>
                   (if r \<noteq> 0 then State_Monad.return (Some (-1, transport))
                    else if poll_failed revents then do {
                      _ \<leftarrow> set_errno EIO; State_Monad.return (Some (-1, transport)) }
                    else State_Monad.return (Some (1, transport))) }) })"

definition serial_transport_pending_output :: "server_serial_transport option \<Rightarrow> nat" where
  "serial_transport_pending_output transport =
     (case transport of None \<Rightarrow> 0 | Some t \<Rightarrow> tx_count t)"

subsection \<open>Local\<close>

definition local_transport_socket_path_max :: nat where "local_transport_socket_path_max = 108"
definition local_transport_default_socket_path :: bytes where
  "local_transport_default_socket_path = ascii ''/tmp/squid_server.sock''"

record server_local_transport =
  listen_fd :: int
  local_client_fd :: int
  socket_path :: bytes

definition local_send_char :: "tr_api \<Rightarrow> int \<Rightarrow> u8 \<Rightarrow> (tr_event, int) io" where
  "local_send_char api transport_fd c = do {
     n \<leftarrow> syscall (\<lambda>h. k_send api h transport_fd c) (Send_One transport_fd c);
     State_Monad.return (if n = Some 1 then 0 else -1) }"

definition local_recv_char :: "tr_api \<Rightarrow> int \<Rightarrow> (tr_event, int) io" where
  "local_recv_char api transport_fd = do {
     n \<leftarrow> syscall (\<lambda>h. k_recv api h transport_fd) (Recv_One transport_fd);
     State_Monad.return (case n of Some (Some c) \<Rightarrow> uint c | _ \<Rightarrow> -1) }"

text \<open>The path in the socket address: \<open>strncpy\<close> into \<open>sun_path\<close>, which has 108 bytes.\<close>

definition fill_sockaddr :: "bytes \<Rightarrow> bytes" where
  "fill_sockaddr path = take 107 path"

definition local_init_transport_fields :: "bytes \<Rightarrow> server_local_transport" where
  "local_init_transport_fields path =
     \<lparr>listen_fd = -1, local_client_fd = -1,
      socket_path = take (local_transport_socket_path_max - 1) path\<rparr>"

definition local_transport_listen ::
  "tr_api \<Rightarrow> server_local_transport \<Rightarrow> bytes \<Rightarrow> (tr_event, int \<times> server_local_transport) io" where
  "local_transport_listen api old path =
     (if length path \<ge> local_transport_socket_path_max then State_Monad.return (-1, old)
      else let transport = local_init_transport_fields path in do {
        socket \<leftarrow> syscall (k_socket api) Unix_Socket;
        case socket of
          None \<Rightarrow> State_Monad.return (-1, transport)
        | Some fd \<Rightarrow> do {
            _ \<leftarrow> query (\<lambda>_. ()) (\<lambda>_. Unlink path);
            bound \<leftarrow> syscall (\<lambda>h. k_bind api h (int fd) (fill_sockaddr path))
              (Bind (int fd) (fill_sockaddr path));
            if bound = None then do {
              _ \<leftarrow> close_fd (int fd); State_Monad.return (-1, transport) }
            else do {
              listening \<leftarrow> syscall (\<lambda>h. k_listen api h (int fd)) (Listen (int fd));
              if listening = None then do {
                _ \<leftarrow> close_fd (int fd);
                _ \<leftarrow> query (\<lambda>_. ()) (\<lambda>_. Unlink path);
                State_Monad.return (-1, transport) }
              else State_Monad.return (0, transport\<lparr>listen_fd := int fd\<rparr>) } } })"

text \<open>
  \<open>accept\<close> blocks until a client connects, and a signal does not end it: the handlers are set with
  \<open>signal\<close>, which restarts it. \<open>None\<close> is an \<open>accept\<close> that never returns.
\<close>

definition call_accept :: "tr_api \<Rightarrow> int \<Rightarrow> (tr_event, nat option option) io" where
  "call_accept api fd = do {
     answer \<leftarrow> State (\<lambda>s. (k_accept api (trace s) fd, s));
     case answer of
       None \<Rightarrow> do { _ \<leftarrow> emit (Accept_Waits fd); State_Monad.return None }
     | Some r \<Rightarrow> do {
         client_fd \<leftarrow> syscall (\<lambda>_. r) (Accept fd);
         State_Monad.return (Some client_fd) } }"

definition local_transport_accept ::
  "tr_api \<Rightarrow> server_local_transport \<Rightarrow> (tr_event, (int \<times> server_local_transport) option) io" where
  "local_transport_accept api transport =
     (if listen_fd transport < 0 then State_Monad.return (Some (-1, transport))
      else do {
        fd \<leftarrow> call_accept api (listen_fd transport);
        State_Monad.return (map_option (\<lambda>fd. case fd of
          None \<Rightarrow> (-1, transport)
        | Some fd \<Rightarrow> (0, transport\<lparr>local_client_fd := int fd\<rparr>)) fd) })"

definition local_transport_connect ::
  "tr_api \<Rightarrow> server_local_transport \<Rightarrow> bytes \<Rightarrow> (tr_event, int \<times> server_local_transport) io" where
  "local_transport_connect api old path =
     (if length path \<ge> local_transport_socket_path_max then State_Monad.return (-1, old)
      else let transport = local_init_transport_fields path in do {
        socket \<leftarrow> syscall (k_socket api) Unix_Socket;
        case socket of
          None \<Rightarrow> State_Monad.return (-1, transport)
        | Some fd \<Rightarrow> do {
            connected \<leftarrow> syscall (\<lambda>h. k_connect api h (int fd) (fill_sockaddr path))
              (Connect (int fd) (fill_sockaddr path));
            if connected = None then do {
              _ \<leftarrow> close_fd (int fd); State_Monad.return (-1, transport) }
            else State_Monad.return (0, transport\<lparr>local_client_fd := int fd\<rparr>) } })"

text \<open>The new value of \<open>transport_fd\<close>.\<close>

definition local_transport_activate :: "server_local_transport \<Rightarrow> int" where
  "local_transport_activate transport = local_client_fd transport"

definition local_transport_wait ::
  "tr_api \<Rightarrow> nat \<Rightarrow> server_local_transport \<Rightarrow> int \<Rightarrow> (tr_event, int option) io" where
  "local_transport_wait api fuel transport timeout_ms =
     (if local_client_fd transport < 0 then do {
        _ \<leftarrow> set_errno EINVAL; State_Monad.return (Some (-1)) }
      else do {
        result \<leftarrow> poll_again api fuel (local_client_fd transport) [POLLIN] timeout_ms;
        case result of
          None \<Rightarrow> State_Monad.return None
        | Some None \<Rightarrow> State_Monad.return (Some (-1))
        | Some (Some revents) \<Rightarrow>
            (if revents = [] then State_Monad.return (Some 0)
             else if poll_failed revents then do {
               _ \<leftarrow> set_errno EIO; State_Monad.return (Some (-1)) }
             else State_Monad.return (Some 1)) })"

text \<open>With the new value of \<open>transport_fd\<close>, always \<open>-1\<close>.\<close>

definition local_transport_close ::
  "server_local_transport \<Rightarrow> (tr_event, server_local_transport \<times> int) io" where
  "local_transport_close transport = do {
     transport \<leftarrow> (if local_client_fd transport \<ge> 0 then do {
         _ \<leftarrow> close_fd (local_client_fd transport);
         State_Monad.return (transport\<lparr>local_client_fd := -1\<rparr>) }
       else State_Monad.return transport);
     transport \<leftarrow> (if listen_fd transport \<ge> 0 then do {
         _ \<leftarrow> close_fd (listen_fd transport);
         _ \<leftarrow> query (\<lambda>_. ()) (\<lambda>_. Unlink (socket_path transport));
         State_Monad.return (transport\<lparr>listen_fd := -1\<rparr>) }
       else State_Monad.return transport);
     State_Monad.return (transport, -1) }"

end
