(* ===== verification/Transport_Properties.thy ===== *)
theory Transport_Properties
  imports Transports
begin

text \<open>
  What the transports get right. The serial output queue is a ring buffer; its interface is the
  locale \<open>byte_fifo\<close>, which the ring implements, and \<open>flush_output\<close> and the hooks are proved over
  that interface: nothing that libsquid handed over is lost, repeated or reordered. The
  descriptors both transports open are closed exactly once.
\<close>

subsection \<open>The output queue\<close>

locale byte_fifo =
  fixes valid :: "'q \<Rightarrow> bool"
    and contents :: "'q \<Rightarrow> bytes"
    and capacity :: nat
    and push :: "'q \<Rightarrow> u8 \<Rightarrow> 'q option"
    and front :: "'q \<Rightarrow> bytes"
    and advance :: "'q \<Rightarrow> nat \<Rightarrow> 'q"
  assumes bounded: "valid q \<Longrightarrow> length (contents q) \<le> capacity"
    and push_full: "valid q \<Longrightarrow> push q c = None \<longleftrightarrow> length (contents q) = capacity"
    and push_some: "valid q \<Longrightarrow> push q c = Some q' \<Longrightarrow> valid q' \<and> contents q' = contents q @ [c]"
    and front_prefix: "valid q \<Longrightarrow> front q = take (length (front q)) (contents q)"
    and front_empty: "valid q \<Longrightarrow> front q = [] \<longleftrightarrow> contents q = []"
    and advance_front: "valid q \<Longrightarrow> n \<le> length (front q) \<Longrightarrow>
      valid (advance q n) \<and> contents (advance q n) = drop n (contents q)"
begin

text \<open>Taking \<open>n\<close> bytes off the front: they and what is left are what there was.\<close>

lemma advance_split:
  assumes "valid q" and "n \<le> length (front q)"
  shows "take n (front q) @ contents (advance q n) = contents q"
  using front_prefix [OF assms(1)] advance_front [OF assms] assms(2)
  by (metis append_take_drop_id min.absorb1 take_take)

text \<open>A whole burst is accepted exactly when there is room for it.\<close>

fun push_all :: "'q \<Rightarrow> bytes \<Rightarrow> 'q option" where
  "push_all q [] = Some q"
| "push_all q (c # cs) = (case push q c of None \<Rightarrow> None | Some q' \<Rightarrow> push_all q' cs)"

lemma push_all_some:
  "valid q \<Longrightarrow> push_all q cs = Some q' \<Longrightarrow> valid q' \<and> contents q' = contents q @ cs"
proof (induction cs arbitrary: q)
  case (Cons c cs)
  then obtain q1 where "push q c = Some q1" "push_all q1 cs = Some q'"
    by (auto split: option.splits)
  with Cons.IH [of q1] push_some [OF Cons.prems(1)] show ?case by auto
qed simp

lemma push_all_room:
  "valid q \<Longrightarrow> length (contents q) + length cs \<le> capacity \<Longrightarrow> \<exists>q'. push_all q cs = Some q'"
proof (induction cs arbitrary: q)
  case (Cons c cs)
  then obtain q1 where q1: "push q c = Some q1"
    using push_full [of q c] by fastforce
  with Cons push_some [OF Cons.prems(1) q1] show ?case by auto
qed simp

end

definition tx_bytes :: "server_serial_transport \<Rightarrow> bytes" where
  "tx_bytes t = map (\<lambda>i. tx_queue t ! ((tx_head t + i) mod serial_transport_tx_capacity)) [0..<tx_count t]"

definition ring_inv :: "server_serial_transport \<Rightarrow> bool" where
  "ring_inv t \<longleftrightarrow> length (tx_queue t) = serial_transport_tx_capacity \<and>
     tx_head t < serial_transport_tx_capacity \<and> tx_count t \<le> serial_transport_tx_capacity"

definition ring_push :: "server_serial_transport \<Rightarrow> u8 \<Rightarrow> server_serial_transport option" where
  "ring_push t c = (case serial_send_char (Some t) c of (r, t') \<Rightarrow> if r = 0 then t' else None)"

definition ring_front :: "server_serial_transport \<Rightarrow> bytes" where
  "ring_front t = take (min (tx_count t) (serial_transport_tx_capacity - tx_head t))
     (drop (tx_head t) (tx_queue t))"

definition ring_advance :: "server_serial_transport \<Rightarrow> nat \<Rightarrow> server_serial_transport" where
  "ring_advance t n = t\<lparr>tx_head := (tx_head t + n) mod serial_transport_tx_capacity,
     tx_count := tx_count t - n\<rparr>"

lemma wrapped_index:
  "h < c \<Longrightarrow> i < c \<Longrightarrow> (h + i) mod c = (if h + i < c then h + i else h + i - c)" for h i c :: nat
  by (simp add: le_mod_geq)

lemma ring_push_some:
  assumes "ring_inv t" and "ring_push t c = Some t'"
  shows "ring_inv t' \<and> tx_bytes t' = tx_bytes t @ [c]"
proof -
  let ?tail = "(tx_head t + tx_count t) mod serial_transport_tx_capacity"
  have room: "tx_count t < serial_transport_tx_capacity"
    and t': "t' = t\<lparr>tx_queue := (tx_queue t)[?tail := c], tx_count := tx_count t + 1\<rparr>"
    using assms(2) by (auto simp: ring_push_def serial_send_char_def Let_def split: if_splits)
  have tail: "?tail < length (tx_queue t)"
    using assms(1) room by (simp add: ring_inv_def)
  have other: "?tail \<noteq> (tx_head t + i) mod serial_transport_tx_capacity" if "i < tx_count t" for i
    using that room assms(1) wrapped_index [of "tx_head t" serial_transport_tx_capacity i]
      wrapped_index [of "tx_head t" serial_transport_tx_capacity "tx_count t"]
    by (auto simp: ring_inv_def split: if_splits)
  have old: "map (\<lambda>i. (tx_queue t)[?tail := c] ! ((tx_head t + i) mod serial_transport_tx_capacity))
      [0..<tx_count t] = tx_bytes t"
    unfolding tx_bytes_def using other by (intro map_cong) (auto simp: nth_list_update_neq)
  show ?thesis
    using assms(1) room tail old by (auto simp: t' ring_inv_def tx_bytes_def)
qed

lemma length_tx_bytes [simp]: "length (tx_bytes t) = tx_count t"
  by (simp add: tx_bytes_def)

lemma ring_front_take:
  assumes "ring_inv t"
  shows "ring_front t = take (min (tx_count t) (serial_transport_tx_capacity - tx_head t)) (tx_bytes t)"
  using assms by (intro nth_equalityI) (auto simp: ring_front_def tx_bytes_def ring_inv_def)

lemma length_ring_front:
  "ring_inv t \<Longrightarrow> length (ring_front t) = min (tx_count t) (serial_transport_tx_capacity - tx_head t)"
  by (simp add: ring_front_take)

lemma ring_advance_front:
  assumes "ring_inv t" and "n \<le> length (ring_front t)"
  shows "ring_inv (ring_advance t n) \<and> tx_bytes (ring_advance t n) = drop n (tx_bytes t)"
proof -
  have "n \<le> tx_count t"
    using assms by (simp add: length_ring_front)
  then have "tx_bytes (ring_advance t n) = drop n (tx_bytes t)"
    by (intro nth_equalityI) (auto simp: ring_advance_def tx_bytes_def mod_add_left_eq add.assoc)
  moreover have "0 < serial_transport_tx_capacity"
    by (simp add: serial_transport_tx_capacity_def)
  ultimately show ?thesis
    using assms(1) by (auto simp: ring_inv_def ring_advance_def)
qed

lemma ring_inv_count: "ring_inv t \<Longrightarrow> tx_count t \<le> serial_transport_tx_capacity"
  by (simp add: ring_inv_def)

interpretation ring: byte_fifo ring_inv tx_bytes serial_transport_tx_capacity ring_push ring_front
  ring_advance
proof
  fix q c
  assume q: "ring_inv q"
  show "ring_push q c = None \<longleftrightarrow> length (tx_bytes q) = serial_transport_tx_capacity"
    using q by (auto simp: ring_push_def serial_send_char_def ring_inv_def Let_def)
  show "ring_front q = [] \<longleftrightarrow> tx_bytes q = []"
    using q by (auto simp: length_ring_front ring_inv_def simp flip: length_0_conv)
  show "ring_front q = take (length (ring_front q)) (tx_bytes q)"
    using q by (simp add: length_ring_front flip: ring_front_take)
qed (auto simp: ring_push_some ring_advance_front ring_inv_count)

subsection \<open>What happens on the line\<close>

fun written_of :: "tr_event \<Rightarrow> bytes" where
  "written_of (Write_Bytes _ bs (Inr n)) = take n bs"
| "written_of _ = []"

fun acquired_of :: "tr_event \<Rightarrow> int multiset" where
  "acquired_of (Open_Tty _ (Inr n)) = {#int n#}"
| "acquired_of (Unix_Socket (Inr n)) = {#int n#}"
| "acquired_of (Accept _ (Inr n)) = {#int n#}"
| "acquired_of _ = {#}"

fun released_of :: "tr_event \<Rightarrow> int multiset" where
  "released_of (Close_Fd fd) = {#fd#}"
| "released_of _ = {#}"

fun settings_of :: "tr_event \<Rightarrow> (int \<times> termios) list" where
  "settings_of (Tcsetattr fd tty (Inr _)) = [(fd, tty)]"
| "settings_of _ = []"

definition written :: "tr_event list \<Rightarrow> bytes" where
  "written es = concat (map written_of es)"

definition acquired :: "tr_event list \<Rightarrow> int multiset" where
  "acquired es = sum_list (map acquired_of es)"

definition released :: "tr_event list \<Rightarrow> int multiset" where
  "released es = sum_list (map released_of es)"

lemma line_simps [simp]:
  "written [] = []" "written (e # es) = written_of e @ written es"
  "written (es @ es') = written es @ written es'"
  "acquired [] = {#}" "acquired (e # es) = acquired_of e + acquired es"
  "acquired (es @ es') = acquired es + acquired es'"
  "released [] = {#}" "released (e # es) = released_of e + released es"
  "released (es @ es') = released es + released es'"
  by (simp_all add: written_def acquired_def released_def)

text \<open>A transport that differs only in its output queue.\<close>

definition without_queue :: "server_serial_transport \<Rightarrow> server_serial_transport" where
  "without_queue t = t\<lparr>tx_queue := [], tx_head := 0, tx_count := 0\<rparr>"

definition same_line :: "server_serial_transport \<Rightarrow> server_serial_transport \<Rightarrow> bool" where
  "same_line t t' \<longleftrightarrow> without_queue t' = without_queue t"

lemma same_line_intros [simp]:
  "same_line t t" "same_line t (t\<lparr>tx_head := h\<rparr>)" "same_line t (ring_advance t n)"
  "same_line t (t\<lparr>tx_queue := q, tx_count := n\<rparr>)"
  by (simp_all add: same_line_def without_queue_def ring_advance_def)

lemma same_line_trans: "same_line t t1 \<Longrightarrow> same_line t1 t2 \<Longrightarrow> same_line t t2"
  by (simp add: same_line_def)

lemma same_line_simps:
  assumes "same_line t t'"
  shows "serial_fd t' = serial_fd t" "saved_tty t' = saved_tty t"
  using arg_cong [OF assms [unfolded same_line_def], of serial_fd]
    arg_cong [OF assms [unfolded same_line_def], of saved_tty]
  by (simp_all add: without_queue_def)

text \<open>Output: what is written and what stays queued is what was queued.\<close>

definition output_contract ::
  "server_serial_transport \<Rightarrow> (int \<times> server_serial_transport) option \<Rightarrow> tr_event list \<Rightarrow> bool" where
  "output_contract t r es \<longleftrightarrow> acquired es = {#} \<and> released es = {#} \<and>
     (case r of None \<Rightarrow> True
      | Some (code, t') \<Rightarrow> ring_inv t' \<and> same_line t t' \<and> written es @ tx_bytes t' = tx_bytes t)"

lemma ensures_write_bytes_bind:
  assumes "\<And>r. (\<And>n. r = Inr n \<Longrightarrow> n \<le> length bs) \<Longrightarrow>
    ensures (f (answer r)) (\<lambda>b es. Q b (Write_Bytes fd bs r # es))"
  shows "ensures (State_Monad.bind (write_bytes api fd bs) f) Q"
  unfolding write_bytes_def
  by (rule ensures_syscall_sat_bind [where P = "\<lambda>r. \<forall>n. r = Inr n \<longrightarrow> n \<le> length bs"])
     (auto simp: map_sum_eq_Inr intro: assms)

lemma ring_front_flush:
  "take (if tx_count t < serial_transport_tx_capacity - tx_head t then tx_count t
         else serial_transport_tx_capacity - tx_head t) (drop (tx_head t) (tx_queue t)) = ring_front t"
  by (simp add: ring_front_def min_def)

lemma advanced_output:
  assumes "ring_inv t" and "n \<le> length (ring_front t)"
    and "output_contract (ring_advance t n) r es"
  shows "output_contract t r (Write_Bytes fd (ring_front t) (Inr n) # es)"
  using assms(3) ring.advance_split [OF assms(1,2)] same_line_trans [of t "ring_advance t n"]
  by (auto simp: output_contract_def split: option.splits)

lemma flush_output_contract:
  "ring_inv t \<Longrightarrow> ensures (flush_output api fuel t) (output_contract t)"
proof (induction fuel arbitrary: t)
  case 0
  then show ?case by (auto intro!: io_rules simp: output_contract_def ring_inv_def tx_bytes_def)
next
  case (Suc fuel)
  have more: "ensures (flush_output api fuel (t\<lparr>
        tx_head := (tx_head t + n) mod serial_transport_tx_capacity, tx_count := tx_count t - n\<rparr>))
      (\<lambda>r es. output_contract t r (Write_Bytes fd (ring_front t) (Inr n) # es))"
    if "n \<le> length (ring_front t)" for n fd
    unfolding ring_advance_def [symmetric]
    using ring_advance_front [OF Suc.prems that]
    by (intro ensures_mono [OF Suc.IH] advanced_output [OF Suc.prems that]) simp_all
  have again: "ensures (flush_output api fuel t)
      (\<lambda>r es. output_contract t r (Write_Bytes fd bs (Inl e) # es))" for fd bs e
    by (rule ensures_mono [OF Suc.IH [OF Suc.prems]]) (auto simp: output_contract_def split: option.splits)
  show ?case
    unfolding flush_output.simps Let_def ring_front_flush
    by (intro io_rules ensures_write_bytes_bind)
       (use Suc.prems more again in \<open>auto simp: output_contract_def ring_inv_def tx_bytes_def\<close>)
qed

lemma poll_again_contract:
  "ensures (poll_again api fuel fd events timeout_ms)
     (\<lambda>_ es. acquired es = {#} \<and> released es = {#} \<and> written es = [])"
proof (induction fuel)
  case (Suc fuel)
  show ?case
    unfolding poll_again.simps
    by (intro io_rules ensures_mono [OF Suc.IH]) auto
qed (auto intro!: io_rules)

lemma serial_transport_wait_contract:
  assumes "ring_inv t"
  shows "ensures (serial_transport_wait api fuel t timeout_ms) (output_contract t)"
  unfolding serial_transport_wait_def
  by (intro io_rules ensures_bind [OF poll_again_contract]
        ensures_bind [OF flush_output_contract [OF assms]])
     (auto simp: output_contract_def assms)

subsection \<open>The life of a serial transport\<close>

text \<open>What libsquid and the runtime do with an open transport: hooks and waits, in any order.\<close>

datatype serial_op = Send_Char u8 | Recv_Char | Wait_Ready int

text \<open>The result is the bytes \<open>send_char\<close> accepted and the transport.\<close>

fun serial_session ::
  "tr_api \<Rightarrow> nat \<Rightarrow> server_serial_transport \<Rightarrow> serial_op list \<Rightarrow>
     (tr_event, (bytes \<times> server_serial_transport) option) io" where
  "serial_session api fuel t [] = State_Monad.return (Some ([], t))"
| "serial_session api fuel t (Send_Char c # ops) =
     (case serial_send_char (Some t) c of (r, active) \<Rightarrow> do {
        rest \<leftarrow> serial_session api fuel (the active) ops;
        State_Monad.return (map_option (apfst ((@) (if r = 0 then [c] else []))) rest) })"
| "serial_session api fuel t (Recv_Char # ops) = do {
     _ \<leftarrow> serial_recv_char api (Some t);
     serial_session api fuel t ops }"
| "serial_session api fuel t (Wait_Ready timeout_ms # ops) = do {
     result \<leftarrow> serial_transport_wait api fuel t timeout_ms;
     case result of
       None \<Rightarrow> State_Monad.return None
     | Some (r, t) \<Rightarrow> serial_session api fuel t ops }"

definition session_contract ::
  "server_serial_transport \<Rightarrow> (bytes \<times> server_serial_transport) option \<Rightarrow> tr_event list \<Rightarrow> bool" where
  "session_contract t r es \<longleftrightarrow> acquired es = {#} \<and> released es = {#} \<and>
     (case r of None \<Rightarrow> True
      | Some (accepted, t') \<Rightarrow> ring_inv t' \<and> same_line t t' \<and>
          written es @ tx_bytes t' = tx_bytes t @ accepted)"

lemma send_char_cases:
  assumes "ring_inv t"
  obtains t' where "serial_send_char (Some t) c = (0, Some t')" "ring_inv t'" "same_line t t'"
      "tx_bytes t' = tx_bytes t @ [c]"
  | "serial_send_char (Some t) c = (-1, Some t)"
proof (cases "tx_count t \<ge> serial_transport_tx_capacity")
  case True
  then show ?thesis using that(2) by (simp add: serial_send_char_def)
next
  case False
  then obtain t' where t': "serial_send_char (Some t) c = (0, Some t')" "same_line t t'"
    by (auto simp: serial_send_char_def Let_def)
  then have "ring_push t c = Some t'"
    by (simp add: ring_push_def)
  with t' ring.push_some [OF assms] that(1) show ?thesis by blast
qed

lemma serial_session_contract:
  "ring_inv t \<Longrightarrow> ensures (serial_session api fuel t ops) (session_contract t)"
proof (induction ops arbitrary: t)
  case Nil
  then show ?case by (auto intro!: io_rules simp: session_contract_def)
next
  case (Cons op ops)
  show ?case
  proof (cases op)
    case (Send_Char c)
    show ?thesis
      using Cons.prems
    proof (cases rule: send_char_cases [of _ c])
      case (1 t')
      then show ?thesis
        unfolding Send_Char serial_session.simps 1 prod.case option.sel
        by (intro ensures_bind [OF Cons.IH] io_rules)
           (use 1 in \<open>auto simp: session_contract_def split: option.splits elim: same_line_trans\<close>)
    next
      case 2
      show ?thesis
        unfolding Send_Char serial_session.simps 2 prod.case option.sel
        by (intro ensures_bind [OF Cons.IH [OF Cons.prems]] io_rules)
           (auto simp: session_contract_def split: option.splits)
    qed
  next
    case Recv_Char
    show ?thesis
      unfolding Recv_Char serial_session.simps serial_recv_char_def option.case
      by (intro io_rules ensures_mono [OF Cons.IH [OF Cons.prems]])
         (auto simp: session_contract_def split: option.splits)
  next
    case (Wait_Ready timeout_ms)
    have rest: "ensures (serial_session api fuel t' ops) (\<lambda>b es'. session_contract t b (es @ es'))"
      if "output_contract t (Some (r, t')) es" for r t' es
    proof (rule ensures_mono [OF Cons.IH])
      show "ring_inv t'" using that by (simp add: output_contract_def)
      show "session_contract t a (es @ es')" if "session_contract t' a es'" for a es'
        using that \<open>output_contract t (Some (r, t')) es\<close>
        by (auto simp: session_contract_def output_contract_def split: option.splits
            elim: same_line_trans)
    qed
    show ?thesis
      unfolding Wait_Ready serial_session.simps
      by (intro ensures_bind [OF serial_transport_wait_contract [OF Cons.prems]] io_rules)
         (use rest in \<open>auto simp: session_contract_def output_contract_def\<close>)
  qed
qed

text \<open>Opening, a session and closing; \<open>None\<close> when it could not be opened or fuel ran out.\<close>

definition serial_life ::
  "tr_api \<Rightarrow> nat \<Rightarrow> server_serial_transport \<Rightarrow> serial_transport_config \<Rightarrow> serial_op list \<Rightarrow>
     (tr_event, int \<times> (bytes \<times> server_serial_transport) option) io" where
  "serial_life api fuel old cfg ops = do {
     opened \<leftarrow> serial_transport_open api old cfg;
     case opened of (r, t) \<Rightarrow>
       if r \<noteq> 0 then State_Monad.return (r, None)
       else do {
         result \<leftarrow> serial_session api fuel t ops;
         case result of
           None \<Rightarrow> State_Monad.return (r, None)
         | Some (accepted, t) \<Rightarrow> do {
             t \<leftarrow> serial_transport_close api t;
             State_Monad.return (r, Some (accepted, t)) } } }"

lemma tx_bytes_fd [simp]: "tx_bytes (t\<lparr>serial_fd := fd\<rparr>) = tx_bytes t"
  by (simp add: tx_bytes_def)

text \<open>A port that has just been opened holds its descriptor and an empty queue.\<close>

definition open_contract :: "serial_transport_config \<Rightarrow> int \<times> server_serial_transport \<Rightarrow> tr_event list \<Rightarrow> bool" where
  "open_contract cfg r es \<longleftrightarrow> written es = [] \<and>
     (case r of (code, t) \<Rightarrow>
        if code = 0 then ring_inv t \<and> tx_bytes t = [] \<and> 0 \<le> serial_fd t \<and>
          acquired es = {#serial_fd t#} \<and> released es = {#} \<and>
          concat (map settings_of es) = [(serial_fd t, line_settings cfg (saved_tty t))] \<and>
          Tcgetattr (serial_fd t) (Inr (saved_tty t)) \<in> set es
        else code = -1 \<and> acquired es = released es)"

lemma serial_transport_open_contract:
  "ensures (serial_transport_open api old cfg) (open_contract cfg)"
  unfolding serial_transport_open_def configure_port_def close_fd_def
  by (intro io_rules)
     (auto simp: open_contract_def ring_inv_def tx_bytes_def serial_init_transport_fields_def
       serial_transport_tx_capacity_def split: option.splits)

definition life_contract ::
  "int \<times> (bytes \<times> server_serial_transport) option \<Rightarrow> tr_event list \<Rightarrow> bool" where
  "life_contract b es \<longleftrightarrow>
     (case b of (code, r) \<Rightarrow>
        (case r of
           None \<Rightarrow> code = 0 \<or> acquired es = released es
         | Some (accepted, t) \<Rightarrow>
             written es @ tx_bytes t = accepted \<and> acquired es = released es \<and>
             (\<exists>before fd tty restored. es = before @ [Tcsetattr fd tty restored, Close_Fd fd] \<and>
                acquired es = {#fd#} \<and> Tcgetattr fd (Inr tty) \<in> set before)))"

lemma serial_life_rest:
  assumes "open_contract cfg (0, t) es"
  shows "ensures (do {
      result \<leftarrow> serial_session api fuel t ops;
      case result of
        None \<Rightarrow> State_Monad.return (0, None)
      | Some (accepted, t) \<Rightarrow> do {
          t \<leftarrow> serial_transport_close api t;
          State_Monad.return (0, Some (accepted, t)) } })
    (\<lambda>b es'. life_contract b (es @ es'))"
proof -
  have ok: "ring_inv t" "tx_bytes t = []" "0 \<le> serial_fd t" "written es = []"
    "acquired es = {#serial_fd t#}" "released es = {#}"
    "Tcgetattr (serial_fd t) (Inr (saved_tty t)) \<in> set es"
    using assms by (auto simp: open_contract_def)
  show ?thesis
    unfolding serial_transport_close_def close_fd_def
    by (intro ensures_bind [OF serial_session_contract [OF ok(1)]] io_rules)
       (auto simp: session_contract_def life_contract_def ok same_line_simps)
qed

text \<open>
  C22. The serial transport loses, repeats and reorders nothing, and leaves the port as it found
  it. Over the whole life of a transport, with any order of hook calls and waits, any partial,
  interrupted or refused write: the bytes written to the port followed by those still queued at
  the end are exactly the bytes \<open>send_char\<close> accepted; the descriptor that was opened, and no
  other, is closed, once, also when configuring the port fails; and the last thing done before
  closing is to restore the settings that were read when the port was opened.
\<close>

theorem serial_life_ordered:
  "ensures (serial_life api fuel old cfg ops)
     (\<lambda>(code, r) es.
        case r of
          None \<Rightarrow> code = 0 \<or> acquired es = released es
        | Some (accepted, t) \<Rightarrow>
            written es @ tx_bytes t = accepted \<and> acquired es = released es \<and>
            (\<exists>before fd tty restored. es = before @ [Tcsetattr fd tty restored, Close_Fd fd] \<and>
               acquired es = {#fd#} \<and> Tcgetattr fd (Inr tty) \<in> set before))"
proof -
  have "ensures (serial_life api fuel old cfg ops) life_contract"
    unfolding serial_life_def
    by (intro ensures_bind [OF serial_transport_open_contract] io_rules)
       (auto simp: serial_life_rest, auto simp: life_contract_def open_contract_def)
  then show ?thesis
    by (rule ensures_mono) (auto simp: life_contract_def split: option.splits)
qed

subsection \<open>Waiting ends\<close>

text \<open>The kernel interrupts no call once \<open>limit\<close> calls have been made.\<close>

definition calm_after :: "nat \<Rightarrow> tr_api \<Rightarrow> bool" where
  "calm_after limit api \<longleftrightarrow> (\<forall>h fd bs events timeout_ms. limit \<le> length h \<longrightarrow>
     k_write api h fd bs \<noteq> Inl EINTR \<and> k_poll api h fd events timeout_ms \<noteq> Inl EINTR)"

lemma poll_again_returns:
  assumes "calm_after limit api"
  shows "limit < length (trace s) + fuel \<Longrightarrow> 0 < fuel \<Longrightarrow>
    \<exists>r. fst (run_state (poll_again api fuel fd events timeout_ms) s) = Some r"
proof (induction fuel arbitrary: s)
  case (Suc fuel)
  show ?case
  proof (cases "k_poll api (trace s) fd events timeout_ms")
    case (Inl e)
    show ?thesis
    proof (cases "e = EINTR")
      case True
      then have "length (trace s) < limit"
        using assms Inl unfolding calm_after_def by (meson not_le)
      then show ?thesis using Suc.prems Inl True by (auto intro!: Suc.IH)
    qed (use Inl in auto)
  qed simp
qed simp

lemma write_bytes_run:
  assumes "calm_after limit api"
  obtains w s1 where "run_state (write_bytes api fd bs) s = (w, s1)"
    "length (trace s1) = Suc (length (trace s))"
    "w = None \<Longrightarrow> c_errno s1 = EINTR \<Longrightarrow> length (trace s) < limit"
proof (cases "k_write api (trace s) fd bs")
  case (Inl e)
  then show ?thesis
    using that assms by (simp add: write_bytes_def calm_after_def) (metis not_le)
next
  case (Inr n)
  then show ?thesis using that by (simp add: write_bytes_def)
qed

lemma flush_output_returns:
  assumes "calm_after limit api"
  shows "limit + tx_count t < length (trace s) + fuel \<Longrightarrow> tx_count t < fuel \<Longrightarrow>
    \<exists>r. fst (run_state (flush_output api fuel t) s) = Some r"
proof (induction fuel arbitrary: s t)
  case (Suc fuel)
  obtain w s1 where wrote: "run_state (write_bytes api (serial_fd t) (ring_front t)) s = (w, s1)"
    and s1: "length (trace s1) = Suc (length (trace s))"
      "w = None \<Longrightarrow> c_errno s1 = EINTR \<Longrightarrow> length (trace s) < limit"
    by (rule write_bytes_run [OF assms, of "serial_fd t" "ring_front t" s]) blast
  have again: "\<exists>r. fst (run_state (flush_output api fuel t) s1) = Some r"
    if "w = None" "c_errno s1 = EINTR"
    using Suc.IH [of t s1] Suc.prems s1 that by simp
  have more: "\<exists>r. fst (run_state (flush_output api fuel (t\<lparr>tx_head := h, tx_count := tx_count t - n\<rparr>)) s1) =
      Some r" if "0 < n" "0 < tx_count t" for n h
    using Suc.IH [of "t\<lparr>tx_head := h, tx_count := tx_count t - n\<rparr>" s1] Suc.prems s1(1) that by simp
  show ?case
    using wrote again more by (auto simp: Let_def ring_front_flush split: option.splits)
qed simp

lemma serial_wait_gives:
  assumes "calm_after limit api" and "limit + tx_count t < fuel"
  shows "\<exists>code t' s'. run_state (serial_transport_wait api fuel t timeout_ms) s = (Some (code, t'), s')"
proof -
  let ?events = "if tx_count t \<noteq> 0 then [POLLIN, POLLOUT] else [POLLIN]"
  obtain r s1 where poll: "run_state (poll_again api fuel (serial_fd t) ?events timeout_ms) s = (Some r, s1)"
    using poll_again_returns [OF assms(1), of s fuel] assms(2) by (fastforce simp: prod_eq_iff)
  obtain code t' s2 where "run_state (flush_output api fuel t) s1 = (Some (code, t'), s2)"
    using flush_output_returns [OF assms(1), of t s1 fuel] assms(2) by (fastforce simp: prod_eq_iff)
  with poll show ?thesis
    by (auto simp: serial_transport_wait_def split: option.splits)
qed

text \<open>An interrupted \<open>poll\<close> is made again; what it reports in the end is the answer to the last one.\<close>

lemma poll_again_answer:
  "ensures (poll_again api fuel fd events timeout_ms) (\<lambda>r es.
     \<forall>revents. r = Some (Some revents) \<longrightarrow>
       es \<noteq> [] \<and> last es = Poll_Ready fd events timeout_ms (Inr revents))"
proof (induction fuel)
  case (Suc fuel)
  show ?case
    unfolding poll_again.simps by (intro io_rules ensures_mono [OF Suc.IH]) auto
qed (auto intro!: io_rules)

definition timed_out :: "int \<Rightarrow> tr_event list \<Rightarrow> bool" where
  "timed_out timeout_ms es \<longleftrightarrow>
     (case rev es of Poll_Ready _ _ t (Inr []) # _ \<Rightarrow> t = timeout_ms | _ \<Rightarrow> False)"

lemma flush_output_any: "ensures (flush_output api fuel t) (\<lambda>_ _. True)"
proof (induction fuel arbitrary: t)
  case (Suc fuel)
  show ?case
    unfolding flush_output.simps write_bytes_def Let_def
    by (intro io_rules ensures_mono [OF Suc.IH]) simp_all
qed (auto intro!: io_rules)

lemma serial_wait_zero:
  "ensures (serial_transport_wait api fuel t timeout_ms)
     (\<lambda>r es. \<forall>t'. r = Some (0, t') \<longrightarrow> timed_out timeout_ms es)"
proof -
  have last: "timed_out timeout_ms es"
    if "es \<noteq> [] \<and> last es = Poll_Ready fd events timeout_ms (Inr [])" for es fd events
    using that by (cases es rule: rev_cases) (auto simp: timed_out_def)
  show ?thesis
    unfolding serial_transport_wait_def
    by (intro io_rules ensures_bind [OF poll_again_answer] ensures_bind [OF flush_output_any])
       (auto intro: last)
qed

text \<open>
  C36. Waiting on the serial port ends. If the kernel stops interrupting calls at some point, a wait
  returns after at most one round per interruption and per byte in the queue, however few bytes
  each write accepts. It does not return because of an interruption: the return value 0 means that
  the last \<open>poll\<close>, made with the whole timeout again after each interruption, has timed out.
\<close>

theorem serial_wait_returns:
  assumes "calm_after limit api" and "limit + tx_count t < fuel"
  shows "\<exists>code t' s' es. run_state (serial_transport_wait api fuel t timeout_ms) s = (Some (code, t'), s') \<and>
    trace s' = trace s @ es \<and> (code = 0 \<longrightarrow> timed_out timeout_ms es)"
proof -
  obtain code t' s' where run: "run_state (serial_transport_wait api fuel t timeout_ms) s = (Some (code, t'), s')"
    using serial_wait_gives [OF assms] by blast
  obtain es where "trace s' = trace s @ es" "code = 0 \<longrightarrow> timed_out timeout_ms es"
    by (rule ensuresE [OF serial_wait_zero run]) simp
  with run show ?thesis by blast
qed

definition calm_kernel :: tr_api where
  "calm_kernel = \<lparr>k_open = (\<lambda>_ _. Inr 3), k_tcgetattr = (\<lambda>_ _. Inr zero_termios),
     k_tcsetattr = (\<lambda>_ _ _. Inr ()), k_read = (\<lambda>_ _. Inr None), k_write = (\<lambda>_ _ _. Inr 1),
     k_poll = (\<lambda>h _ _ _. if h = [] then Inl EINTR else Inr [POLLOUT]), k_socket = (\<lambda>_. Inr 3),
     k_bind = (\<lambda>_ _ _. Inr ()), k_listen = (\<lambda>_ _. Inr ()), k_accept = (\<lambda>_ _. Some (Inr 4)),
     k_connect = (\<lambda>_ _ _. Inr ()), k_send = (\<lambda>_ _ _. Inr 1), k_recv = (\<lambda>_ _. Inr None)\<rparr>"

theorem serial_wait_returns_witness:
  "\<exists>code t' s' es. run_state (serial_transport_wait calm_kernel 4
     \<lparr>serial_fd = 3, device = [], baud = 9600, databits = 8, parity = 0, stopbits = 1, flow = 0,
      saved_tty = zero_termios, tx_queue = replicate serial_transport_tx_capacity 7, tx_head = 5,
      tx_count = 2\<rparr> 20) \<lparr>trace = [], c_errno = E_OK\<rparr> = (Some (code, t'), s') \<and>
    trace s' = trace \<lparr>trace = [], c_errno = E_OK\<rparr> @ es \<and> (code = 0 \<longrightarrow> timed_out 20 es)"
  by (rule serial_wait_returns [where limit = 1]) (auto simp: calm_after_def calm_kernel_def)

subsection \<open>The life of a local transport\<close>

datatype local_op = Local_Send u8 | Local_Recv | Local_Wait int

fun local_session :: "tr_api \<Rightarrow> nat \<Rightarrow> server_local_transport \<Rightarrow> local_op list \<Rightarrow> (tr_event, unit) io" where
  "local_session api fuel t [] = State_Monad.return ()"
| "local_session api fuel t (Local_Send c # ops) = do {
     _ \<leftarrow> local_send_char api (local_transport_activate t) c;
     local_session api fuel t ops }"
| "local_session api fuel t (Local_Recv # ops) = do {
     _ \<leftarrow> local_recv_char api (local_transport_activate t);
     local_session api fuel t ops }"
| "local_session api fuel t (Local_Wait timeout_ms # ops) = do {
     _ \<leftarrow> local_transport_wait api fuel t timeout_ms;
     local_session api fuel t ops }"

text \<open>
  The server's side, as \<open>run_server_runtime\<close> uses it; it closes also when \<open>accept\<close> fails. \<open>None\<close> while
  it waits for a client.
\<close>

definition local_life ::
  "tr_api \<Rightarrow> nat \<Rightarrow> server_local_transport \<Rightarrow> bytes \<Rightarrow> local_op list \<Rightarrow> (tr_event, int option) io" where
  "local_life api fuel old path ops = do {
     opened \<leftarrow> local_transport_listen api old path;
     case opened of (r, t) \<Rightarrow>
       if r \<noteq> 0 then State_Monad.return (Some 1)
       else do {
         accepted \<leftarrow> local_transport_accept api t;
         case accepted of
           None \<Rightarrow> State_Monad.return None
         | Some (r, t) \<Rightarrow>
             if r \<noteq> 0 then do { _ \<leftarrow> local_transport_close t; State_Monad.return (Some 1) }
             else do {
               _ \<leftarrow> local_session api fuel t ops;
               _ \<leftarrow> local_transport_close t;
               State_Monad.return (Some 0) } } }"

text \<open>Whether the socket file that \<open>bind\<close> creates at \<open>path\<close> is there.\<close>

fun file_step :: "bytes \<Rightarrow> bool \<Rightarrow> tr_event \<Rightarrow> bool" where
  "file_step path b (Bind _ q (Inr _)) = (b \<or> q = path)"
| "file_step path b (Unlink q) = (b \<and> q \<noteq> path)"
| "file_step path b _ = b"

definition socket_file :: "bytes \<Rightarrow> bool \<Rightarrow> tr_event list \<Rightarrow> bool" where
  "socket_file path = foldl (file_step path)"

lemma socket_file_simps [simp]:
  "socket_file path b [] = b" "socket_file path b (e # es) = socket_file path (file_step path b e) es"
  "socket_file path b (es @ es') = socket_file path (socket_file path b es) es'"
  by (simp_all add: socket_file_def)

definition quiet :: "tr_event list \<Rightarrow> bool" where
  "quiet es \<longleftrightarrow> acquired es = {#} \<and> released es = {#} \<and> (\<forall>path b. socket_file path b es = b)"

lemma quiet_simps [simp]:
  "quiet []" "quiet (e # es) \<longleftrightarrow> acquired_of e + acquired es = {#} \<and> released_of e + released es = {#} \<and>
     (\<forall>path b. socket_file path (file_step path b e) es = b)"
  "quiet es \<Longrightarrow> quiet es' \<Longrightarrow> quiet (es @ es')"
  by (simp_all add: quiet_def)

lemma poll_again_quiet: "ensures (poll_again api fuel fd events timeout_ms) (\<lambda>_ es. quiet es)"
proof (induction fuel)
  case (Suc fuel)
  show ?case
    unfolding poll_again.simps
    by (intro io_rules ensures_mono [OF Suc.IH]) (auto simp: quiet_def)
qed (auto intro!: io_rules)

lemma local_wait_quiet: "ensures (local_transport_wait api fuel t timeout_ms) (\<lambda>_ es. quiet es)"
  unfolding local_transport_wait_def
  by (intro io_rules ensures_bind [OF poll_again_quiet]) auto

lemma local_session_quiet: "ensures (local_session api fuel t ops) (\<lambda>_ es. quiet es)"
proof (induction ops)
  case (Cons op ops)
  show ?case
  proof (cases op)
    case (Local_Wait timeout_ms)
    show ?thesis
      unfolding Local_Wait local_session.simps
      by (intro ensures_bind [OF local_wait_quiet] ensures_mono [OF Cons.IH]) simp
  qed (auto simp: local_send_char_def local_recv_char_def quiet_def
        intro!: io_rules ensures_mono [OF Cons.IH])
qed (auto intro!: io_rules)

definition listening :: "bytes \<Rightarrow> int \<times> server_local_transport \<Rightarrow> tr_event list \<Rightarrow> bool" where
  "listening path r es \<longleftrightarrow>
     (case r of (code, t) \<Rightarrow>
        if code = 0 then 0 \<le> listen_fd t \<and> local_client_fd t = -1 \<and> socket_path t = path \<and>
          acquired es = {#listen_fd t#} \<and> released es = {#}
        else acquired es = released es \<and> (\<forall>b. socket_file path b es \<longrightarrow> b))"

lemma local_transport_listen_contract:
  "ensures (local_transport_listen api old path) (listening path)"
  unfolding local_transport_listen_def close_fd_def
  by (intro io_rules)
     (auto simp: listening_def local_init_transport_fields_def local_transport_socket_path_max_def)

lemma local_transport_close_contract:
  "ensures (local_transport_close t) (\<lambda>_ es. acquired es = {#} \<and>
     released es = (if 0 \<le> local_client_fd t then {#local_client_fd t#} else {#}) +
       (if 0 \<le> listen_fd t then {#listen_fd t#} else {#}) \<and>
     (\<forall>b. socket_file (socket_path t) b es = (b \<and> listen_fd t < 0)))"
  unfolding local_transport_close_def close_fd_def by (intro io_rules) auto

text \<open>The last thing a process does that waits for its first client.\<close>

definition awaits_client :: "tr_event list \<Rightarrow> bool" where
  "awaits_client es \<longleftrightarrow> (case rev es of Accept_Waits _ # _ \<Rightarrow> True | _ \<Rightarrow> False)"

lemma awaits_client_append: "awaits_client es' \<Longrightarrow> awaits_client (es @ es')"
  by (cases "rev es'") (auto simp: awaits_client_def)

definition accepting ::
  "server_local_transport \<Rightarrow> (int \<times> server_local_transport) option \<Rightarrow> tr_event list \<Rightarrow> bool" where
  "accepting t r es \<longleftrightarrow> (\<forall>path b. socket_file path b es = b) \<and> released es = {#} \<and>
     (case r of
        None \<Rightarrow> awaits_client es \<and> acquired es = {#}
      | Some (code, t') \<Rightarrow>
          (if code = 0 then 0 \<le> local_client_fd t' \<and> listen_fd t' = listen_fd t \<and> socket_path t' = socket_path t \<and>
             acquired es = {#local_client_fd t'#}
           else t' = t \<and> acquired es = {#}))"

lemma local_transport_accept_contract: "ensures (local_transport_accept api t) (accepting t)"
  unfolding local_transport_accept_def call_accept_def
  by (intro io_rules) (auto simp: accepting_def awaits_client_def split: option.splits)

text \<open>
  C35. The local transport closes what it opens and removes its socket file. Over a run of the
  server's side, with any answers of the kernel and any order of hook calls and waits, also when
  \<open>bind\<close>, \<open>listen\<close> or \<open>accept\<close> fails, the descriptors closed are exactly the descriptors opened,
  and the run leaves no socket file behind at the path. The only run without an end is one whose
  \<open>accept\<close> waits for a client that never comes.
\<close>

theorem local_life_balanced:
  "ensures (local_life api fuel old path ops)
     (\<lambda>code es. if code = None then awaits_client es
        else acquired es = released es \<and> \<not> socket_file path False es)"
  unfolding local_life_def
  by (intro ensures_bind [OF local_transport_listen_contract]
      ensures_bind [OF local_transport_accept_contract]
      ensures_bind [OF local_session_quiet] ensures_bind [OF local_transport_close_contract] io_rules)
     (auto simp: listening_def accepting_def quiet_def awaits_client_append split: if_splits)

subsection \<open>The clock\<close>

lemma tick_periods:
  fixes tv_sec tv_nsec :: int
  assumes "0 \<le> tv_nsec"
  shows "(tv_sec * 1000 + tv_nsec div 1000000) div 20 = tv_sec * 50 + tv_nsec div 20000000"
proof -
  have "(tv_sec * 1000 + tv_nsec div 1000000) div 20 = (tv_sec * 50 * 20 + tv_nsec div 1000000) div 20"
    by simp
  also have "\<dots> = tv_sec * 50 + tv_nsec div 1000000 div 20"
    by (rule div_mult_self3) simp
  finally show ?thesis
    using zdiv_zmult2_eq [of 20 tv_nsec 1000000] by simp
qed

text \<open>
  The clock hooks count periods of 20 milliseconds. For every reading of the monotonic clock
  the tick is the number of whole 20 ms periods since the clock's origin, wrapping at 256; the
  64 bit arithmetic of the C expression never shows.
\<close>

theorem tick_counts_20ms:
  assumes "0 \<le> tv_nsec" and "tv_nsec < 1000000000"
  shows "serial_get_tick tv_sec tv_nsec = word_of_int ((tv_sec * 1000 + tv_nsec div 1000000) div 20) \<and>
    local_get_tick tv_sec tv_nsec = serial_get_tick tv_sec tv_nsec"
proof -
  have nsec: "(word_of_int tv_nsec :: 64 word) div 20000000 = word_of_int (tv_nsec div 20000000)"
    using assms by (simp add: word_div_def uint_word_of_int_eq take_bit_int_eq_self)
  have "(ucast (word_of_int x :: 64 word) :: u8) = word_of_int x" for x
    by (rule bit_word_eqI) (simp add: bit_simps)
  from this [of "tv_sec * 50 + tv_nsec div 20000000"] show ?thesis
    by (simp add: serial_get_tick_def local_get_tick_def nsec tick_periods [OF assms(1)])
qed

theorem tick_counts_20ms_witness:
  "serial_get_tick 5 119999999 = word_of_int ((5 * 1000 + 119999999 div 1000000) div 20) \<and>
   serial_get_tick 5 120000000 = serial_get_tick 5 119999999 + 1"
  using tick_counts_20ms [of 119999999 5] tick_counts_20ms [of 120000000 5] by simp

end
