(* ===== verification/Server_Run.thy ===== *)
theory Server_Run
  imports Server_Startup Transport_Properties
begin

text \<open>
  The server as a process: the log back end (\<open>src/log/server_log.c\<close>), daemonisation, signal
  handlers and \<open>run_server_runtime\<close> (\<open>src/runtime/server_runtime.c\<close>), and the entry point
  \<open>run_server_app\<close> (\<open>src/app/server_app.c\<close>) with its usage text (\<open>src/config/server_config.c\<close>).

  The parts of the server that have their own events, the plugin loader, the transports and the
  dispatch loop, run one after the other as phases of the process: a phase starts with an empty
  trace of its own, its environment is chosen by the whole history of the process so far, and its
  events become events of the process. The text of a log call inside a phase is the phase's log
  event. One process is followed through \<open>fork\<close>: the answer 0 is the child, any other the parent.
\<close>

subsection \<open>Events and environment\<close>

datatype syslog_priority = LOG_INFO | LOG_WARNING | LOG_ERR

datatype signal_number = SIGINT | SIGTERM

datatype server_event =
    Ev_Loader dl_event
  | Ev_Transport tr_event
  | Ev_Runtime rt_event
  | Fork "errno + nat"
  | Setsid "errno + unit"
  | Exit_Now int
  | Chdir bytes "errno + unit"
  | Umask nat
  | Freopen bytes bytes std_stream "errno + unit"
  | Set_Handler signal_number "errno + unit"
  | Openlog bytes
  | Closelog
  | Syslog syslog_priority bytes
  | Print std_stream bytes
  | Snet_Init squid_timing

record server_api =
  srv_loader :: "server_event list \<Rightarrow> dl_api"
  srv_transport :: "server_event list \<Rightarrow> tr_api"
  srv_runtime :: "server_event list \<Rightarrow> rt_api"
  srv_fopen :: "server_event list \<Rightarrow> bytes \<Rightarrow> bytes option"
  srv_stage_root :: "bytes option"
  srv_fork :: "server_event list \<Rightarrow> errno + nat"
  srv_setsid :: "server_event list \<Rightarrow> errno + unit"
  srv_chdir :: "server_event list \<Rightarrow> bytes \<Rightarrow> errno + unit"
  srv_freopen :: "server_event list \<Rightarrow> bytes \<Rightarrow> bytes \<Rightarrow> std_stream \<Rightarrow> errno + unit"
  srv_signal :: "server_event list \<Rightarrow> signal_number \<Rightarrow> errno + unit"
  srv_strerror :: "errno \<Rightarrow> bytes option"

subsection \<open>The log\<close>

definition server_log_level_name :: "log_level \<Rightarrow> bytes" where
  "server_log_level_name level =
     (case level of server_log_level_info \<Rightarrow> ascii ''info''
      | server_log_level_warning \<Rightarrow> ascii ''warning''
      | server_log_level_error \<Rightarrow> ascii ''error'')"

definition server_log_level_priority :: "log_level \<Rightarrow> syslog_priority" where
  "server_log_level_priority level =
     (case level of server_log_level_info \<Rightarrow> LOG_INFO
      | server_log_level_warning \<Rightarrow> LOG_WARNING
      | server_log_level_error \<Rightarrow> LOG_ERR)"

text \<open>The result is the new value of \<open>current_run_mode\<close>.\<close>

definition init_server_log :: "server_run_mode \<Rightarrow> (server_event, server_run_mode) io" where
  "init_server_log mode = do {
     _ \<leftarrow> (if mode = server_run_mode_daemon then emit (Openlog (ascii ''squid-server''))
           else State_Monad.return ());
     State_Monad.return mode }"

definition close_server_log :: "server_run_mode \<Rightarrow> (server_event, unit) io" where
  "close_server_log current_run_mode =
     (if current_run_mode = server_run_mode_daemon then emit Closelog else State_Monad.return ())"

definition write_server_log :: "server_run_mode \<Rightarrow> log_level \<Rightarrow> bytes \<Rightarrow> (server_event, unit) io" where
  "write_server_log current_run_mode level message =
     (if current_run_mode = server_run_mode_daemon
      then emit (Syslog (server_log_level_priority level) message)
      else emit (Print Std_Out
        (ascii ''['' @ server_log_level_name level @ ascii ''] '' @ message @ [10])))"

definition log_buffer_size :: nat where "log_buffer_size = 512"

definition write_server_log_errno ::
  "server_api \<Rightarrow> server_run_mode \<Rightarrow> log_level \<Rightarrow> bytes \<Rightarrow> errno \<Rightarrow> (server_event, unit) io" where
  "write_server_log_errno api current_run_mode level message error_number =
     (let error_text = (case srv_strerror api error_number of
            None \<Rightarrow> ascii ''unknown error''
          | Some t \<Rightarrow> if t = [] then ascii ''unknown error'' else t)
      in write_server_log current_run_mode level
           (take (log_buffer_size - 1) (message @ ascii '': '' @ error_text)))"

text \<open>A call with the current \<open>errno\<close>, the form all calls of the runtime have.\<close>

definition log_failure ::
  "server_api \<Rightarrow> server_run_mode \<Rightarrow> bytes \<Rightarrow> (server_event, unit) io" where
  "log_failure api current_run_mode message = do {
     e \<leftarrow> get_errno;
     write_server_log_errno api current_run_mode server_log_level_error message e }"

subsection \<open>Becoming a daemon\<close>

text \<open>How a function leaves: it returns a value, or the process ends inside it.\<close>

datatype outcome = Returns int | Process_Exits int

definition dev_null :: bytes where "dev_null = ascii ''/dev/null''"

definition reopen :: "server_api \<Rightarrow> bytes \<Rightarrow> std_stream \<Rightarrow> (server_event, unit option) io" where
  "reopen api mode stream =
     syscall (\<lambda>h. srv_freopen api h dev_null mode stream) (Freopen dev_null mode stream)"

text \<open>The part after the second \<open>fork\<close>, in the process that stays.\<close>

definition detach_process :: "server_api \<Rightarrow> (server_event, int) io" where
  "detach_process api = do {
     moved \<leftarrow> syscall (\<lambda>h. srv_chdir api h (ascii ''/'')) (Chdir (ascii ''/''));
     if moved = None then State_Monad.return (-1)
     else do {
       _ \<leftarrow> emit (Umask 0);
       input \<leftarrow> reopen api (ascii ''r'') Std_In;
       if input = None then State_Monad.return (-1)
       else do {
         out \<leftarrow> reopen api (ascii ''a'') Std_Out;
         if out = None then State_Monad.return (-1)
         else do {
           err \<leftarrow> reopen api (ascii ''a'') Std_Err;
           if err = None then State_Monad.return (-1) else State_Monad.return 1 } } } }"

definition daemonize_process :: "server_api \<Rightarrow> (server_event, outcome) io" where
  "daemonize_process api = do {
     process_id \<leftarrow> syscall (srv_fork api) Fork;
     case process_id of
       None \<Rightarrow> State_Monad.return (Returns (-1))
     | Some pid \<Rightarrow>
         if pid > 0 then State_Monad.return (Returns 0)
         else do {
           session \<leftarrow> syscall (srv_setsid api) Setsid;
           if session = None then State_Monad.return (Returns (-1))
           else do {
             process_id \<leftarrow> syscall (srv_fork api) Fork;
             case process_id of
               None \<Rightarrow> State_Monad.return (Returns (-1))
             | Some pid \<Rightarrow>
                 if pid > 0 then do {
                   _ \<leftarrow> emit (Exit_Now 0);
                   State_Monad.return (Process_Exits 0) }
                 else do {
                   result \<leftarrow> detach_process api;
                   State_Monad.return (Returns result) } } } }"

definition install_signal_handlers :: "server_api \<Rightarrow> (server_event, int) io" where
  "install_signal_handlers api = do {
     interrupt \<leftarrow> syscall (\<lambda>h. srv_signal api h SIGINT) (Set_Handler SIGINT);
     if interrupt = None then State_Monad.return (-1)
     else do {
       terminate \<leftarrow> syscall (\<lambda>h. srv_signal api h SIGTERM) (Set_Handler SIGTERM);
       if terminate = None then State_Monad.return (-1) else State_Monad.return 0 } }"

subsection \<open>The transport\<close>

definition squid_timing_defaults :: squid_timing where
  "squid_timing_defaults = \<lparr>timeout_ticks = 200, ack_delay_ticks = 0, ping_ticks = 0,
     max_retries = 5, payload_bytes = 0\<rparr>"

text \<open>The embedded structures as the \<open>memset\<close> of \<open>init_server_runtime\<close> leaves them.\<close>

definition zero_serial_transport :: server_serial_transport where
  "zero_serial_transport = \<lparr>serial_fd = 0, device = [], baud = 0, databits = 0, parity = 0,
     stopbits = 0, flow = 0, saved_tty = zero_termios,
     tx_queue = replicate serial_transport_tx_capacity 0, tx_head = 0, tx_count = 0\<rparr>"

definition zero_local_transport :: server_local_transport where
  "zero_local_transport = \<lparr>listen_fd = 0, local_client_fd = 0, socket_path = []\<rparr>"

datatype open_transport = Serial server_serial_transport | Local server_local_transport

definition message_size :: nat where "message_size = 128"

definition show_int :: "int \<Rightarrow> bytes" where
  "show_int n = (if n < 0 then ascii ''-'' @ show_nat (nat (- n)) else show_nat (nat n))"

definition startup_message :: "server_run_mode \<Rightarrow> nat \<Rightarrow> bytes" where
  "startup_message mode loaded_count = take (message_size - 1)
     (ascii ''squid-server starting in '' @ server_run_mode_name mode @ ascii '' mode with '' @
      show_nat server_port_count @ ascii '' plugin slots and '' @ show_nat loaded_count @
      ascii '' loaded plugins'')"

definition serial_config :: "server_plugin_config_file \<Rightarrow> serial_transport_config" where
  "serial_config config = \<lparr>cfg_device = serial_device config, cfg_baud = serial_baud config,
     cfg_databits = serial_databits config, cfg_parity = serial_parity config,
     cfg_stopbits = serial_stopbits config, cfg_flow = serial_flow config\<rparr>"

text \<open>Both branches give the transport, \<open>Some None\<close> after an error, and \<open>None\<close> while \<open>accept\<close> waits.\<close>

definition start_serial_transport ::
  "server_api \<Rightarrow> server_run_mode \<Rightarrow> server_plugin_config_file \<Rightarrow>
     (server_event, open_transport option option) io" where
  "start_serial_transport api mode config = do {
     _ \<leftarrow> write_server_log mode server_log_level_info (take (message_size - 1)
       (ascii ''opening serial transport on '' @ serial_device config @ ascii '' at '' @
        show_int (serial_baud config) @ ascii '' baud''));
     (result, transport) \<leftarrow> phase Ev_Transport (\<lambda>h.
       serial_transport_open (srv_transport api h) zero_serial_transport (serial_config config));
     if result \<noteq> 0 then do {
       _ \<leftarrow> log_failure api mode (ascii ''failed to open serial transport'');
       State_Monad.return (Some None) }
     else State_Monad.return (Some (Some (Serial transport))) }"

definition start_local_transport ::
  "server_api \<Rightarrow> server_run_mode \<Rightarrow> (server_event, open_transport option option) io" where
  "start_local_transport api mode = do {
     (result, transport) \<leftarrow> phase Ev_Transport (\<lambda>h.
       local_transport_listen (srv_transport api h) zero_local_transport local_transport_default_socket_path);
     if result \<noteq> 0 then do {
       _ \<leftarrow> log_failure api mode (ascii ''failed to create local transport socket'');
       State_Monad.return (Some None) }
     else do {
       _ \<leftarrow> write_server_log mode server_log_level_info (take (message_size - 1)
         (ascii ''waiting for client on '' @ local_transport_default_socket_path));
       accepted \<leftarrow> phase Ev_Transport (\<lambda>h. local_transport_accept (srv_transport api h) transport);
       case accepted of
         None \<Rightarrow> State_Monad.return None
       | Some (result, transport) \<Rightarrow>
           if result \<noteq> 0 then do {
             _ \<leftarrow> log_failure api mode (ascii ''failed to accept client connection'');
             _ \<leftarrow> phase Ev_Transport (\<lambda>h. local_transport_close transport);
             State_Monad.return (Some None) }
           else do {
             _ \<leftarrow> write_server_log mode server_log_level_info (ascii ''client connected'');
             State_Monad.return (Some (Some (Local transport))) } } }"

text \<open>
  The last step of both branches, activation and \<open>snet_init\<close>, and the closing after the loop. The
  hooks and waits in between change a serial transport's output queue only, which the closing does
  not read.
\<close>

definition stop_transport :: "server_api \<Rightarrow> open_transport \<Rightarrow> (server_event, unit) io" where
  "stop_transport api transport =
     (case transport of
        Serial t \<Rightarrow> do {
          _ \<leftarrow> phase Ev_Transport (\<lambda>h. serial_transport_close (srv_transport api h) t);
          State_Monad.return () }
      | Local t \<Rightarrow> do {
          _ \<leftarrow> phase Ev_Transport (\<lambda>h. local_transport_close t);
          State_Monad.return () })"

subsection \<open>The run\<close>

text \<open>What every exit after the start of the log ends with.\<close>

definition unload_and_close ::
  "server_api \<Rightarrow> server_run_mode \<Rightarrow> startup_result \<Rightarrow> (server_event, unit) io" where
  "unload_and_close api mode started = do {
     _ \<leftarrow> phase Ev_Loader (\<lambda>h.
       unload_server_plugins (srv_loader api h) (startup_loader started) (startup_registry started));
     close_server_log mode }"

text \<open>
  From the loaded plugins to the end; \<open>None\<close> when \<open>accept\<close> waits for ever or the fuel of the dispatch
  loop runs out.
\<close>

definition serve_and_stop ::
  "server_api \<Rightarrow> nat \<Rightarrow> server_run_mode \<Rightarrow> startup_result \<Rightarrow> (server_event, outcome option) io" where
  "serve_and_stop api fuel mode started = do {
     _ \<leftarrow> write_server_log mode server_log_level_info
       (startup_message mode (length (startup_loader started)));
     transport \<leftarrow> (if serial_device (startup_config started) \<noteq> []
       then start_serial_transport api mode (startup_config started)
       else start_local_transport api mode);
     case transport of
       None \<Rightarrow> State_Monad.return None
     | Some None \<Rightarrow> do {
         _ \<leftarrow> unload_and_close api mode started;
         State_Monad.return (Some (Returns 1)) }
     | Some (Some transport) \<Rightarrow> do {
         _ \<leftarrow> emit (Snet_Init (squid_timing_defaults\<lparr>payload_bytes :=
           word_of_int (squid_payload (startup_config started))\<rparr>));
         served \<leftarrow> phase Ev_Runtime (\<lambda>h. serve (srv_runtime api h) fuel
           (init_server_runtime\<lparr>plugin_registry := startup_registry started\<rparr>));
         case served of
           None \<Rightarrow> State_Monad.return None
         | Some _ \<Rightarrow> do {
             _ \<leftarrow> stop_transport api transport;
             _ \<leftarrow> write_server_log mode server_log_level_info (ascii ''squid-server shutting down'');
             _ \<leftarrow> unload_and_close api mode started;
             State_Monad.return (Some (Returns 0)) } } }"

text \<open>From \<open>init_server_log\<close> on.\<close>

definition run_logged ::
  "server_api \<Rightarrow> nat \<Rightarrow> server_config \<Rightarrow> (server_event, outcome option) io" where
  "run_logged api fuel config = do {
     mode \<leftarrow> init_server_log (run_mode config);
     installed \<leftarrow> install_signal_handlers api;
     if installed \<noteq> 0 then do {
       _ \<leftarrow> log_failure api mode (ascii ''failed to install signal handlers'');
       _ \<leftarrow> close_server_log mode;
       State_Monad.return (Some (Returns 1)) }
     else do {
       started \<leftarrow> phase Ev_Loader (\<lambda>h. load_configured_plugins (srv_loader api h)
         (srv_stage_root api) (srv_fopen api h) (Some (config_path config)));
       if \<not> startup_ok started then do {
         _ \<leftarrow> unload_and_close api mode started;
         State_Monad.return (Some (Returns 1)) }
       else serve_and_stop api fuel mode started } }"

text \<open>
  What \<open>run_server_runtime\<close> makes of the result of \<open>daemonize_process\<close>; before \<open>init_server_log\<close>
  the log writes to the console.
\<close>

definition after_daemonize ::
  "server_api \<Rightarrow> nat \<Rightarrow> server_config \<Rightarrow> outcome \<Rightarrow> (server_event, outcome option) io" where
  "after_daemonize api fuel config daemon =
     (case daemon of
        Process_Exits code \<Rightarrow> State_Monad.return (Some (Process_Exits code))
      | Returns daemon_result \<Rightarrow>
          if daemon_result < 0 then do {
            _ \<leftarrow> log_failure api server_run_mode_console (ascii ''failed to daemonize squid-server'');
            State_Monad.return (Some (Returns 1)) }
          else if daemon_result = 0 then State_Monad.return (Some (Returns 0))
          else run_logged api fuel config)"

definition run_server_runtime ::
  "server_api \<Rightarrow> nat \<Rightarrow> server_config \<Rightarrow> (server_event, outcome option) io" where
  "run_server_runtime api fuel config =
     (if run_mode config = server_run_mode_daemon then do {
        daemon \<leftarrow> daemonize_process api;
        after_daemonize api fuel config daemon }
      else run_logged api fuel config)"

subsection \<open>The entry point\<close>

definition print_server_usage :: "bytes option \<Rightarrow> (server_event, unit) io" where
  "print_server_usage program_name = do {
     _ \<leftarrow> emit (Print Std_Out (ascii ''usage: '' @
       (case program_name of None \<Rightarrow> ascii ''squid-server'' | Some name \<Rightarrow> name) @
       ascii '' [--console | --daemon] [--config path] [--help]'' @ [10]));
     _ \<leftarrow> emit (Print Std_Out (ascii ''  --console  run in the foreground'' @ [10]));
     _ \<leftarrow> emit (Print Std_Out (ascii ''  --daemon   detach and run as a classic linux daemon'' @ [10]));
     _ \<leftarrow> emit (Print Std_Out (ascii ''  --config   read plugin mapping configuration from a file'' @ [10]));
     emit (Print Std_Out (ascii ''  --help     show this help message'' @ [10])) }"

text \<open>\<open>argv\<close> as a list; \<open>argv[0]\<close> is \<open>NULL\<close> when \<open>argc\<close> is 0.\<close>

definition run_server_app ::
  "server_api \<Rightarrow> nat \<Rightarrow> bytes list \<Rightarrow> (server_event, outcome option) io" where
  "run_server_app api fuel argv =
     (let name = (case argv of [] \<Rightarrow> None | a # _ \<Rightarrow> Some a) in
      case parse_server_config argv of
        Inl message \<Rightarrow> do {
          _ \<leftarrow> emit (Print Std_Err (ascii ''argument error: '' @ message @ [10]));
          _ \<leftarrow> print_server_usage name;
          State_Monad.return (Some (Returns 1)) }
      | Inr config \<Rightarrow>
          if show_help config then do {
            _ \<leftarrow> print_server_usage name;
            State_Monad.return (Some (Returns 0)) }
          else run_server_runtime api fuel config)"

end
