(* ===== verification/Server_Life.thy ===== *)
theory Server_Life
  imports Server_Run
begin

text \<open>
  The life of the server process, over all its parts: whatever way it ends, what it opened is
  closed, the plugins are stopped last, and the log is used only while it is open.
\<close>

subsection \<open>Parts of the trace\<close>

fun loader_event :: "server_event \<Rightarrow> dl_event list" where
  "loader_event (Ev_Loader e) = [e]"
| "loader_event _ = []"

fun transport_event :: "server_event \<Rightarrow> tr_event list" where
  "transport_event (Ev_Transport e) = [e]"
| "transport_event _ = []"

fun runtime_event :: "server_event \<Rightarrow> rt_event list" where
  "runtime_event (Ev_Runtime e) = [e]"
| "runtime_event _ = []"

definition loader_part :: "server_event list \<Rightarrow> dl_event list" where
  "loader_part es = concat (map loader_event es)"

definition transport_part :: "server_event list \<Rightarrow> tr_event list" where
  "transport_part es = concat (map transport_event es)"

definition runtime_part :: "server_event list \<Rightarrow> rt_event list" where
  "runtime_part es = concat (map runtime_event es)"

lemma part_simps [simp]:
  "loader_part [] = []" "loader_part (e # es) = loader_event e @ loader_part es"
  "loader_part (es @ es') = loader_part es @ loader_part es'"
  "transport_part [] = []" "transport_part (e # es) = transport_event e @ transport_part es"
  "transport_part (es @ es') = transport_part es @ transport_part es'"
  "runtime_part [] = []" "runtime_part (e # es) = runtime_event e @ runtime_part es"
  "runtime_part (es @ es') = runtime_part es @ runtime_part es'"
  by (simp_all add: loader_part_def transport_part_def runtime_part_def)

lemma part_loader [simp]:
  "loader_part (map Ev_Loader ds) = ds" "transport_part (map Ev_Loader ds) = []"
  "runtime_part (map Ev_Loader ds) = []"
  by (induction ds) simp_all

lemma part_transport [simp]:
  "loader_part (map Ev_Transport ts) = []" "transport_part (map Ev_Transport ts) = ts"
  "runtime_part (map Ev_Transport ts) = []"
  by (induction ts) simp_all

lemma part_runtime [simp]:
  "loader_part (map Ev_Runtime rs) = []" "transport_part (map Ev_Runtime rs) = []"
  "runtime_part (map Ev_Runtime rs) = rs"
  by (induction rs) simp_all

text \<open>Log calls inside a phase.\<close>

fun logs :: "server_event \<Rightarrow> bool" where
  "logs (Ev_Loader (Config_Log _)) = True"
| "logs (Ev_Loader (Plugin_Log _ _ _ _)) = True"
| "logs (Ev_Runtime (Log _ _)) = True"
| "logs _ = False"

text \<open>
  The system log, open or not: \<open>None\<close> when it is opened twice, closed while not open, or written
  to while not open, and also when something is printed while it is open. A log call inside a phase
  writes to it when \<open>daemon\<close> holds.
\<close>

fun syslog_after :: "bool \<Rightarrow> bool \<Rightarrow> server_event list \<Rightarrow> bool option" where
  "syslog_after daemon open [] = Some open"
| "syslog_after daemon open (Openlog _ # es) = (if open then None else syslog_after daemon True es)"
| "syslog_after daemon open (Closelog # es) = (if open then syslog_after daemon False es else None)"
| "syslog_after daemon open (Syslog _ _ # es) = (if open then syslog_after daemon open es else None)"
| "syslog_after daemon open (Print _ _ # es) = (if open then None else syslog_after daemon open es)"
| "syslog_after daemon open (e # es) =
     (if logs e \<and> daemon \<and> \<not> open then None else syslog_after daemon open es)"

lemma syslog_after_append [simp]:
  "syslog_after d b (xs @ ys) = (case syslog_after d b xs of None \<Rightarrow> None | Some b' \<Rightarrow> syslog_after d b' ys)"
  by (induction d b xs rule: syslog_after.induct) auto

lemma syslog_after_loader [simp]: "syslog_after d d (map Ev_Loader ds) = Some d"
  by (induction ds) simp_all

lemma syslog_after_transport [simp]: "syslog_after d d (map Ev_Transport ts) = Some d"
  by (induction ts) simp_all

lemma syslog_after_runtime [simp]: "syslog_after d d (map Ev_Runtime rs) = Some d"
  by (induction rs) simp_all

fun stops :: "server_event \<Rightarrow> bool" where
  "stops (Ev_Loader (Stop _ _)) = True"
| "stops _ = False"

text \<open>From the first plugin stopped on, nothing is served and no transport is touched.\<close>

definition plugins_stop_last :: "server_event list \<Rightarrow> bool" where
  "plugins_stop_last es \<longleftrightarrow> (let rest = dropWhile (\<lambda>e. \<not> stops e) es in
     runtime_part rest = [] \<and> transport_part rest = [])"

definition all_released :: "server_event list \<Rightarrow> bool" where
  "all_released es \<longleftrightarrow>
     opened_handles (loader_part es) = closed_handles (loader_part es) \<and>
     acquired (transport_part es) = released (transport_part es) \<and>
     opened_sockets (runtime_part es) = closed_sockets (runtime_part es) \<and>
     \<not> socket_file local_transport_default_socket_path False (transport_part es)"

lemma stopped_plugins_Nil: "stopped_plugins ds = [] \<longleftrightarrow> (\<forall>e \<in> set (map Ev_Loader ds). \<not> stops e)"
  by (induction ds rule: stopped_plugins.induct) auto

lemma parts_dropWhile:
  "runtime_part es = [] \<Longrightarrow> runtime_part (dropWhile P es) = []"
  "transport_part es = [] \<Longrightarrow> transport_part (dropWhile P es) = []"
  by (induction es) auto

lemma plugins_stop_last_append:
  "list_all (\<lambda>e. \<not> stops e) xs \<Longrightarrow> plugins_stop_last (xs @ ys) = plugins_stop_last ys"
  by (simp add: plugins_stop_last_def list_all_iff dropWhile_append2)

lemma plugins_stop_last_quiet:
  "runtime_part es = [] \<Longrightarrow> transport_part es = [] \<Longrightarrow> plugins_stop_last es"
  by (simp add: plugins_stop_last_def parts_dropWhile)

subsection \<open>Contracts of the parts\<close>

abbreviation is_daemon :: "server_run_mode \<Rightarrow> bool" where
  "is_daemon mode \<equiv> mode = server_run_mode_daemon"

text \<open>A stretch of the run with the log in place and the plugins running.\<close>

definition calm :: "server_run_mode \<Rightarrow> server_event list \<Rightarrow> bool" where
  "calm mode es \<longleftrightarrow> syslog_after (is_daemon mode) (is_daemon mode) es = Some (is_daemon mode) \<and>
     list_all (\<lambda>e. \<not> stops e) es"

definition own :: "server_event list \<Rightarrow> bool" where
  "own es \<longleftrightarrow> loader_part es = [] \<and> transport_part es = [] \<and> runtime_part es = []"

lemma calm_append: "calm mode xs \<Longrightarrow> calm mode ys \<Longrightarrow> calm mode (xs @ ys)"
  by (simp add: calm_def)

lemma calm_phase [simp]:
  "calm mode (map Ev_Transport ts)" "calm mode (map Ev_Runtime rs)"
  by (auto simp: calm_def list_all_iff)

lemma calm_loader: "stopped_plugins ds = [] \<Longrightarrow> calm mode (map Ev_Loader ds)"
  by (simp add: calm_def stopped_plugins_Nil list_all_iff)

lemma write_server_log_calm:
  "ensures (write_server_log mode level message) (\<lambda>_ es. calm mode es \<and> own es)"
  unfolding write_server_log_def by (intro io_rules) (auto simp: calm_def own_def)

lemma log_failure_calm:
  "ensures (log_failure api mode message) (\<lambda>_ es. calm mode es \<and> own es)"
  unfolding log_failure_def write_server_log_errno_def by (intro io_rules write_server_log_calm)

fun holds :: "open_transport \<Rightarrow> int multiset" where
  "holds (Serial t) = {#serial_fd t#}"
| "holds (Local t) = {#local_client_fd t, listen_fd t#}"

fun usable :: "open_transport \<Rightarrow> bool" where
  "usable (Serial t) = (0 \<le> serial_fd t)"
| "usable (Local t) = (0 \<le> local_client_fd t \<and> 0 \<le> listen_fd t \<and>
     socket_path t = local_transport_default_socket_path)"

abbreviation socket_left :: "bool \<Rightarrow> tr_event list \<Rightarrow> bool" where
  "socket_left \<equiv> socket_file local_transport_default_socket_path"

text \<open>The process is in \<open>accept\<close>, waiting for its first client.\<close>

definition waits_for_client :: "server_event list \<Rightarrow> bool" where
  "waits_for_client es \<longleftrightarrow> (case rev es of Ev_Transport (Accept_Waits _) # _ \<Rightarrow> True | _ \<Rightarrow> False)"

lemma waits_for_client_append: "waits_for_client es' \<Longrightarrow> waits_for_client (es @ es')"
  by (cases "rev es'") (auto simp: waits_for_client_def)

lemma waits_for_client_transport [simp]: "waits_for_client (map Ev_Transport ts) \<longleftrightarrow> awaits_client ts"
  by (cases ts rule: rev_cases)
     (auto simp: waits_for_client_def awaits_client_def split: tr_event.splits)

definition transport_started ::
  "server_run_mode \<Rightarrow> open_transport option option \<Rightarrow> server_event list \<Rightarrow> bool" where
  "transport_started mode r es \<longleftrightarrow> calm mode es \<and> loader_part es = [] \<and> runtime_part es = [] \<and>
     (case r of
        None \<Rightarrow> waits_for_client es
      | Some None \<Rightarrow> acquired (transport_part es) = released (transport_part es) \<and>
          \<not> socket_left False (transport_part es)
      | Some (Some t) \<Rightarrow> usable t \<and> acquired (transport_part es) = released (transport_part es) + holds t \<and>
          (\<forall>u. t = Serial u \<longrightarrow> \<not> socket_left False (transport_part es)))"

lemma transport_started_usable: "transport_started mode (Some (Some t)) es \<Longrightarrow> usable t"
  by (simp add: transport_started_def)

lemma serial_open_no_file:
  "ensures (serial_transport_open api old cfg) (\<lambda>_ es. socket_file path b es = b)"
  unfolding serial_transport_open_def configure_port_def close_fd_def
  by (intro io_rules) (auto split: option.splits)

lemma start_serial_transport_contract:
  "ensures (start_serial_transport api mode config) (transport_started mode)"
  unfolding start_serial_transport_def
  by (intro ensures_bind [OF write_server_log_calm] io_rules ensures_bind [OF log_failure_calm]
        ensures_phase_bind [OF ensures_conj [OF serial_transport_open_contract
          serial_open_no_file [where b = False and path = local_transport_default_socket_path]]])
     (auto simp: transport_started_def open_contract_def own_def calm_append split: if_splits)

lemma start_local_transport_contract:
  "ensures (start_local_transport api mode) (transport_started mode)"
  unfolding start_local_transport_def
  by (intro ensures_bind [OF write_server_log_calm] io_rules ensures_bind [OF log_failure_calm]
        ensures_phase_bind [OF local_transport_listen_contract]
        ensures_phase_bind [OF local_transport_accept_contract]
        ensures_phase_bind [OF local_transport_close_contract])
     (auto simp: transport_started_def listening_def accepting_def own_def calm_append
       waits_for_client_append split: if_splits)

lemma start_transport_contract:
  "ensures (if serial_device config \<noteq> [] then start_serial_transport api mode config
     else start_local_transport api mode) (transport_started mode)"
  using start_serial_transport_contract start_local_transport_contract by simp

lemma serial_transport_close_contract:
  "0 \<le> serial_fd t \<Longrightarrow> ensures (serial_transport_close api t) (\<lambda>_ es. acquired es = {#} \<and>
     released es = {#serial_fd t#} \<and> (\<forall>path b. socket_file path b es = b))"
  unfolding serial_transport_close_def close_fd_def by (intro io_rules) auto

definition transport_stopped :: "server_run_mode \<Rightarrow> open_transport \<Rightarrow> unit \<Rightarrow> server_event list \<Rightarrow> bool" where
  "transport_stopped mode t u es \<longleftrightarrow> calm mode es \<and> loader_part es = [] \<and> runtime_part es = [] \<and>
     acquired (transport_part es) = {#} \<and> released (transport_part es) = holds t \<and>
     (\<forall>b. socket_left b (transport_part es) \<longrightarrow> b \<and> (\<exists>u. t = Serial u))"

lemma stop_transport_contract:
  assumes "usable t"
  shows "ensures (stop_transport api t) (transport_stopped mode t)"
proof (cases t)
  case (Serial u)
  then have "0 \<le> serial_fd u" using assms by simp
  show ?thesis
    unfolding stop_transport_def Serial open_transport.case
    by (intro ensures_phase_bind [OF serial_transport_close_contract] io_rules \<open>0 \<le> serial_fd u\<close>)
       (simp add: transport_stopped_def)
next
  case (Local u)
  show ?thesis
    unfolding stop_transport_def Local open_transport.case
    by (intro ensures_phase_bind [OF local_transport_close_contract] io_rules)
       (use assms in \<open>simp add: transport_stopped_def Local\<close>)
qed

definition log_closed :: "server_run_mode \<Rightarrow> server_event list \<Rightarrow> bool" where
  "log_closed mode es \<longleftrightarrow> syslog_after (is_daemon mode) (is_daemon mode) es = Some False"

text \<open>The end of every run: the plugins that are loaded are stopped and their libraries closed.\<close>

definition unloaded :: "server_run_mode \<Rightarrow> startup_result \<Rightarrow> unit \<Rightarrow> server_event list \<Rightarrow> bool" where
  "unloaded mode started u es \<longleftrightarrow> log_closed mode es \<and> transport_part es = [] \<and> runtime_part es = [] \<and>
     opened_handles (loader_part es) = {#} \<and>
     closed_handles (loader_part es) = held_handles (startup_loader started)"

lemma unload_and_close_contract:
  assumes "loader_inv (startup_loader started) (startup_registry started)"
  shows "ensures (unload_and_close api mode started) (unloaded mode started)"
  unfolding unload_and_close_def close_server_log_def
  by (intro ensures_phase_bind [OF unload_server_plugins_contract [OF assms]] io_rules)
     (auto simp: unloaded_def log_closed_def)

text \<open>The whole run from the loaded plugins on.\<close>

definition ended :: "server_run_mode \<Rightarrow> startup_result \<Rightarrow> outcome option \<Rightarrow> server_event list \<Rightarrow> bool" where
  "ended mode started r es \<longleftrightarrow> log_closed mode es \<and> plugins_stop_last es \<and>
     opened_handles (loader_part es) = {#} \<and>
     closed_handles (loader_part es) = held_handles (startup_loader started) \<and>
     acquired (transport_part es) = released (transport_part es) \<and>
     \<not> socket_left False (transport_part es) \<and>
     opened_sockets (runtime_part es) = closed_sockets (runtime_part es) \<and>
     (r = Some (Returns 0) \<or> r = Some (Returns 1) \<and> runtime_part es = [])"

lemma calm_log_closed: "calm mode xs \<Longrightarrow> log_closed mode ys \<Longrightarrow> log_closed mode (xs @ ys)"
  by (simp add: calm_def log_closed_def)

lemma calm_stop_last:
  "calm mode xs \<Longrightarrow> runtime_part ys = [] \<Longrightarrow> transport_part ys = [] \<Longrightarrow> plugins_stop_last (xs @ ys)"
  by (simp add: calm_def plugins_stop_last_append plugins_stop_last_quiet)

lemma ended_failed:
  assumes "calm mode xs" and "transport_started mode (Some None) ys" and "own xs" and "unloaded mode started () zs"
  shows "ended mode started (Some (Returns 1)) (xs @ ys @ zs)"
  using assms calm_log_closed [of mode "xs @ ys" zs] calm_stop_last [of mode "xs @ ys" zs]
  by (simp add: ended_def transport_started_def unloaded_def own_def calm_append)

lemma ended_served:
  assumes "calm mode xs" and "own xs" and "transport_started mode (Some (Some t)) ts"
    and "opened_sockets rs = closed_sockets rs" and "transport_stopped mode t () us"
    and "calm mode vs" and "own vs" and "unloaded mode started () zs"
  shows "ended mode started (Some (Returns 0))
    (xs @ ts @ Snet_Init timing # map Ev_Runtime rs @ us @ vs @ zs)"
proof -
  let ?ws = "xs @ ts @ [Snet_Init timing] @ map Ev_Runtime rs @ us @ vs"
  have "calm mode [Snet_Init timing]" by (simp add: calm_def)
  then have "calm mode ?ws"
    using assms by (intro calm_append) (auto simp: transport_started_def transport_stopped_def)
  then show ?thesis
    using calm_log_closed [of mode ?ws zs] calm_stop_last [of mode ?ws zs] assms
    by (cases t) (auto simp: ended_def transport_started_def transport_stopped_def unloaded_def own_def)
qed

text \<open>
  A termination signal comes to the dispatch loop, at the latest when it has \<open>n\<close> events, and the loop
  has fuel for the turns until then.
\<close>

definition signalled :: "server_api \<Rightarrow> nat \<Rightarrow> nat \<Rightarrow> bool" where
  "signalled api n fuel \<longleftrightarrow> n + 2 \<le> fuel \<and> (\<forall>h h'. n \<le> length h' \<longrightarrow> signal_arrived (srv_runtime api h) h')"

text \<open>A run has an end with a property, or goes on, after a signal only because it waits for a client.\<close>

definition settles ::
  "bool \<Rightarrow> (outcome option \<Rightarrow> server_event list \<Rightarrow> bool) \<Rightarrow> outcome option \<Rightarrow> server_event list \<Rightarrow> bool" where
  "settles signal P r es \<longleftrightarrow> (if r = None then signal \<longrightarrow> waits_for_client es else P r es)"

lemma settlesI [intro]: "r \<noteq> None \<Longrightarrow> P r es \<Longrightarrow> settles signal P r es"
  by (auto simp: settles_def)

lemma settles_append:
  "settles signal P r es' \<Longrightarrow> (P r es' \<Longrightarrow> Q r (es @ es')) \<Longrightarrow> settles signal Q r (es @ es')"
  by (auto simp: settles_def waits_for_client_append split: if_splits)

lemma serve_settles:
  assumes "\<forall>p. squid_fds rt p < 0"
  shows "ensures (serve (srv_runtime api h) fuel rt) (\<lambda>r es.
    if r = None then \<not> signalled api n fuel else opened_sockets es = closed_sockets es)"
proof (rule ensures_mono [OF ensures_conj [OF serve_contract [OF assms]]])
  have "r \<noteq> None" if "signalled api n fuel" "run_state (serve (srv_runtime api h) fuel rt) s = (r, s')" for r s s'
    using serve_returns [of n "srv_runtime api h" fuel rt s] that by (auto simp: signalled_def)
  moreover have "ensures (serve (srv_runtime api h) fuel rt) (\<lambda>_ _. True)"
    by (rule ensures_triv [OF ensures_mono [OF serve_contract [OF assms]]]) simp_all
  ultimately show "ensures (serve (srv_runtime api h) fuel rt) (\<lambda>r es. r = None \<longrightarrow> \<not> signalled api n fuel)"
    unfolding ensures_def by (metis prod.collapse)
qed (auto split: option.splits)

lemma serve_and_stop_contract:
  assumes "loader_inv (startup_loader started) (startup_registry started)"
  shows "ensures (serve_and_stop api fuel mode started) (settles (signalled api n fuel) (ended mode started))"
proof -
  have closed: "\<forall>p. squid_fds (init_server_runtime\<lparr>plugin_registry := startup_registry started\<rparr>) p < 0"
    by (simp add: init_server_runtime_def)
  have waits: "waits_for_client (xs @ ys)" if "transport_started mode None ys" for xs ys
    using that by (simp add: transport_started_def waits_for_client_append)
  show ?thesis
    unfolding serve_and_stop_def
    by (intro ensures_bind [OF write_server_log_calm] ensures_bind [OF start_transport_contract] ensures_option
          ensures_bind [OF unload_and_close_contract [OF assms]] ensures_return ensures_emit_bind
          ensures_phase_bind [OF serve_settles [OF closed, where n = n]]
          ensures_bind [OF stop_transport_contract [where mode = mode]])
       (auto simp: ended_failed ended_served transport_started_usable waits settles_def [of _ _ None] intro!: settlesI)
qed

subsection \<open>The whole process\<close>

definition well_ended :: "bool \<Rightarrow> outcome option \<Rightarrow> server_event list \<Rightarrow> bool" where
  "well_ended daemon r es \<longleftrightarrow> all_released es \<and> plugins_stop_last es \<and>
     syslog_after daemon False es = Some False \<and>
     (case r of None \<Rightarrow> False
      | Some (Returns code) \<Rightarrow> code = 0 \<or> code = 1 \<and> runtime_part es = []
      | Some (Process_Exits code) \<Rightarrow> code = 0 \<and> runtime_part es = [])"

definition starting :: "server_run_mode \<Rightarrow> server_event list \<Rightarrow> bool" where
  "starting mode es \<longleftrightarrow> own es \<and> list_all (\<lambda>e. \<not> stops e) es \<and>
     syslog_after (is_daemon mode) False es = Some (is_daemon mode)"

lemma starting_ended:
  assumes "starting mode xs" and "startup_contract started ds"
    and "settles signal (ended mode started) r ys"
  shows "settles signal (well_ended (is_daemon mode)) r (xs @ map Ev_Loader ds @ ys)"
  unfolding append.assoc [symmetric]
proof (rule settles_append [OF assms(3)])
  assume ys: "ended mode started r ys"
  have ds: "calm mode (map Ev_Loader ds)"
    using assms(2) by (intro calm_loader) (simp add: startup_contract_def loading_def)
  then have "plugins_stop_last (xs @ map Ev_Loader ds @ ys)"
    using assms(1,2) ys by (simp add: starting_def calm_def ended_def plugins_stop_last_append)
  with ds show "well_ended (is_daemon mode) r ((xs @ map Ev_Loader ds) @ ys)"
    using assms(1,2) ys
    by (auto simp: well_ended_def starting_def ended_def own_def all_released_def startup_contract_def
          loading_def held_handles_def calm_def log_closed_def)
qed

lemma unloaded_ended: "unloaded mode started () es \<Longrightarrow> ended mode started (Some (Returns 1)) es"
  by (simp add: unloaded_def ended_def plugins_stop_last_quiet)

lemma init_server_log_starting:
  "ensures (init_server_log mode) (\<lambda>r es. r = mode \<and> starting mode es)"
  unfolding init_server_log_def by (intro io_rules) (auto simp: starting_def own_def)

lemma install_signal_handlers_calm:
  "ensures (install_signal_handlers api) (\<lambda>_ es. calm mode es \<and> own es)"
  unfolding install_signal_handlers_def by (intro io_rules) (auto simp: calm_def own_def)

lemma starting_append: "starting mode xs \<Longrightarrow> calm mode ys \<Longrightarrow> own ys \<Longrightarrow> starting mode (xs @ ys)"
  by (simp add: starting_def calm_def own_def)

lemma close_server_log_closed: "ensures (close_server_log mode) (\<lambda>_ es. log_closed mode es \<and> own es)"
  unfolding close_server_log_def by (intro io_rules) (auto simp: log_closed_def own_def)

lemma well_ended_own:
  "own es \<Longrightarrow> syslog_after daemon False es = Some False \<Longrightarrow>
     (r = Some (Returns 0) \<or> r = Some (Returns 1) \<or> r = Some (Process_Exits 0)) \<Longrightarrow> well_ended daemon r es"
  by (auto simp: well_ended_def own_def all_released_def plugins_stop_last_quiet)

lemma run_logged_contract:
  "ensures (run_logged api fuel config)
     (settles (signalled api n fuel) (well_ended (is_daemon (run_mode config))))"
proof -
  let ?mode = "run_mode config" and ?signal = "signalled api n fuel"
  have run: "ensures (if \<not> startup_ok started then do {
           _ \<leftarrow> unload_and_close api ?mode started;
           State_Monad.return (Some (Returns 1)) }
         else serve_and_stop api fuel ?mode started)
      (\<lambda>r es. settles ?signal (well_ended (is_daemon ?mode)) r (xs @ map Ev_Loader ds @ es))"
    if xs: "starting ?mode xs" and ds: "startup_contract started ds" for xs ds started
  proof -
    have inv: "loader_inv (startup_loader started) (startup_registry started)"
      using ds by (simp add: startup_contract_def loading_def)
    note * = unload_and_close_contract [OF inv] serve_and_stop_contract [OF inv, where n = n]
    show ?thesis
      by (intro ensures_if ensures_mono [OF *(2)] ensures_bind [OF *(1)] ensures_return
            starting_ended [OF xs ds]) (auto intro: unloaded_ended)
  qed
  have fail: "settles ?signal (well_ended (is_daemon ?mode)) (Some (Returns 1)) (xs @ ys @ zs @ ws)"
    if "starting ?mode xs" "calm ?mode ys \<and> own ys" "calm ?mode zs \<and> own zs"
      "log_closed ?mode ws \<and> own ws" for xs ys zs ws
    using that by (intro settlesI well_ended_own) (auto simp: starting_def calm_def log_closed_def own_def)
  show ?thesis
    unfolding run_logged_def
    by (intro ensures_bind [OF init_server_log_starting]
          ensures_bind [OF install_signal_handlers_calm [where mode = ?mode]] ensures_if
          ensures_bind [OF log_failure_calm] ensures_bind [OF close_server_log_closed] ensures_return
          ensures_phase_bind [OF load_configured_plugins_contract])
       (use run starting_append in \<open>fastforce intro: fail\<close>)+
qed

text \<open>The steps of a process that has become a daemon.\<close>

definition detached :: "server_event list" where
  "detached = [Fork (Inr 0), Setsid (Inr ()), Fork (Inr 0), Chdir (ascii ''/'') (Inr ()), Umask 0,
     Freopen dev_null (ascii ''r'') Std_In (Inr ()), Freopen dev_null (ascii ''a'') Std_Out (Inr ()),
     Freopen dev_null (ascii ''a'') Std_Err (Inr ())]"

definition before_log :: "server_event list \<Rightarrow> bool" where
  "before_log es \<longleftrightarrow> own es \<and> list_all (\<lambda>e. \<not> stops e) es \<and>
     (\<forall>daemon. syslog_after daemon False es = Some False)"

lemma before_log_append [simp]: "before_log xs \<Longrightarrow> before_log ys \<Longrightarrow> before_log (xs @ ys)"
  by (simp add: before_log_def own_def)

lemma before_log_detached [simp]: "before_log detached"
  by (simp add: before_log_def detached_def own_def)

lemma unit_answer: "(\<And>e. r \<noteq> Inl e) \<Longrightarrow> r = Inr ()"
  by (cases r) auto

definition daemonized :: "outcome \<Rightarrow> server_event list \<Rightarrow> bool" where
  "daemonized r es \<longleftrightarrow> before_log es \<and>
     (r = Process_Exits 0 \<or> r = Returns (-1) \<or> r = Returns 0 \<or> r = Returns 1 \<and> es = detached)"

lemma daemonize_process_contract: "ensures (daemonize_process api) daemonized"
  unfolding daemonize_process_def detach_process_def reopen_def
  by (intro io_rules) (auto simp: daemonized_def before_log_def own_def detached_def intro: unit_answer)

lemma log_failure_console:
  "ensures (log_failure api server_run_mode_console message) (\<lambda>_. before_log)"
  unfolding log_failure_def write_server_log_errno_def write_server_log_def
  by (intro io_rules) (auto simp: before_log_def own_def)

lemma print_server_usage_before_log: "ensures (print_server_usage name) (\<lambda>_. before_log)"
  unfolding print_server_usage_def by (intro io_rules) (simp add: before_log_def own_def)

lemma well_ended_before_log [simp]:
  "before_log es \<Longrightarrow> well_ended daemon (Some (Returns 0)) es"
  "before_log es \<Longrightarrow> well_ended daemon (Some (Returns 1)) es"
  "before_log es \<Longrightarrow> well_ended daemon (Some (Process_Exits 0)) es"
  by (auto simp: before_log_def intro: well_ended_own)

lemma well_ended_prepend: "before_log xs \<Longrightarrow> well_ended daemon r ys \<Longrightarrow> well_ended daemon r (xs @ ys)"
  by (auto simp: well_ended_def before_log_def own_def all_released_def plugins_stop_last_append
        split: option.splits outcome.splits)

text \<open>The four ways to go on after \<open>daemonize_process\<close>.\<close>

lemma ensures_after_daemonize:
  assumes "daemonized daemon es"
    and "before_log es \<Longrightarrow> Q (Some (Process_Exits 0)) es" and "before_log es \<Longrightarrow> Q (Some (Returns 0)) es"
    and "\<And>es'. before_log (es @ es') \<Longrightarrow> Q (Some (Returns 1)) (es @ es')"
    and "es = detached \<Longrightarrow> ensures (run_logged api fuel config) (\<lambda>r es'. Q r (es @ es'))"
  shows "ensures (after_daemonize api fuel config daemon) (\<lambda>r es'. Q r (es @ es'))"
proof -
  have es: "before_log es" using assms(1) by (simp add: daemonized_def)
  consider "daemon = Process_Exits 0" | "daemon = Returns (-1)" | "daemon = Returns 0"
    | "daemon = Returns 1" "es = detached"
    using assms(1) by (auto simp: daemonized_def)
  then show ?thesis
  proof cases
    case 2
    show ?thesis
      unfolding 2 after_daemonize_def
      using es by (auto intro!: ensures_bind [OF log_failure_console] ensures_return assms(4))
  qed (use assms(2,3,5) es in \<open>auto simp: after_daemonize_def intro!: ensures_return\<close>)
qed

lemma settles_detached:
  "settles signal (well_ended daemon) r es \<Longrightarrow> settles signal (well_ended daemon) r (detached @ es)"
  by (erule settles_append) (rule well_ended_prepend [OF before_log_detached])

lemma run_server_runtime_contract:
  "ensures (run_server_runtime api fuel config)
     (settles (signalled api n fuel) (well_ended (is_daemon (run_mode config))))"
  unfolding run_server_runtime_def
  by (intro ensures_if run_logged_contract ensures_bind [OF daemonize_process_contract]
        ensures_after_daemonize ensures_mono [OF run_logged_contract [where n = n]])
     (auto intro: settles_detached)

definition daemon_requested :: "bytes list \<Rightarrow> bool" where
  "daemon_requested argv = (case parse_server_config argv of Inl _ \<Rightarrow> False
     | Inr config \<Rightarrow> is_daemon (run_mode config))"

lemma before_log_print [simp]: "before_log es \<Longrightarrow> before_log (Print stream t # es)"
  by (simp add: before_log_def own_def)

text \<open>
  C5. However the server ends, it cleans up, and after a termination signal it ends. For every
  command line, every configuration file and every behaviour of the kernel, the dynamic linker, the
  plugins and libsquid: a process that ends has exit code 0 or 1, and 1 only if nothing was served;
  on every path to the end, errors of any step included, each library, transport descriptor and
  libsquid socket that was opened has been closed exactly once, no socket file is left behind, no
  packet is dispatched and no transport used once the first plugin has been stopped, and the system
  log is opened, written and closed in that order, with nothing printed while it is open. When a
  termination signal comes to the dispatch loop (at the latest when the loop has \<open>n\<close> events),
  \<open>n + 2\<close> turns of the loop are enough for the end, unless the process does not come to the loop:
  the only place where it can stay is \<open>accept\<close>, waiting for the first client of the local transport,
  which no signal ends.
\<close>

theorem server_ends_well:
  "ensures (run_server_app api fuel argv) (\<lambda>r es.
     if r = None then signalled api n fuel \<longrightarrow> waits_for_client es
     else well_ended (daemon_requested argv) r es)"
proof -
  have "ensures (run_server_app api fuel argv) (settles (signalled api n fuel) (well_ended (daemon_requested argv)))"
    unfolding run_server_app_def Let_def daemon_requested_def
    by (cases "parse_server_config argv")
       (auto intro!: ensures_emit_bind ensures_bind [OF print_server_usage_before_log] ensures_return
         run_server_runtime_contract)
  then show ?thesis
    by (simp add: settles_def [abs_def])
qed

definition demo_server :: server_api where
  "demo_server = \<lparr>srv_loader = (\<lambda>_. demo_dl), srv_transport = (\<lambda>_. calm_kernel),
     srv_runtime = (\<lambda>_. demo_api), srv_fopen = (\<lambda>_ _. Some []), srv_stage_root = None,
     srv_fork = (\<lambda>_. Inr 0), srv_setsid = (\<lambda>_. Inr ()), srv_chdir = (\<lambda>_ _. Inr ()),
     srv_freopen = (\<lambda>_ _ _ _. Inr ()), srv_signal = (\<lambda>_ _. Inr ()), srv_strerror = (\<lambda>_. None)\<rparr>"

definition demo_process :: "outcome option \<times> server_event env" where
  "demo_process = run_state (run_server_app demo_server 32 [ascii ''squid-server'', ascii ''--daemon''])
     \<lparr>trace = [], c_errno = E_OK\<rparr>"

theorem server_ends_well_witness:
  "signalled demo_server 30 32 \<and> fst demo_process = Some (Returns 0) \<and>
   well_ended True (fst demo_process) (trace (snd demo_process))"
proof (intro conjI)
  let ?argv = "[ascii ''squid-server'', ascii ''--daemon'']"
  have daemon: "daemon_requested ?argv = True"
    by code_simp
  note ends = server_ends_well [of demo_server 32 ?argv 30, unfolded daemon]
  show "signalled demo_server 30 32"
    by (simp add: signalled_def demo_server_def demo_api_def)
  show code: "fst demo_process = Some (Returns 0)"
    by code_simp
  have run: "run_state (run_server_app demo_server 32 ?argv) \<lparr>trace = [], c_errno = E_OK\<rparr> =
      (fst demo_process, snd demo_process)"
    by (simp only: demo_process_def prod.collapse)
  show "well_ended True (fst demo_process) (trace (snd demo_process))"
    by (rule ensuresE [OF ends run]) (simp add: code)
qed

subsection \<open>Daemons\<close>

lemma stop_transport_any: "ensures (stop_transport api t) (\<lambda>_ _. True)"
  unfolding stop_transport_def by (cases t) (auto intro!: ensures_phase_any ensures_return)

lemma unload_and_close_any: "ensures (unload_and_close api mode started) (\<lambda>_ _. True)"
  unfolding unload_and_close_def
  by (intro ensures_phase_any ensures_mono [OF close_server_log_closed] TrueI)

lemma serve_and_stop_any: "ensures (serve_and_stop api fuel mode started) (\<lambda>_ _. True)"
  unfolding serve_and_stop_def
  by (intro ensures_bind [OF write_server_log_calm] ensures_bind [OF start_transport_contract]
        ensures_option ensures_phase_any
        ensures_bind [OF unload_and_close_any] ensures_bind [OF stop_transport_any]
        ensures_emit_bind ensures_return TrueI)

lemma run_logged_any: "ensures (run_logged api fuel config) (\<lambda>_ _. True)"
  unfolding run_logged_def
  by (intro ensures_bind [OF init_server_log_starting]
        ensures_bind [OF install_signal_handlers_calm] ensures_if ensures_phase_any
        ensures_bind [OF log_failure_calm] ensures_bind [OF close_server_log_closed]
        ensures_bind [OF unload_and_close_any] serve_and_stop_any ensures_return TrueI)

text \<open>
  C25. A daemon detaches before it does anything. A process started in daemon mode that loads a
  plugin, touches a transport or serves has before that, as its first eight steps, forked and been
  the child, opened a new session, forked and been the child again, moved to the root directory,
  cleared the file mode mask and redirected its three standard streams, each of these calls having
  succeeded. A failure of any of them means that the process does none of it.
\<close>

theorem daemon_detaches_first:
  "ensures (run_server_runtime api fuel (config\<lparr>run_mode := server_run_mode_daemon\<rparr>))
     (\<lambda>r es. own es \<or> take 8 es = detached)"
proof -
  have "take 8 (detached @ es) = detached" for es
    by (simp add: detached_def)
  moreover have "run_server_runtime api fuel (config\<lparr>run_mode := server_run_mode_daemon\<rparr>) = do {
      daemon \<leftarrow> daemonize_process api;
      after_daemonize api fuel (config\<lparr>run_mode := server_run_mode_daemon\<rparr>) daemon }"
    by (simp add: run_server_runtime_def)
  ultimately show ?thesis
    by (auto intro!: ensures_bind [OF daemonize_process_contract] ensures_after_daemonize
          ensures_triv [OF run_logged_any] simp: before_log_def)
qed

end
