(* ===== verification/Packet_Service.thy ===== *)
theory Packet_Service
  imports Runtime_Streams
begin

text \<open>
  What the plugins of this repository share. Each has a core, a function from a request packet
  and the capacity of the response buffer to a response, and a \<open>handle_packet\<close> callback that
  calls the core and reports to the runtime. The contract of the cores that the runtime and the
  clients rely on is the locale \<open>packet_service\<close>; the time, filesystem, TCP and RetroVault cores
  are its instances. The echo and system plugins, which have no status byte, are here too.
\<close>

subsection \<open>The callback\<close>

text \<open>
  \<open>handle_squid_time_packet\<close> and its siblings: reject an empty request or buffer, call the
  core, and store the size of its response. \<open>None\<close> is the return value \<open>-1\<close>.
\<close>

definition handle_packet_with :: "(bytes \<Rightarrow> nat \<Rightarrow> bytes option) \<Rightarrow> bytes \<Rightarrow> nat \<Rightarrow> bytes option" where
  "handle_packet_with core request capacity =
     (if request = [] \<or> capacity = 0 then None else core request capacity)"

text \<open>What the runtime finds after the callback: its return value and the response buffer.\<close>

definition reply_of :: "bytes option \<Rightarrow> plugin_reply" where
  "reply_of r =
     (case r of
        None \<Rightarrow> \<lparr>reply_ret = -1, reply_moved = False, reply_size = 0, reply_byte = (\<lambda>_. 0)\<rparr>
      | Some reply \<Rightarrow> \<lparr>reply_ret = 0, reply_moved = False, reply_size = length reply,
          reply_byte = (\<lambda>i. if i < length reply then reply ! i else 0)\<rparr>)"

lemma accepted_reply_of:
  assumes "reply \<noteq> []" and "length reply \<le> server_packet_max"
  shows "accepted_response (reply_of (Some reply)) = Some reply"
proof -
  have "take (length reply) (map (\<lambda>i. if i < length reply then reply ! i else 0) [0..<255]) = reply"
    using assms by (intro nth_equalityI) auto
  then show ?thesis
    using assms by (simp add: accepted_response_def reply_of_def reply_buffer_def)
qed

lemma rejected_reply_of: "accepted_response (reply_of None) = None"
  by (simp add: accepted_response_def reply_of_def)

subsection \<open>The contract of a core\<close>

definition response_bit :: u8 where "response_bit = 0x80"

text \<open>
  An answer in the protocol: the runtime takes a response as it is, it has the opcode with the
  response bit set, a status, and room for both in a packet.
\<close>

definition proper_answer :: "bytes \<Rightarrow> bytes option \<Rightarrow> bool" where
  "proper_answer request r \<longleftrightarrow> accepted_response (reply_of r) = r \<and>
     (case r of None \<Rightarrow> True
      | Some reply \<Rightarrow> 2 \<le> length reply \<and> length reply \<le> server_packet_max \<and>
          hd reply = hd request OR response_bit)"

text \<open>
  \<open>answers request capacity r\<close>: the core may return \<open>r\<close>, in some state of the world.
\<close>

locale packet_service =
  fixes answers :: "bytes \<Rightarrow> nat \<Rightarrow> bytes option \<Rightarrow> bool"
  assumes reply_shape: "answers request capacity (Some reply) \<Longrightarrow>
      request \<noteq> [] \<and> 2 \<le> length reply \<and> length reply \<le> capacity \<and>
      hd reply = hd request OR response_bit"
begin

text \<open>The runtime accepts every response of the core, and puts it on the wire unchanged.\<close>

lemma runtime_accepts:
  assumes "answers request server_packet_max (Some reply)"
  shows "accepted_response (reply_of (Some reply)) = Some reply"
  using reply_shape [OF assms] by (intro accepted_reply_of) auto

lemma proper:
  assumes "answers request server_packet_max r"
  shows "proper_answer request r"
  using assms runtime_accepts reply_shape [of request server_packet_max]
  by (cases r) (auto simp: proper_answer_def rejected_reply_of)

lemma wire_round_trip:
  assumes "answers request server_packet_max (Some reply)"
  shows "deframe (frame reply @ rest) = (reply # fst (deframe rest), snd (deframe rest))"
  using deframe_frames [of "[reply]" rest] reply_shape [OF assms] by fastforce

text \<open>The check every typed client makes on the first byte succeeds.\<close>

lemma opcode_echoed:
  "answers (opcode # arguments) capacity (Some reply) \<Longrightarrow> reply ! 0 = opcode OR response_bit"
  using reply_shape [of "opcode # arguments" capacity reply] by (cases reply) auto

end

subsection \<open>Echo\<close>

definition handle_echo_packet :: "bytes \<Rightarrow> nat \<Rightarrow> bytes option" where
  "handle_echo_packet request capacity =
     (if length request > capacity then None else Some request)"

subsection \<open>System\<close>

text \<open>
  \<open>uname\<close> and \<open>gethostname\<close> are parameters: \<open>None\<close> is a failure. The host name buffer has
  64 bytes; \<open>gethostname\<close> returns a C string that fits. When \<open>snprintf\<close> truncates, the
  reported size is the capacity and so includes the terminating NUL.
\<close>

definition handle_squidsys_packet ::
  "(bytes \<times> bytes) option \<Rightarrow> bytes option \<Rightarrow> bytes \<Rightarrow> nat \<Rightarrow> bytes option" where
  "handle_squidsys_packet uname gethostname request capacity =
     (if capacity = 0 then None
      else if request = ascii ''id'' then
        (case uname of
           None \<Rightarrow> None
         | Some (sysname, release) \<Rightarrow>
             (let hostname = (case gethostname of Some h \<Rightarrow> h | None \<Rightarrow> ascii ''unknown'');
                  text = hostname @ [10] @ sysname @ [32] @ release
              in Some (if length text < capacity then text
                       else take (capacity - 1) text @ [0])))
      else None)"

lemma squidsys_length:
  "handle_squidsys_packet u g request capacity = Some reply \<Longrightarrow> length reply \<le> capacity"
  by (auto simp: handle_squidsys_packet_def Let_def split: option.splits if_splits prod.splits)

end
