(* ===== verification/Filesystem_Service.thy ===== *)
theory Filesystem_Service
  imports Packet_Service Effects "HOL-Library.Multiset"
begin

text \<open>
  The rooted filesystem service, \<open>lib/filesystem/filesystem_core.c\<close> and
  \<open>filesystem_plugin.c\<close>. The kernel is the oracle \<open>fs_api\<close>; each system call is an event of
  the trace. A directory stream is what \<open>fdopendir\<close> opens: the names \<open>readdir\<close> will deliver
  and how the stream ends, with an error or not; it is identified by its descriptor.
  \<open>O_NOFOLLOW\<close> and \<open>O_CLOEXEC\<close> are available (they are in POSIX.1-2008).
\<close>

definition SQUID_FS_PROTOCOL_VERSION :: u8 where "SQUID_FS_PROTOCOL_VERSION = 1"
definition SQUID_FS_OP_CAPABILITIES :: u8 where "SQUID_FS_OP_CAPABILITIES = 0x00"
definition SQUID_FS_OP_STAT :: u8 where "SQUID_FS_OP_STAT = 0x01"
definition SQUID_FS_OP_LIST :: u8 where "SQUID_FS_OP_LIST = 0x02"
definition SQUID_FS_OP_READ :: u8 where "SQUID_FS_OP_READ = 0x03"
definition SQUID_FS_OP_WRITE :: u8 where "SQUID_FS_OP_WRITE = 0x04"
definition SQUID_FS_OP_MKDIR :: u8 where "SQUID_FS_OP_MKDIR = 0x05"
definition SQUID_FS_OP_DELETE :: u8 where "SQUID_FS_OP_DELETE = 0x06"
definition SQUID_FS_OP_RENAME :: u8 where "SQUID_FS_OP_RENAME = 0x07"
definition SQUID_FS_RESPONSE_BIT :: u8 where "SQUID_FS_RESPONSE_BIT = 0x80"
definition SQUID_FS_STATUS_OK :: u8 where "SQUID_FS_STATUS_OK = 0x00"
definition SQUID_FS_STATUS_BAD_REQUEST :: u8 where "SQUID_FS_STATUS_BAD_REQUEST = 0x01"
definition SQUID_FS_STATUS_NOT_FOUND :: u8 where "SQUID_FS_STATUS_NOT_FOUND = 0x02"
definition SQUID_FS_STATUS_NOT_DIRECTORY :: u8 where "SQUID_FS_STATUS_NOT_DIRECTORY = 0x03"
definition SQUID_FS_STATUS_IS_DIRECTORY :: u8 where "SQUID_FS_STATUS_IS_DIRECTORY = 0x04"
definition SQUID_FS_STATUS_ACCESS_DENIED :: u8 where "SQUID_FS_STATUS_ACCESS_DENIED = 0x05"
definition SQUID_FS_STATUS_EXISTS :: u8 where "SQUID_FS_STATUS_EXISTS = 0x06"
definition SQUID_FS_STATUS_TOO_LARGE :: u8 where "SQUID_FS_STATUS_TOO_LARGE = 0x07"
definition SQUID_FS_STATUS_NOT_EMPTY :: u8 where "SQUID_FS_STATUS_NOT_EMPTY = 0x08"
definition SQUID_FS_STATUS_READ_ONLY :: u8 where "SQUID_FS_STATUS_READ_ONLY = 0x09"
definition SQUID_FS_STATUS_NO_SPACE :: u8 where "SQUID_FS_STATUS_NO_SPACE = 0x0A"
definition SQUID_FS_STATUS_IO_ERROR :: u8 where "SQUID_FS_STATUS_IO_ERROR = 0x0B"
definition SQUID_FS_FEATURE_STAT :: u16 where "SQUID_FS_FEATURE_STAT = 0x0001"
definition SQUID_FS_FEATURE_LIST :: u16 where "SQUID_FS_FEATURE_LIST = 0x0002"
definition SQUID_FS_FEATURE_READ :: u16 where "SQUID_FS_FEATURE_READ = 0x0004"
definition SQUID_FS_FEATURE_WRITE :: u16 where "SQUID_FS_FEATURE_WRITE = 0x0008"
definition SQUID_FS_FEATURE_MKDIR :: u16 where "SQUID_FS_FEATURE_MKDIR = 0x0010"
definition SQUID_FS_FEATURE_DELETE :: u16 where "SQUID_FS_FEATURE_DELETE = 0x0020"
definition SQUID_FS_FEATURE_RENAME :: u16 where "SQUID_FS_FEATURE_RENAME = 0x0040"
definition SQUID_FS_TYPE_FILE :: u8 where "SQUID_FS_TYPE_FILE = 0x01"
definition SQUID_FS_TYPE_DIRECTORY :: u8 where "SQUID_FS_TYPE_DIRECTORY = 0x02"
definition SQUID_FS_TYPE_OTHER :: u8 where "SQUID_FS_TYPE_OTHER = 0x03"
definition SQUID_FS_WRITE_CREATE :: u8 where "SQUID_FS_WRITE_CREATE = 0x01"
definition SQUID_FS_WRITE_TRUNCATE :: u8 where "SQUID_FS_WRITE_TRUNCATE = 0x02"
definition SQUID_FS_CURSOR_END :: u16 where "SQUID_FS_CURSOR_END = 0xFFFF"
definition SQUID_FS_SIZE_UNKNOWN :: u32 where "SQUID_FS_SIZE_UNKNOWN = 0xFFFFFFFF"
definition SQUID_FS_PATH_MAX :: nat where "SQUID_FS_PATH_MAX = 240"
definition squid_fs_page_header_size :: nat where "squid_fs_page_header_size = 5"
definition squid_fs_read_header_size :: nat where "squid_fs_read_header_size = 11"

lemmas fs_status_constants [simp] = SQUID_FS_STATUS_OK_def SQUID_FS_STATUS_BAD_REQUEST_def
  SQUID_FS_STATUS_NOT_FOUND_def SQUID_FS_STATUS_NOT_DIRECTORY_def SQUID_FS_STATUS_IS_DIRECTORY_def
  SQUID_FS_STATUS_ACCESS_DENIED_def SQUID_FS_STATUS_EXISTS_def SQUID_FS_STATUS_TOO_LARGE_def
  SQUID_FS_STATUS_NOT_EMPTY_def SQUID_FS_STATUS_READ_ONLY_def SQUID_FS_STATUS_NO_SPACE_def
  SQUID_FS_STATUS_IO_ERROR_def

lemmas fs_constants [simp] = SQUID_FS_PROTOCOL_VERSION_def SQUID_FS_OP_CAPABILITIES_def
  SQUID_FS_OP_STAT_def SQUID_FS_OP_LIST_def SQUID_FS_OP_READ_def SQUID_FS_OP_WRITE_def
  SQUID_FS_OP_MKDIR_def SQUID_FS_OP_DELETE_def SQUID_FS_OP_RENAME_def SQUID_FS_RESPONSE_BIT_def
  SQUID_FS_CURSOR_END_def SQUID_FS_PATH_MAX_def squid_fs_page_header_size_def
  squid_fs_read_header_size_def

subsection \<open>System calls\<close>

record fs_stat =
  st_mode :: u32
  st_size :: int
  st_mtime :: int

datatype open_flag = O_RDONLY | O_WRONLY | O_DIRECTORY | O_CLOEXEC | O_NOFOLLOW | O_CREAT | O_TRUNC

datatype at_flag = AT_SYMLINK_NOFOLLOW | AT_REMOVEDIR

text \<open>
  What a directory stream delivers before it ends, and the error with which it ends. The mode 0666
  of a new file is not part of the events.
\<close>

type_synonym dir_stream = "bytes list \<times> errno option"

datatype fs_event =
    Open bytes "open_flag list" "errno + int"
  | Dup int "errno + int"
  | Openat int bytes "open_flag list" "errno + int"
  | Close int "errno + unit"
  | Fstat int "errno + fs_stat"
  | Fstatat int bytes "at_flag list" "errno + fs_stat"
  | Fdopendir int "errno + dir_stream"
  | Closedir int "errno + unit"
  | Pread int nat u32 "errno + bytes"
  | Pwrite int bytes u32 "errno + nat"
  | Mkdirat int bytes nat "errno + unit"
  | Unlinkat int bytes "at_flag list" "errno + unit"
  | Renameat int bytes int bytes "errno + unit"

record fs_api =
  sys_open :: "fs_event list \<Rightarrow> bytes \<Rightarrow> open_flag list \<Rightarrow> errno + int"
  sys_dup :: "fs_event list \<Rightarrow> int \<Rightarrow> errno + int"
  sys_openat :: "fs_event list \<Rightarrow> int \<Rightarrow> bytes \<Rightarrow> open_flag list \<Rightarrow> errno + int"
  sys_close :: "fs_event list \<Rightarrow> int \<Rightarrow> errno + unit"
  sys_fstat :: "fs_event list \<Rightarrow> int \<Rightarrow> errno + fs_stat"
  sys_fstatat :: "fs_event list \<Rightarrow> int \<Rightarrow> bytes \<Rightarrow> at_flag list \<Rightarrow> errno + fs_stat"
  sys_fdopendir :: "fs_event list \<Rightarrow> int \<Rightarrow> errno + dir_stream"
  sys_closedir :: "fs_event list \<Rightarrow> int \<Rightarrow> errno + unit"
  sys_pread :: "fs_event list \<Rightarrow> int \<Rightarrow> nat \<Rightarrow> u32 \<Rightarrow> errno + bytes"
  sys_pwrite :: "fs_event list \<Rightarrow> int \<Rightarrow> bytes \<Rightarrow> u32 \<Rightarrow> errno + nat"
  sys_mkdirat :: "fs_event list \<Rightarrow> int \<Rightarrow> bytes \<Rightarrow> nat \<Rightarrow> errno + unit"
  sys_unlinkat :: "fs_event list \<Rightarrow> int \<Rightarrow> bytes \<Rightarrow> at_flag list \<Rightarrow> errno + unit"
  sys_renameat :: "fs_event list \<Rightarrow> int \<Rightarrow> bytes \<Rightarrow> int \<Rightarrow> bytes \<Rightarrow> errno + unit"

text \<open>\<open>pread\<close> delivers, and \<open>pwrite\<close> takes, at most the bytes asked for.\<close>

definition call_dup :: "fs_api \<Rightarrow> int \<Rightarrow> (fs_event, int option) io" where
  "call_dup api fd = syscall (\<lambda>h. sys_dup api h fd) (Dup fd)"
definition call_openat :: "fs_api \<Rightarrow> int \<Rightarrow> bytes \<Rightarrow> open_flag list \<Rightarrow> (fs_event, int option) io" where
  "call_openat api fd name flags = syscall (\<lambda>h. sys_openat api h fd name flags) (Openat fd name flags)"
definition fs_close :: "fs_api \<Rightarrow> int \<Rightarrow> (fs_event, unit option) io" where
  "fs_close api fd = syscall (\<lambda>h. sys_close api h fd) (Close fd)"
definition call_fstat :: "fs_api \<Rightarrow> int \<Rightarrow> (fs_event, fs_stat option) io" where
  "call_fstat api fd = syscall (\<lambda>h. sys_fstat api h fd) (Fstat fd)"
definition call_fstatat ::
  "fs_api \<Rightarrow> int \<Rightarrow> bytes \<Rightarrow> at_flag list \<Rightarrow> (fs_event, fs_stat option) io" where
  "call_fstatat api fd name flags = syscall (\<lambda>h. sys_fstatat api h fd name flags) (Fstatat fd name flags)"
definition call_fdopendir :: "fs_api \<Rightarrow> int \<Rightarrow> (fs_event, dir_stream option) io" where
  "call_fdopendir api fd = syscall (\<lambda>h. sys_fdopendir api h fd) (Fdopendir fd)"
definition call_closedir :: "fs_api \<Rightarrow> int \<Rightarrow> (fs_event, unit option) io" where
  "call_closedir api fd = syscall (\<lambda>h. sys_closedir api h fd) (Closedir fd)"
definition call_pread :: "fs_api \<Rightarrow> int \<Rightarrow> nat \<Rightarrow> u32 \<Rightarrow> (fs_event, bytes option) io" where
  "call_pread api fd n offset =
     syscall (\<lambda>h. map_sum id (take n) (sys_pread api h fd n offset)) (Pread fd n offset)"
definition call_pwrite :: "fs_api \<Rightarrow> int \<Rightarrow> bytes \<Rightarrow> u32 \<Rightarrow> (fs_event, nat option) io" where
  "call_pwrite api fd data offset =
     syscall (\<lambda>h. map_sum id (min (length data)) (sys_pwrite api h fd data offset)) (Pwrite fd data offset)"
definition call_mkdirat :: "fs_api \<Rightarrow> int \<Rightarrow> bytes \<Rightarrow> nat \<Rightarrow> (fs_event, unit option) io" where
  "call_mkdirat api fd name mode = syscall (\<lambda>h. sys_mkdirat api h fd name mode) (Mkdirat fd name mode)"
definition call_unlinkat ::
  "fs_api \<Rightarrow> int \<Rightarrow> bytes \<Rightarrow> at_flag list \<Rightarrow> (fs_event, unit option) io" where
  "call_unlinkat api fd name flags =
     syscall (\<lambda>h. sys_unlinkat api h fd name flags) (Unlinkat fd name flags)"
definition call_renameat ::
  "fs_api \<Rightarrow> int \<Rightarrow> bytes \<Rightarrow> int \<Rightarrow> bytes \<Rightarrow> (fs_event, unit option) io" where
  "call_renameat api fd name fd' name' =
     syscall (\<lambda>h. sys_renameat api h fd name fd' name') (Renameat fd name fd' name')"

lemmas fs_calls = call_dup_def call_openat_def fs_close_def call_fstat_def call_fstatat_def
  call_fdopendir_def call_closedir_def call_pread_def call_pwrite_def call_mkdirat_def
  call_unlinkat_def call_renameat_def

subsection \<open>Helpers\<close>

record squid_fs_context =
  root_fd :: int
  read_only :: bool

definition status_from_errno :: "errno \<Rightarrow> u8" where
  "status_from_errno e =
     (case e of
        ENOENT \<Rightarrow> SQUID_FS_STATUS_NOT_FOUND
      | ENOTDIR \<Rightarrow> SQUID_FS_STATUS_NOT_DIRECTORY
      | EISDIR \<Rightarrow> SQUID_FS_STATUS_IS_DIRECTORY
      | EACCES \<Rightarrow> SQUID_FS_STATUS_ACCESS_DENIED
      | EPERM \<Rightarrow> SQUID_FS_STATUS_ACCESS_DENIED
      | ELOOP \<Rightarrow> SQUID_FS_STATUS_ACCESS_DENIED
      | EEXIST \<Rightarrow> SQUID_FS_STATUS_EXISTS
      | ENAMETOOLONG \<Rightarrow> SQUID_FS_STATUS_TOO_LARGE
      | EOVERFLOW \<Rightarrow> SQUID_FS_STATUS_TOO_LARGE
      | EFBIG \<Rightarrow> SQUID_FS_STATUS_TOO_LARGE
      | ENOTEMPTY \<Rightarrow> SQUID_FS_STATUS_NOT_EMPTY
      | EROFS \<Rightarrow> SQUID_FS_STATUS_READ_ONLY
      | ENOSPC \<Rightarrow> SQUID_FS_STATUS_NO_SPACE
      | EDQUOT \<Rightarrow> SQUID_FS_STATUS_NO_SPACE
      | _ \<Rightarrow> SQUID_FS_STATUS_IO_ERROR)"

definition write_response :: "u8 \<Rightarrow> u8 \<Rightarrow> nat \<Rightarrow> bytes option" where
  "write_response opcode status capacity =
     (if capacity < 2 then None else Some [opcode OR SQUID_FS_RESPONSE_BIT, status])"

text \<open>\<open>write_response(opcode, status_from_errno(errno), ...)\<close>\<close>

definition errno_response :: "u8 \<Rightarrow> nat \<Rightarrow> ('e, bytes option) io" where
  "errno_response opcode capacity = do {
     e \<leftarrow> get_errno;
     State_Monad.return (write_response opcode (status_from_errno e) capacity) }"

definition slash :: u8 where "slash = 47"
definition dot :: u8 where "dot = 46"

lemmas path_chars = slash_def dot_def

text \<open>
  The loop of \<open>path_is_valid\<close>: \<open>component\<close> holds the characters from \<open>component_start\<close> on.
\<close>

definition component_is_valid :: "bytes \<Rightarrow> bool" where
  "component_is_valid component \<longleftrightarrow> component \<noteq> [] \<and> component \<noteq> [dot] \<and> component \<noteq> [dot, dot]"

fun components_are_valid :: "bytes \<Rightarrow> bytes \<Rightarrow> bool" where
  "components_are_valid component [] = component_is_valid component"
| "components_are_valid component (c # input) =
     (if c \<noteq> slash then c \<noteq> 0 \<and> components_are_valid (component @ [c]) input
      else component_is_valid component \<and> components_are_valid [] input)"

definition path_is_valid :: "bytes \<Rightarrow> bool \<Rightarrow> bytes option" where
  "path_is_valid input allow_empty =
     (if input = [] \<and> allow_empty then Some []
      else if input = [] \<or> length input > SQUID_FS_PATH_MAX \<or> hd input = slash \<or> last input = slash
      then None
      else if components_are_valid [] input then Some input else None)"

definition open_root_copy :: "fs_api \<Rightarrow> squid_fs_context \<Rightarrow> (fs_event, int option) io" where
  "open_root_copy api context =
     (if root_fd context < 0 then do { _ \<leftarrow> set_errno EBADF; State_Monad.return None }
      else call_dup api (root_fd context))"

text \<open>\<open>strtok_r(working, "/", ...)\<close>: the non-empty pieces between separators.\<close>

fun split_path :: "bytes \<Rightarrow> bytes \<Rightarrow> bytes list" where
  "split_path piece [] = (if piece = [] then [] else [piece])"
| "split_path piece (c # path) =
     (if c = slash then (if piece = [] then [] else [piece]) @ split_path [] path
      else split_path (piece @ [c]) path)"

fun open_components :: "fs_api \<Rightarrow> int \<Rightarrow> bytes list \<Rightarrow> (fs_event, int option) io" where
  "open_components api directory_fd [] = State_Monad.return (Some directory_fd)"
| "open_components api directory_fd (component # components) = do {
     next_fd \<leftarrow> call_openat api directory_fd component [O_RDONLY, O_DIRECTORY, O_CLOEXEC, O_NOFOLLOW];
     saved_errno \<leftarrow> get_errno;
     _ \<leftarrow> fs_close api directory_fd;
     case next_fd of
       None \<Rightarrow> do { _ \<leftarrow> set_errno saved_errno; State_Monad.return None }
     | Some fd \<Rightarrow> open_components api fd components }"

definition open_directory_path ::
  "fs_api \<Rightarrow> squid_fs_context \<Rightarrow> bytes \<Rightarrow> (fs_event, int option) io" where
  "open_directory_path api context path = do {
     directory_fd \<leftarrow> open_root_copy api context;
     case directory_fd of
       None \<Rightarrow> State_Monad.return None
     | Some fd \<Rightarrow>
         (if path = [] then State_Monad.return (Some fd)
          else open_components api fd (split_path [] path)) }"

text \<open>\<open>strrchr(path, '/')\<close> splits a path into its parent and its leaf.\<close>

definition path_leaf :: "bytes \<Rightarrow> bytes" where
  "path_leaf path = rev (takeWhile (\<lambda>c. c \<noteq> slash) (rev path))"

definition path_parent :: "bytes \<Rightarrow> bytes" where
  "path_parent path = take (length path - length (path_leaf path) - 1) path"

definition open_parent_directory ::
  "fs_api \<Rightarrow> squid_fs_context \<Rightarrow> bytes \<Rightarrow> (fs_event, (int \<times> bytes) option) io" where
  "open_parent_directory api context path =
     (if path = [] then do { _ \<leftarrow> set_errno EINVAL; State_Monad.return None }
      else do {
        parent_fd \<leftarrow> open_directory_path api context (path_parent path);
        State_Monad.return (case parent_fd of
          None \<Rightarrow> None | Some fd \<Rightarrow> Some (fd, path_leaf path)) })"

definition S_IFMT :: u32 where "S_IFMT = 0xF000"
definition S_ISREG :: "u32 \<Rightarrow> bool" where "S_ISREG mode \<longleftrightarrow> mode AND S_IFMT = 0x8000"
definition S_ISDIR :: "u32 \<Rightarrow> bool" where "S_ISDIR mode \<longleftrightarrow> mode AND S_IFMT = 0x4000"

definition file_type_from_mode :: "u32 \<Rightarrow> u8" where
  "file_type_from_mode mode =
     (if S_ISREG mode then SQUID_FS_TYPE_FILE
      else if S_ISDIR mode then SQUID_FS_TYPE_DIRECTORY
      else SQUID_FS_TYPE_OTHER)"

definition file_size_from_stat :: "fs_stat \<Rightarrow> u32" where
  "file_size_from_stat information =
     (if \<not> S_ISREG (st_mode information) \<or> st_size information < 0 \<or>
         st_size information > 0xFFFFFFFF
      then (if S_ISREG (st_mode information) then SQUID_FS_SIZE_UNKNOWN else 0)
      else word_of_int (st_size information))"

subsection \<open>The context\<close>

definition init_squid_fs_context ::
  "fs_api \<Rightarrow> bytes \<Rightarrow> bool \<Rightarrow> (fs_event, squid_fs_context option) io" where
  "init_squid_fs_context api root_path ro =
     (if root_path = [] then State_Monad.return None
      else do {
        fd \<leftarrow> syscall (\<lambda>h. sys_open api h root_path [O_RDONLY, O_DIRECTORY, O_CLOEXEC, O_NOFOLLOW])
          (Open root_path [O_RDONLY, O_DIRECTORY, O_CLOEXEC, O_NOFOLLOW]);
        State_Monad.return (case fd of
          None \<Rightarrow> None
        | Some fd \<Rightarrow> Some \<lparr>root_fd = fd, read_only = ro\<rparr>) })"

definition free_squid_fs_context ::
  "fs_api \<Rightarrow> squid_fs_context \<Rightarrow> (fs_event, squid_fs_context) io" where
  "free_squid_fs_context api context = do {
     _ \<leftarrow> (if root_fd context \<ge> 0 then fs_close api (root_fd context)
           else State_Monad.return None);
     State_Monad.return \<lparr>root_fd = -1, read_only = False\<rparr> }"

subsection \<open>Operations\<close>

definition fs_handle_capabilities :: "squid_fs_context \<Rightarrow> u8 \<Rightarrow> nat \<Rightarrow> bytes option" where
  "fs_handle_capabilities context opcode capacity =
     (if capacity < 9 then None
      else let features = SQUID_FS_FEATURE_STAT OR SQUID_FS_FEATURE_LIST OR SQUID_FS_FEATURE_READ;
               features = (if read_only context then features
                 else features OR SQUID_FS_FEATURE_WRITE OR SQUID_FS_FEATURE_MKDIR OR
                   SQUID_FS_FEATURE_DELETE OR SQUID_FS_FEATURE_RENAME)
           in Some ([opcode OR SQUID_FS_RESPONSE_BIT, SQUID_FS_STATUS_OK, SQUID_FS_PROTOCOL_VERSION] @
                write_u16 features @
                [of_nat SQUID_FS_PATH_MAX, of_nat squid_fs_page_header_size,
                 of_nat squid_fs_read_header_size,
                 if capacity > squid_fs_read_header_size
                 then of_nat (capacity - squid_fs_read_header_size) else 0]))"

definition read_path_request :: "bytes \<Rightarrow> nat \<Rightarrow> bool \<Rightarrow> bytes option" where
  "read_path_request request length_offset allow_empty =
     (if length request \<le> length_offset then None
      else if unat (request ! length_offset) \<noteq> length request - length_offset - 1 then None
      else path_is_valid (drop (length_offset + 1) request) allow_empty)"

definition stat_reply :: "u8 \<Rightarrow> fs_stat \<Rightarrow> bytes" where
  "stat_reply opcode information =
     [opcode OR SQUID_FS_RESPONSE_BIT, SQUID_FS_STATUS_OK,
      file_type_from_mode (st_mode information)] @
     write_u16 (ucast (st_mode information AND 0x1FF)) @
     write_u32 (file_size_from_stat information) @
     write_u32 (if st_mtime information < 0 \<or> st_mtime information > 0xFFFFFFFF then 0
                else word_of_int (st_mtime information))"

definition fs_handle_stat ::
  "fs_api \<Rightarrow> squid_fs_context \<Rightarrow> u8 \<Rightarrow> bytes \<Rightarrow> nat \<Rightarrow> (fs_event, bytes option) io" where
  "fs_handle_stat api context opcode request capacity =
     (case read_path_request request 1 True of
        None \<Rightarrow> State_Monad.return (write_response opcode SQUID_FS_STATUS_BAD_REQUEST capacity)
      | Some path \<Rightarrow>
          if path = [] then do {
            result \<leftarrow> call_fstat api (root_fd context);
            case result of
              None \<Rightarrow> errno_response opcode capacity
            | Some information \<Rightarrow> State_Monad.return
                (if capacity < 13 then None else Some (stat_reply opcode information)) }
          else do {
            parent \<leftarrow> open_parent_directory api context path;
            case parent of
              None \<Rightarrow> errno_response opcode capacity
            | Some (parent_fd, leaf) \<Rightarrow> do {
                result \<leftarrow> call_fstatat api parent_fd leaf [AT_SYMLINK_NOFOLLOW];
                case result of
                  None \<Rightarrow> do {
                    response \<leftarrow> errno_response opcode capacity;
                    _ \<leftarrow> fs_close api parent_fd;
                    State_Monad.return response }
                | Some information \<Rightarrow> do {
                    _ \<leftarrow> fs_close api parent_fd;
                    State_Monad.return
                      (if capacity < 13 then None else Some (stat_reply opcode information)) } } })"

text \<open>
  The loop of \<open>handle_list\<close> over the names the stream delivers. \<open>Inl\<close> is a return from inside
  the loop; \<open>Inr\<close> gives the state after it, with \<open>stopped_for_space\<close>.
\<close>

definition list_record :: "bytes \<Rightarrow> fs_stat \<Rightarrow> bytes" where
  "list_record name information =
     [file_type_from_mode (st_mode information), of_nat (length name)] @ name @
     write_u32 (file_size_from_stat information)"

record list_state =
  entry_index :: u16
  entry_count :: u8
  page_output :: bytes \<comment> \<open>the records written after the page header\<close>
  stopped_at :: "u16 option" \<comment> \<open>\<open>next_cursor\<close> when \<open>stopped_for_space\<close>\<close>

fun list_entries ::
  "fs_api \<Rightarrow> int \<Rightarrow> u8 \<Rightarrow> nat \<Rightarrow> u16 \<Rightarrow> bytes list \<Rightarrow> list_state \<Rightarrow>
     (fs_event, bytes option + list_state) io" where
  "list_entries api fd opcode capacity cursor [] st = State_Monad.return (Inr st)"
| "list_entries api fd opcode capacity cursor (name # names) st =
     (if name = [dot] \<or> name = [dot, dot] then list_entries api fd opcode capacity cursor names st
      else if entry_index st < cursor then
        list_entries api fd opcode capacity cursor names (st\<lparr>entry_index := entry_index st + 1\<rparr>)
      else if length name > 255 \<or> 6 + length name > 249 then do {
        _ \<leftarrow> call_closedir api fd;
        State_Monad.return (Inl (write_response opcode SQUID_FS_STATUS_TOO_LARGE capacity)) }
      else do {
        result \<leftarrow> call_fstatat api fd name [AT_SYMLINK_NOFOLLOW];
        case result of
          None \<Rightarrow> do {
            _ \<leftarrow> call_closedir api fd;
            response \<leftarrow> errno_response opcode capacity;
            State_Monad.return (Inl response) }
        | Some information \<Rightarrow>
            (if 6 + length name > capacity - (squid_fs_page_header_size + length (page_output st)) then
               (if entry_count st = 0 then do {
                  _ \<leftarrow> call_closedir api fd;
                  State_Monad.return (Inl (write_response opcode SQUID_FS_STATUS_TOO_LARGE capacity)) }
                else State_Monad.return (Inr (st\<lparr>stopped_at := Some (entry_index st)\<rparr>)))
             else list_entries api fd opcode capacity cursor names
               (st\<lparr>page_output := page_output st @ list_record name information,
                   entry_count := entry_count st + 1, entry_index := entry_index st + 1\<rparr>)) })"

definition list_reply :: "u8 \<Rightarrow> list_state \<Rightarrow> bytes" where
  "list_reply opcode st =
     [opcode OR SQUID_FS_RESPONSE_BIT, SQUID_FS_STATUS_OK] @
     write_u16 (case stopped_at st of None \<Rightarrow> SQUID_FS_CURSOR_END | Some c \<Rightarrow> c) @
     [entry_count st] @ page_output st"

definition list_start :: list_state where
  "list_start = \<lparr>entry_index = 0, entry_count = 0, page_output = [], stopped_at = None\<rparr>"

text \<open>The part of \<open>handle_list\<close> after the directory has been opened.\<close>

definition list_directory ::
  "fs_api \<Rightarrow> int \<Rightarrow> u8 \<Rightarrow> nat \<Rightarrow> u16 \<Rightarrow> (fs_event, bytes option) io" where
  "list_directory api fd opcode capacity cursor = do {
     directory \<leftarrow> call_fdopendir api fd;
     case directory of
       None \<Rightarrow> do {
         response \<leftarrow> errno_response opcode capacity;
         _ \<leftarrow> fs_close api fd;
         State_Monad.return response }
     | Some (names, ending) \<Rightarrow> do {
         _ \<leftarrow> set_errno E_OK;
         result \<leftarrow> list_entries api fd opcode capacity cursor names list_start;
         case result of
           Inl response \<Rightarrow> State_Monad.return response
         | Inr st \<Rightarrow> do {
             _ \<leftarrow> (case (stopped_at st, ending) of
                   (None, Some e) \<Rightarrow> set_errno e \<comment> \<open>the last \<open>readdir\<close> failed\<close>
                 | _ \<Rightarrow> State_Monad.return ());
             e \<leftarrow> get_errno;
             if stopped_at st = None \<and> e \<noteq> E_OK then do {
               response \<leftarrow> errno_response opcode capacity;
               _ \<leftarrow> call_closedir api fd;
               State_Monad.return response }
             else do {
               _ \<leftarrow> call_closedir api fd;
               State_Monad.return (Some (list_reply opcode st)) } } } }"

definition fs_handle_list ::
  "fs_api \<Rightarrow> squid_fs_context \<Rightarrow> u8 \<Rightarrow> bytes \<Rightarrow> nat \<Rightarrow> (fs_event, bytes option) io" where
  "fs_handle_list api context opcode request capacity =
     (case (if length request < 4 then None else read_path_request request 3 True) of
        None \<Rightarrow> State_Monad.return (write_response opcode SQUID_FS_STATUS_BAD_REQUEST capacity)
      | Some path \<Rightarrow>
          (let cursor = read_u16 (drop 1 request) in
           if cursor = SQUID_FS_CURSOR_END \<or> capacity < squid_fs_page_header_size
           then State_Monad.return (write_response opcode SQUID_FS_STATUS_BAD_REQUEST capacity)
           else do {
             directory_fd \<leftarrow> open_directory_path api context path;
             case directory_fd of
               None \<Rightarrow> errno_response opcode capacity
             | Some fd \<Rightarrow> list_directory api fd opcode capacity cursor }))"

text \<open>The status of \<open>handle_read\<close>'s checks on the file, \<open>None\<close> when it may be read.\<close>

definition read_refusal :: "fs_stat \<Rightarrow> u32 \<Rightarrow> u8 option" where
  "read_refusal information offset =
     (if S_ISDIR (st_mode information) then Some SQUID_FS_STATUS_IS_DIRECTORY
      else if \<not> S_ISREG (st_mode information) then Some SQUID_FS_STATUS_ACCESS_DENIED
      else if st_size information < 0 \<or> st_size information > 0xFFFFFFFF
      then Some SQUID_FS_STATUS_TOO_LARGE
      else if uint offset > st_size information then Some SQUID_FS_STATUS_BAD_REQUEST
      else None)"

definition read_chunk_size :: "fs_stat \<Rightarrow> u32 \<Rightarrow> u8 \<Rightarrow> nat \<Rightarrow> nat" where
  "read_chunk_size information offset maximum_bytes capacity =
     (let data_size = capacity - squid_fs_read_header_size;
          data_size = (if maximum_bytes > 0 \<and> data_size > unat maximum_bytes
                       then unat maximum_bytes else data_size);
          data_size = (if data_size > 255 then 255 else data_size);
          left = nat (st_size information) - unat offset
      in if data_size > left then left else data_size)"

definition read_file ::
  "fs_api \<Rightarrow> int \<Rightarrow> u8 \<Rightarrow> u32 \<Rightarrow> u8 \<Rightarrow> nat \<Rightarrow> (fs_event, bytes option) io" where
  "read_file api fd opcode offset maximum_bytes capacity = do {
     result \<leftarrow> call_fstat api fd;
     case result of
       None \<Rightarrow> do {
         response \<leftarrow> errno_response opcode capacity;
         _ \<leftarrow> fs_close api fd;
         State_Monad.return response }
     | Some information \<Rightarrow>
         (case read_refusal information offset of
            Some status \<Rightarrow> do {
              _ \<leftarrow> fs_close api fd;
              State_Monad.return (write_response opcode status capacity) }
          | None \<Rightarrow> do {
              result \<leftarrow> call_pread api fd
                (read_chunk_size information offset maximum_bytes capacity) offset;
              case result of
                None \<Rightarrow> do {
                  response \<leftarrow> errno_response opcode capacity;
                  _ \<leftarrow> fs_close api fd;
                  State_Monad.return response }
              | Some data \<Rightarrow> do {
                  _ \<leftarrow> fs_close api fd;
                  State_Monad.return (Some (
                    [opcode OR SQUID_FS_RESPONSE_BIT, SQUID_FS_STATUS_OK] @ write_u32 offset @
                    write_u32 (word_of_int (st_size information)) @
                    [of_nat (length data)] @ data)) } }) }"

text \<open>
  \<open>open_parent_directory\<close>, \<open>openat\<close> of the leaf and \<open>close\<close> of the parent, as READ and WRITE do it;
  \<open>Inl\<close> is an early return.
\<close>

definition open_leaf ::
  "fs_api \<Rightarrow> squid_fs_context \<Rightarrow> u8 \<Rightarrow> nat \<Rightarrow> bytes \<Rightarrow> open_flag list \<Rightarrow>
     (fs_event, bytes option + int) io" where
  "open_leaf api context opcode capacity path flags = do {
     parent \<leftarrow> open_parent_directory api context path;
     case parent of
       None \<Rightarrow> do { response \<leftarrow> errno_response opcode capacity; State_Monad.return (Inl response) }
     | Some (parent_fd, leaf) \<Rightarrow> do {
         file_fd \<leftarrow> call_openat api parent_fd leaf flags;
         case file_fd of
           None \<Rightarrow> do {
             response \<leftarrow> errno_response opcode capacity;
             _ \<leftarrow> fs_close api parent_fd;
             State_Monad.return (Inl response) }
         | Some fd \<Rightarrow> do {
             _ \<leftarrow> fs_close api parent_fd;
             State_Monad.return (Inr fd) } } }"

definition fs_handle_read ::
  "fs_api \<Rightarrow> squid_fs_context \<Rightarrow> u8 \<Rightarrow> bytes \<Rightarrow> nat \<Rightarrow> (fs_event, bytes option) io" where
  "fs_handle_read api context opcode request capacity =
     (case (if length request < 7 then None else read_path_request request 6 False) of
        None \<Rightarrow> State_Monad.return (write_response opcode SQUID_FS_STATUS_BAD_REQUEST capacity)
      | Some path \<Rightarrow>
          (if capacity < squid_fs_read_header_size then State_Monad.return None
           else do {
             file \<leftarrow> open_leaf api context opcode capacity path [O_RDONLY, O_CLOEXEC, O_NOFOLLOW];
             case file of
               Inl response \<Rightarrow> State_Monad.return response
             | Inr fd \<Rightarrow> read_file api fd opcode (read_u32 (drop 1 request)) (request ! 5) capacity }))"

definition write_file ::
  "fs_api \<Rightarrow> int \<Rightarrow> u8 \<Rightarrow> u32 \<Rightarrow> bytes \<Rightarrow> nat \<Rightarrow> (fs_event, bytes option) io" where
  "write_file api fd opcode offset data capacity = do {
     result \<leftarrow> call_fstat api fd;
     case result of
       None \<Rightarrow> do {
         response \<leftarrow> errno_response opcode capacity;
         _ \<leftarrow> fs_close api fd;
         State_Monad.return response }
     | Some information \<Rightarrow>
         (if \<not> S_ISREG (st_mode information) then do {
            _ \<leftarrow> fs_close api fd;
            State_Monad.return (write_response opcode SQUID_FS_STATUS_ACCESS_DENIED capacity) }
          else do {
            result \<leftarrow> call_pwrite api fd data offset;
            case result of
              None \<Rightarrow> do {
                response \<leftarrow> errno_response opcode capacity;
                _ \<leftarrow> fs_close api fd;
                State_Monad.return response }
            | Some bytes_written \<Rightarrow> do {
                _ \<leftarrow> fs_close api fd;
                State_Monad.return
                  (if capacity < 7 then None
                   else Some ([opcode OR SQUID_FS_RESPONSE_BIT, SQUID_FS_STATUS_OK] @
                     write_u32 offset @ [of_nat bytes_written])) } }) }"

text \<open>The arguments of a WRITE request: offset, flags, path and data; \<open>None\<close> for a bad request.\<close>

definition parse_write_request :: "bytes \<Rightarrow> (u32 \<times> u8 \<times> bytes \<times> bytes) option" where
  "parse_write_request request =
     (if length request < 8 then None
      else let offset = read_u32 (drop 1 request); flags = request ! 5;
               path_size = unat (request ! 6); cursor = 7 in
        if flags AND NOT (SQUID_FS_WRITE_CREATE OR SQUID_FS_WRITE_TRUNCATE) \<noteq> 0 \<or>
           path_size > length request - cursor
        then None
        else case path_is_valid (take path_size (drop cursor request)) False of
          None \<Rightarrow> None
        | Some path \<Rightarrow>
            (let cursor = cursor + path_size in
             if cursor \<ge> length request then None
             else let data_size = unat (request ! cursor); cursor = cursor + 1 in
               if data_size \<noteq> length request - cursor then None
               else Some (offset, flags, path, drop cursor request)))"

definition write_open_flags :: "u8 \<Rightarrow> open_flag list" where
  "write_open_flags flags = [O_WRONLY, O_CLOEXEC, O_NOFOLLOW] @
     (if flags AND SQUID_FS_WRITE_CREATE \<noteq> 0 then [O_CREAT] else []) @
     (if flags AND SQUID_FS_WRITE_TRUNCATE \<noteq> 0 then [O_TRUNC] else [])"

definition fs_handle_write ::
  "fs_api \<Rightarrow> squid_fs_context \<Rightarrow> u8 \<Rightarrow> bytes \<Rightarrow> nat \<Rightarrow> (fs_event, bytes option) io" where
  "fs_handle_write api context opcode request capacity =
     (if read_only context then
        State_Monad.return (write_response opcode SQUID_FS_STATUS_READ_ONLY capacity)
      else case parse_write_request request of
        None \<Rightarrow> State_Monad.return (write_response opcode SQUID_FS_STATUS_BAD_REQUEST capacity)
      | Some (offset, flags, path, data) \<Rightarrow> do {
          file \<leftarrow> open_leaf api context opcode capacity path (write_open_flags flags);
          case file of
            Inl response \<Rightarrow> State_Monad.return response
          | Inr fd \<Rightarrow> write_file api fd opcode offset data capacity })"

definition fs_handle_mkdir_or_delete ::
  "fs_api \<Rightarrow> squid_fs_context \<Rightarrow> u8 \<Rightarrow> bytes \<Rightarrow> nat \<Rightarrow> (fs_event, bytes option) io" where
  "fs_handle_mkdir_or_delete api context opcode request capacity =
     (if read_only context then
        State_Monad.return (write_response opcode SQUID_FS_STATUS_READ_ONLY capacity)
      else case read_path_request request 1 False of
        None \<Rightarrow> State_Monad.return (write_response opcode SQUID_FS_STATUS_BAD_REQUEST capacity)
      | Some path \<Rightarrow> do {
          parent \<leftarrow> open_parent_directory api context path;
          case parent of
            None \<Rightarrow> errno_response opcode capacity
          | Some (parent_fd, leaf) \<Rightarrow> do {
              result \<leftarrow>
                (if opcode = SQUID_FS_OP_MKDIR then call_mkdirat api parent_fd leaf 0x1FF
                 else do {
                   information \<leftarrow> call_fstatat api parent_fd leaf [AT_SYMLINK_NOFOLLOW];
                   case information of
                     None \<Rightarrow> State_Monad.return None
                   | Some information \<Rightarrow>
                       call_unlinkat api parent_fd leaf
                         (if S_ISDIR (st_mode information) then [AT_REMOVEDIR] else []) });
              case result of
                None \<Rightarrow> do {
                  response \<leftarrow> errno_response opcode capacity;
                  _ \<leftarrow> fs_close api parent_fd;
                  State_Monad.return response }
              | Some _ \<Rightarrow> do {
                  _ \<leftarrow> fs_close api parent_fd;
                  State_Monad.return (write_response opcode SQUID_FS_STATUS_OK capacity) } } })"

text \<open>The two paths of a RENAME request.\<close>

definition parse_rename_request :: "bytes \<Rightarrow> (bytes \<times> bytes) option" where
  "parse_rename_request request =
     (if length request < 4 then None
      else let old_size = unat (request ! 1); cursor = 2 in
        if old_size > length request - cursor then None
        else case path_is_valid (take old_size (drop cursor request)) False of
          None \<Rightarrow> None
        | Some old_path \<Rightarrow>
            (let cursor = cursor + old_size in
             if cursor \<ge> length request then None
             else let new_size = unat (request ! cursor); cursor = cursor + 1 in
               if new_size \<noteq> length request - cursor then None
               else case path_is_valid (drop cursor request) False of
                 None \<Rightarrow> None
               | Some new_path \<Rightarrow> Some (old_path, new_path)))"

definition rename_between ::
  "fs_api \<Rightarrow> u8 \<Rightarrow> nat \<Rightarrow> int \<Rightarrow> bytes \<Rightarrow> int \<Rightarrow> bytes \<Rightarrow> (fs_event, bytes option) io" where
  "rename_between api opcode capacity old_parent old_leaf new_parent new_leaf = do {
     result \<leftarrow> call_renameat api old_parent old_leaf new_parent new_leaf;
     case result of
       None \<Rightarrow> do {
         response \<leftarrow> errno_response opcode capacity;
         _ \<leftarrow> fs_close api old_parent;
         _ \<leftarrow> fs_close api new_parent;
         State_Monad.return response }
     | Some _ \<Rightarrow> do {
         _ \<leftarrow> fs_close api old_parent;
         _ \<leftarrow> fs_close api new_parent;
         State_Monad.return (write_response opcode SQUID_FS_STATUS_OK capacity) } }"

definition fs_handle_rename ::
  "fs_api \<Rightarrow> squid_fs_context \<Rightarrow> u8 \<Rightarrow> bytes \<Rightarrow> nat \<Rightarrow> (fs_event, bytes option) io" where
  "fs_handle_rename api context opcode request capacity =
     (if read_only context then
        State_Monad.return (write_response opcode SQUID_FS_STATUS_READ_ONLY capacity)
      else case parse_rename_request request of
        None \<Rightarrow> State_Monad.return (write_response opcode SQUID_FS_STATUS_BAD_REQUEST capacity)
      | Some (old_path, new_path) \<Rightarrow> do {
          old \<leftarrow> open_parent_directory api context old_path;
          case old of
            None \<Rightarrow> errno_response opcode capacity
          | Some (old_parent, old_leaf) \<Rightarrow> do {
              new \<leftarrow> open_parent_directory api context new_path;
              case new of
                None \<Rightarrow> do {
                  response \<leftarrow> errno_response opcode capacity;
                  _ \<leftarrow> fs_close api old_parent;
                  State_Monad.return response }
              | Some (new_parent, new_leaf) \<Rightarrow>
                  rename_between api opcode capacity old_parent old_leaf new_parent new_leaf } })"

definition handle_squid_fs_request ::
  "fs_api \<Rightarrow> squid_fs_context \<Rightarrow> bytes \<Rightarrow> nat \<Rightarrow> (fs_event, bytes option) io" where
  "handle_squid_fs_request api context request capacity =
     (if root_fd context < 0 \<or> request = [] \<or> capacity < 2 then State_Monad.return None
      else let opcode = request ! 0 in
        if opcode = SQUID_FS_OP_CAPABILITIES then State_Monad.return
          (if length request \<noteq> 1 then write_response opcode SQUID_FS_STATUS_BAD_REQUEST capacity
           else fs_handle_capabilities context opcode capacity)
        else if opcode = SQUID_FS_OP_STAT then fs_handle_stat api context opcode request capacity
        else if opcode = SQUID_FS_OP_LIST then fs_handle_list api context opcode request capacity
        else if opcode = SQUID_FS_OP_READ then fs_handle_read api context opcode request capacity
        else if opcode = SQUID_FS_OP_WRITE then fs_handle_write api context opcode request capacity
        else if opcode = SQUID_FS_OP_MKDIR \<or> opcode = SQUID_FS_OP_DELETE then
          fs_handle_mkdir_or_delete api context opcode request capacity
        else if opcode = SQUID_FS_OP_RENAME then fs_handle_rename api context opcode request capacity
        else State_Monad.return (write_response opcode SQUID_FS_STATUS_BAD_REQUEST capacity))"

subsection \<open>The plugin\<close>

record squid_fs_plugin_state =
  fs_context :: squid_fs_context
  started :: bool

definition environment_is_true :: "bytes option \<Rightarrow> bool" where
  "environment_is_true v =
     (case v of None \<Rightarrow> False
      | Some text \<Rightarrow> text = ascii ''1'' \<or> text = ascii ''true'' \<or> text = ascii ''yes'')"

definition squid_fs_default_root :: bytes where
  "squid_fs_default_root = ascii ''/opt/squid/share''"

definition get_root_path :: "bytes option \<Rightarrow> bytes option \<Rightarrow> nat \<Rightarrow> bytes option" where
  "get_root_path configured stage_root path_capacity =
     (let text =
        (case configured of
           Some root \<Rightarrow> if root \<noteq> [] then root else
             (case stage_root of Some stage \<Rightarrow> if stage \<noteq> [] then stage @ squid_fs_default_root
                else squid_fs_default_root | None \<Rightarrow> squid_fs_default_root)
         | None \<Rightarrow>
             (case stage_root of Some stage \<Rightarrow> if stage \<noteq> [] then stage @ squid_fs_default_root
                else squid_fs_default_root | None \<Rightarrow> squid_fs_default_root))
      in if length text < path_capacity then Some text else None)"

text \<open>The environment of \<open>start_squid_fs_plugin\<close>.\<close>

record fs_environment =
  SQUID_FS_ROOT :: "bytes option"
  SQUID_SERVER_STAGE_ROOT :: "bytes option"
  SQUID_FS_READ_ONLY :: "bytes option"

definition start_squid_fs_plugin ::
  "fs_api \<Rightarrow> fs_environment \<Rightarrow> squid_fs_plugin_state \<Rightarrow> (fs_event, int \<times> squid_fs_plugin_state) io" where
  "start_squid_fs_plugin api environment state =
     (case get_root_path (SQUID_FS_ROOT environment) (SQUID_SERVER_STAGE_ROOT environment) 1024 of
        None \<Rightarrow> State_Monad.return (-1, state)
      | Some root_path \<Rightarrow>
          (if started state then State_Monad.return (0, state)
           else do {
             context \<leftarrow> init_squid_fs_context api root_path
               (environment_is_true (SQUID_FS_READ_ONLY environment));
             State_Monad.return (case context of
               None \<Rightarrow> (-1, \<lparr>fs_context = \<lparr>root_fd = -1, read_only = False\<rparr>, started = False\<rparr>)
             | Some c \<Rightarrow> (0, \<lparr>fs_context = c, started = True\<rparr>)) }))"

definition stop_squid_fs_plugin ::
  "fs_api \<Rightarrow> squid_fs_plugin_state \<Rightarrow> (fs_event, squid_fs_plugin_state) io" where
  "stop_squid_fs_plugin api state =
     (if started state then do {
        context \<leftarrow> free_squid_fs_context api (fs_context state);
        State_Monad.return (state\<lparr>fs_context := context, started := False\<rparr>) }
      else State_Monad.return state)"

definition handle_squid_fs_packet ::
  "fs_api \<Rightarrow> squid_fs_plugin_state \<Rightarrow> bytes \<Rightarrow> nat \<Rightarrow> (fs_event, bytes option) io" where
  "handle_squid_fs_packet api state request capacity =
     (if request = [] \<or> capacity = 0 \<or> \<not> started state then State_Monad.return None
      else handle_squid_fs_request api (fs_context state) request capacity)"

end
