(* ===== verification/Filesystem_Safety.thy ===== *)
theory Filesystem_Safety
  imports Filesystem_Service
begin

text \<open>
  Safety of the filesystem service against every request and every behaviour of the kernel: the
  calls stay inside the exported tree, every descriptor that is opened is closed, a read-only
  export is never modified, and every response fits and has the protocol's shape.
\<close>

subsection \<open>Paths\<close>

definition safe_name :: "bytes \<Rightarrow> bool" where
  "safe_name name \<longleftrightarrow> component_is_valid name \<and> slash \<notin> set name \<and> 0 \<notin> set name"

lemma components_are_valid_split:
  "components_are_valid piece path \<Longrightarrow> slash \<notin> set piece \<Longrightarrow> 0 \<notin> set piece \<Longrightarrow>
     \<forall>name \<in> set (split_path piece path). safe_name name"
  by (induction piece path rule: components_are_valid.induct)
     (auto simp: safe_name_def component_is_valid_def split: if_splits)

lemma split_path_append_slash:
  "split_path piece (xs @ slash # ys) = split_path piece xs @ split_path [] ys"
  by (induction piece xs rule: split_path.induct) auto

lemma split_path_no_slash:
  "slash \<notin> set xs \<Longrightarrow> split_path piece xs = (if piece @ xs = [] then [] else [piece @ xs])"
  by (induction piece xs rule: split_path.induct) auto

lemma path_is_valid_SomeD:
  "path_is_valid input allow_empty = Some path \<Longrightarrow>
     path = input \<and> (path \<noteq> [] \<longrightarrow> components_are_valid [] path) \<and> length path \<le> SQUID_FS_PATH_MAX"
  by (auto simp: path_is_valid_def split: if_splits)

text \<open>A path is its parent, a separator and its leaf, or just its leaf.\<close>

lemma path_leaf_suffix:
  "path = path_leaf path \<or> path = path_parent path @ slash # path_leaf path"
proof (cases "slash \<in> set path")
  case False
  then have "takeWhile (\<lambda>c. c \<noteq> slash) (rev path) = rev path"
    by (auto simp: takeWhile_eq_all_conv)
  then have "path_leaf path = path" by (simp only: path_leaf_def rev_rev_ident)
  then show ?thesis by simp
next
  case True
  then obtain ys zs where path: "path = ys @ slash # zs" and zs: "slash \<notin> set zs"
    by (meson split_list_last)
  have "takeWhile (\<lambda>c. c \<noteq> slash) (rev zs @ slash # rev ys) = rev zs"
    using zs by (subst takeWhile_append2) auto
  then have "path_leaf path = zs"
    by (simp add: path_leaf_def path)
  then show ?thesis
    by (simp add: path path_parent_def)
qed

lemma slash_notin_leaf [simp]: "slash \<notin> set (path_leaf path)"
  by (auto simp: path_leaf_def dest: set_takeWhileD)

lemma valid_path_parts:
  assumes "components_are_valid [] path" and "path \<noteq> []"
  shows "safe_name (path_leaf path)" "\<forall>name \<in> set (split_path [] (path_parent path)). safe_name name"
proof -
  have parts: "\<forall>name \<in> set (split_path [] path). safe_name name"
    using components_are_valid_split [OF assms(1)] by simp
  have leaf: "path_leaf path \<noteq> []"
  proof
    assume none: "path_leaf path = []"
    then have "path = path_parent path @ [slash]"
      using path_leaf_suffix [of path] assms(2) by auto
    moreover have "components_are_valid [] (xs @ [slash]) \<Longrightarrow> False" for xs
    proof -
      have "components_are_valid piece (xs @ [slash]) \<Longrightarrow> False" for piece
        by (induction piece xs rule: components_are_valid.induct)
           (auto simp: component_is_valid_def split: if_splits)
      then show "components_are_valid [] (xs @ [slash]) \<Longrightarrow> False" .
    qed
    ultimately show False using assms(1) by metis
  qed
  from path_leaf_suffix [of path]
  show "safe_name (path_leaf path)" "\<forall>name \<in> set (split_path [] (path_parent path)). safe_name name"
  proof (atomize (full), elim disjE)
    assume eq: "path = path_leaf path"
    then have "path_parent path = []" by (simp add: path_parent_def)
    moreover have "split_path [] path = [path_leaf path]"
      using eq leaf split_path_no_slash [OF slash_notin_leaf, of "[]" path] by simp
    ultimately show "safe_name (path_leaf path) \<and>
        (\<forall>name \<in> set (split_path [] (path_parent path)). safe_name name)"
      using parts by simp
  next
    assume "path = path_parent path @ slash # path_leaf path"
    then have "split_path [] path = split_path [] (path_parent path) @ [path_leaf path]"
      using leaf split_path_append_slash [of "[]" "path_parent path" "path_leaf path"]
        split_path_no_slash [OF slash_notin_leaf, of "[]" path] by simp
    then show "safe_name (path_leaf path) \<and>
        (\<forall>name \<in> set (split_path [] (path_parent path)). safe_name name)"
      using parts by simp
  qed
qed

subsection \<open>The sandbox\<close>

text \<open>
  The descriptors that lie inside the exported tree: the root, duplicates of it, and what
  \<open>openat\<close> opens from such a descriptor under a single component name without following a
  symbolic link. A name may also come from the directory stream that is being listed.
\<close>

fun inside :: "int set \<Rightarrow> fs_event \<Rightarrow> int set" where
  "inside D (Dup _ (Inr fd)) = insert fd D"
| "inside D (Openat _ _ _ (Inr fd)) = insert fd D"
| "inside D _ = D"

fun listed :: "bytes set \<Rightarrow> fs_event \<Rightarrow> bytes set" where
  "listed N (Fdopendir _ (Inr (names, _))) = N \<union> set names"
| "listed N _ = N"

fun allowed :: "int set \<Rightarrow> bytes set \<Rightarrow> fs_event \<Rightarrow> bool" where
  "allowed D N (Open _ _ _) \<longleftrightarrow> False"
| "allowed D N (Dup fd _) \<longleftrightarrow> fd \<in> D"
| "allowed D N (Openat fd name flags _) \<longleftrightarrow> fd \<in> D \<and> safe_name name \<and> O_NOFOLLOW \<in> set flags"
| "allowed D N (Close fd _) \<longleftrightarrow> fd \<in> D"
| "allowed D N (Fstat fd _) \<longleftrightarrow> fd \<in> D"
| "allowed D N (Fstatat fd name flags _) \<longleftrightarrow> fd \<in> D \<and> AT_SYMLINK_NOFOLLOW \<in> set flags \<and>
     (safe_name name \<or> name \<in> N \<and> name \<noteq> [dot] \<and> name \<noteq> [dot, dot])"
| "allowed D N (Fdopendir fd _) \<longleftrightarrow> fd \<in> D"
| "allowed D N (Closedir fd _) \<longleftrightarrow> fd \<in> D"
| "allowed D N (Pread fd _ _ _) \<longleftrightarrow> fd \<in> D"
| "allowed D N (Pwrite fd _ _ _) \<longleftrightarrow> fd \<in> D"
| "allowed D N (Mkdirat fd name _ _) \<longleftrightarrow> fd \<in> D \<and> safe_name name"
| "allowed D N (Unlinkat fd name _ _) \<longleftrightarrow> fd \<in> D \<and> safe_name name"
| "allowed D N (Renameat fd name fd' name' _) \<longleftrightarrow>
     fd \<in> D \<and> safe_name name \<and> fd' \<in> D \<and> safe_name name'"

fun sandboxed :: "int set \<Rightarrow> bytes set \<Rightarrow> fs_event list \<Rightarrow> bool" where
  "sandboxed D N [] \<longleftrightarrow> True"
| "sandboxed D N (e # es) \<longleftrightarrow> allowed D N e \<and> sandboxed (inside D e) (listed N e) es"

lemma sandboxed_append [simp]:
  "sandboxed D N (es @ es') \<longleftrightarrow>
     sandboxed D N es \<and> sandboxed (foldl inside D es) (foldl listed N es) es'"
  by (induction es arbitrary: D N) auto

lemma inside_mono: "D \<subseteq> inside D e"
  by (cases "(D, e)" rule: inside.cases) auto

lemma foldl_inside_mono: "fd \<in> D \<Longrightarrow> fd \<in> foldl inside D es"
  by (induction es arbitrary: D) (use inside_mono in auto)

subsection \<open>The descriptor ledger\<close>

fun opens_fd :: "fs_event \<Rightarrow> int multiset" where
  "opens_fd (Open _ _ (Inr fd)) = {#fd#}"
| "opens_fd (Dup _ (Inr fd)) = {#fd#}"
| "opens_fd (Openat _ _ _ (Inr fd)) = {#fd#}"
| "opens_fd _ = {#}"

fun closes_fd :: "fs_event \<Rightarrow> int multiset" where
  "closes_fd (Close fd _) = {#fd#}"
| "closes_fd (Closedir fd _) = {#fd#}"
| "closes_fd _ = {#}"

definition opened_fds :: "fs_event list \<Rightarrow> int multiset" where
  "opened_fds es = sum_list (map opens_fd es)"

definition closed_fds :: "fs_event list \<Rightarrow> int multiset" where
  "closed_fds es = sum_list (map closes_fd es)"

lemma fd_simps [simp]:
  "opened_fds [] = {#}" "opened_fds (e # es) = opens_fd e + opened_fds es"
  "opened_fds (es @ es') = opened_fds es + opened_fds es'"
  "closed_fds [] = {#}" "closed_fds (e # es) = closes_fd e + closed_fds es"
  "closed_fds (es @ es') = closed_fds es + closed_fds es'"
  by (simp_all add: opened_fds_def closed_fds_def)

subsection \<open>Modifications\<close>

fun modifies :: "fs_event \<Rightarrow> bool" where
  "modifies (Openat _ _ flags _) \<longleftrightarrow> O_WRONLY \<in> set flags \<or> O_CREAT \<in> set flags \<or> O_TRUNC \<in> set flags"
| "modifies (Pwrite _ _ _ _) \<longleftrightarrow> True"
| "modifies (Mkdirat _ _ _ _) \<longleftrightarrow> True"
| "modifies (Unlinkat _ _ _ _) \<longleftrightarrow> True"
| "modifies (Renameat _ _ _ _ _) \<longleftrightarrow> True"
| "modifies _ \<longleftrightarrow> False"

subsection \<open>The contract of the operations\<close>

text \<open>
  \<open>tidy D N held held' es\<close>: the calls stay inside, and the ledger takes the descriptors in
  \<open>held\<close> to those in \<open>held'\<close>.
\<close>

definition tidy :: "int set \<Rightarrow> bytes set \<Rightarrow> int multiset \<Rightarrow> int multiset \<Rightarrow> fs_event list \<Rightarrow> bool" where
  "tidy D N held held' es \<longleftrightarrow> sandboxed D N es \<and> opened_fds es + held = closed_fds es + held' \<and>
     set_mset held' \<subseteq> foldl inside D es"

definition unmodified :: "fs_event list \<Rightarrow> bool" where
  "unmodified es \<longleftrightarrow> list_all (\<lambda>e. \<not> modifies e) es"

lemma unmodified_simps [simp]:
  "unmodified []" "unmodified (e # es) \<longleftrightarrow> \<not> modifies e \<and> unmodified es"
  "unmodified (es @ es') \<longleftrightarrow> unmodified es \<and> unmodified es'"
  by (simp_all add: unmodified_def)

definition held_of :: "int option \<Rightarrow> int multiset" where
  "held_of r = (case r of None \<Rightarrow> {#} | Some fd \<Rightarrow> {#fd#})"

lemma held_of_simps [simp]: "held_of None = {#}" "held_of (Some fd) = {#fd#}"
  by (simp_all add: held_of_def)

lemma open_components_tidy:
  assumes "fd \<in> D" and "\<forall>name \<in> set components. safe_name name"
  shows "ensures (open_components api fd components)
    (\<lambda>r es. tidy D N {#fd#} (held_of r) es \<and> unmodified es)"
  using assms
proof (induction components arbitrary: fd D)
  case Nil
  then show ?case by (auto intro!: io_rules simp: tidy_def)
next
  case (Cons component components)
  have rest: "ensures (open_components api fd2 components) (\<lambda>r es.
      tidy D N {#fd#} (held_of r) (Openat fd component flags (Inr fd2) # Close fd c # es) \<and>
      unmodified (Openat fd component flags (Inr fd2) # Close fd c # es))"
    if "flags = [O_RDONLY, O_DIRECTORY, O_CLOEXEC, O_NOFOLLOW]" for fd2 c flags
    by (rule ensures_mono [OF Cons.IH [where D = "insert fd2 D"]])
       (use Cons.prems that in \<open>auto simp: tidy_def\<close>)
  show ?case
    unfolding open_components.simps fs_calls
    apply (intro io_rules)
     apply (use Cons.prems in \<open>auto simp: tidy_def\<close>)[1]
    using rest by simp
qed

lemma open_directory_path_tidy:
  assumes "\<forall>name \<in> set (split_path [] path). safe_name name" and "root_fd context \<in> D"
  shows "ensures (open_directory_path api context path)
    (\<lambda>r es. tidy D N {#} (held_of r) es \<and> unmodified es)"
proof -
  have rest: "ensures (open_components api fd (split_path [] path))
      (\<lambda>r es. tidy D N {#} (held_of r) (Dup (root_fd context) a # es) \<and>
        unmodified (Dup (root_fd context) a # es))"
    if "answer a = Some fd" for fd a
    by (rule ensures_mono [OF open_components_tidy [where D = "insert fd D"]])
       (use assms that in \<open>auto simp: tidy_def\<close>)
  show ?thesis
    unfolding open_directory_path_def open_root_copy_def fs_calls(1)
    by (intro io_rules rest) (use assms in \<open>auto simp: tidy_def\<close>)
qed

text \<open>A path that \<open>path_is_valid\<close> let through.\<close>

definition valid_path :: "bytes \<Rightarrow> bool" where
  "valid_path path \<longleftrightarrow> path \<noteq> [] \<and> components_are_valid [] path"

definition held_of_parent :: "(int \<times> bytes) option \<Rightarrow> int multiset" where
  "held_of_parent r = held_of (map_option fst r)"

lemma held_of_parent_simps [simp]:
  "held_of_parent None = {#}" "held_of_parent (Some (fd, leaf)) = {#fd#}"
  by (simp_all add: held_of_parent_def)

definition parent_opened ::
  "int set \<Rightarrow> bytes set \<Rightarrow> (int \<times> bytes) option \<Rightarrow> fs_event list \<Rightarrow> bool" where
  "parent_opened D N r es \<longleftrightarrow> tidy D N {#} (held_of_parent r) es \<and> unmodified es \<and>
     (\<forall>fd leaf. r = Some (fd, leaf) \<longrightarrow> safe_name leaf)"

lemma open_parent_directory_tidy:
  assumes "valid_path path" and "root_fd context \<in> D"
  shows "ensures (open_parent_directory api context path) (parent_opened D N)"
  unfolding open_parent_directory_def
  using valid_path_parts [of path] assms
  by (intro io_rules ensures_bind [OF open_directory_path_tidy [where D = D and N = N]])
     (auto simp: valid_path_def held_of_parent_def parent_opened_def split: option.splits)

lemma open_parent_in_root:
  "valid_path path \<Longrightarrow>
     ensures (open_parent_directory api context path) (parent_opened {root_fd context} {})"
  by (rule open_parent_directory_tidy) simp_all

subsection \<open>Responses\<close>

definition response_ok :: "u8 \<Rightarrow> nat \<Rightarrow> bytes option \<Rightarrow> bool" where
  "response_ok opcode capacity r \<longleftrightarrow>
     (\<forall>reply. r = Some reply \<longrightarrow> 2 \<le> length reply \<and> length reply \<le> capacity \<and>
        hd reply = opcode OR SQUID_FS_RESPONSE_BIT)"

lemma response_ok_simps [simp]:
  "response_ok opcode capacity None"
  "response_ok opcode capacity (write_response opcode status capacity)"
  by (auto simp: response_ok_def write_response_def)

definition settled :: "int \<Rightarrow> u8 \<Rightarrow> nat \<Rightarrow> bool \<Rightarrow> bytes option \<Rightarrow> fs_event list \<Rightarrow> bool" where
  "settled root opcode capacity ro r es \<longleftrightarrow> tidy {root} {} {#} {#} es \<and>
     response_ok opcode capacity r \<and> (ro \<longrightarrow> unmodified es)"

lemma read_path_request_valid:
  "read_path_request request offset allow_empty = Some path \<Longrightarrow> path \<noteq> [] \<Longrightarrow> valid_path path"
  by (auto simp: read_path_request_def valid_path_def dest: path_is_valid_SomeD split: if_splits)

lemma read_path_request_nonempty:
  "read_path_request request offset False = Some path \<Longrightarrow> valid_path path"
  by (auto simp: read_path_request_def path_is_valid_def valid_path_def split: if_splits)

lemmas settled_defs = settled_def tidy_def parent_opened_def foldl_inside_mono response_ok_def
  write_response_def

lemma fs_handle_stat_settled:
  "ensures (fs_handle_stat api context opcode request capacity)
     (settled (root_fd context) opcode capacity ro)"
  unfolding fs_handle_stat_def fs_calls errno_response_def
  by (intro io_rules ensures_bind [OF open_parent_in_root])
     (auto simp: settled_defs stat_reply_def dest: read_path_request_valid)

lemma fs_handle_mkdir_or_delete_settled:
  "ensures (fs_handle_mkdir_or_delete api context opcode request capacity)
     (settled (root_fd context) opcode capacity (read_only context))"
  unfolding fs_handle_mkdir_or_delete_def fs_calls errno_response_def
  by (intro io_rules ensures_bind [OF open_parent_in_root])
     (auto simp: settled_defs dest: read_path_request_nonempty)

definition leaf_opened :: "squid_fs_context \<Rightarrow> u8 \<Rightarrow> nat \<Rightarrow> open_flag list \<Rightarrow>
    bytes option + int \<Rightarrow> fs_event list \<Rightarrow> bool" where
  "leaf_opened context opcode capacity flags r es \<longleftrightarrow>
     (case r of
        Inl response \<Rightarrow> response_ok opcode capacity response \<and> tidy {root_fd context} {} {#} {#} es
      | Inr fd \<Rightarrow> tidy {root_fd context} {} {#} {#fd#} es) \<and>
     (O_WRONLY \<notin> set flags \<and> O_CREAT \<notin> set flags \<and> O_TRUNC \<notin> set flags \<longrightarrow> unmodified es)"

lemma open_leaf_tidy:
  assumes "valid_path path" and "O_NOFOLLOW \<in> set flags"
  shows "ensures (open_leaf api context opcode capacity path flags)
    (leaf_opened context opcode capacity flags)"
  unfolding open_leaf_def fs_calls errno_response_def
  by (intro io_rules ensures_bind [OF open_parent_in_root])
     (use assms in \<open>auto simp: leaf_opened_def settled_defs\<close>)

lemma ensures_pread_bind:
  "(\<And>r. (\<And>x. r = Inr x \<Longrightarrow> length x \<le> n) \<Longrightarrow>
      ensures (f (answer r)) (\<lambda>b es. Q b (Pread fd n offset r # es))) \<Longrightarrow>
   ensures (State_Monad.bind (call_pread api fd n offset) f) Q"
  unfolding call_pread_def
  by (rule ensures_syscall_sat_bind [where P = "\<lambda>r. \<forall>x. r = Inr x \<longrightarrow> length x \<le> n"])
     (auto simp: map_sum_eq_Inr)

lemma read_chunk_size_le: "read_chunk_size information offset m capacity \<le> capacity - 11"
  by (simp add: read_chunk_size_def Let_def)

lemma read_file_settled:
  assumes opened: "leaf_opened context opcode capacity [O_RDONLY, O_CLOEXEC, O_NOFOLLOW] (Inr fd) es"
    and cap: "11 \<le> capacity"
  shows "ensures (read_file api fd opcode offset m capacity)
    (\<lambda>r es'. settled (root_fd context) opcode capacity ro r (es @ es'))"
  unfolding read_file_def errno_response_def fs_calls(1-7)
  by (intro io_rules ensures_pread_bind)
     (use opened cap le_trans [OF _ read_chunk_size_le] in
       \<open>auto simp: leaf_opened_def settled_defs dest: le_trans [OF _ read_chunk_size_le]\<close>)

lemma fs_handle_read_settled:
  "ensures (fs_handle_read api context opcode request capacity)
     (settled (root_fd context) opcode capacity ro)"
  unfolding fs_handle_read_def
  by (intro io_rules ensures_bind [OF open_leaf_tidy] read_file_settled)
     (auto simp: settled_defs leaf_opened_def dest: read_path_request_nonempty split: if_splits)

lemma parse_write_request_valid:
  "parse_write_request request = Some (offset, flags, path, data) \<Longrightarrow> valid_path path"
  by (auto simp: parse_write_request_def Let_def valid_path_def path_is_valid_def
      split: if_splits option.splits)

lemma write_file_settled:
  assumes opened: "tidy {root_fd context} {} {#} {#fd#} es"
  shows "ensures (write_file api fd opcode offset data capacity)
    (\<lambda>r es'. settled (root_fd context) opcode capacity False r (es @ es'))"
  unfolding write_file_def errno_response_def fs_calls
  by (intro io_rules)
     (use opened in \<open>auto simp: leaf_opened_def settled_defs\<close>)

lemma fs_handle_write_settled:
  "ensures (fs_handle_write api context opcode request capacity)
     (settled (root_fd context) opcode capacity (read_only context))"
proof -
  have w: "ensures (write_file api fd opcode offset data capacity)
      (\<lambda>r es'. settled (root_fd context) opcode capacity (read_only context) r (es @ es'))"
    if "\<not> read_only context" "tidy {root_fd context} {} {#} {#fd#} es" for fd offset data es
    by (rule ensures_mono [OF write_file_settled [OF that(2)]]) (use that in \<open>simp add: settled_def\<close>)
  show ?thesis
    unfolding fs_handle_write_def
    by (intro io_rules ensures_bind [OF open_leaf_tidy] w)
       (auto simp: settled_defs leaf_opened_def write_open_flags_def dest: parse_write_request_valid)
qed

lemma parse_rename_request_valid:
  "parse_rename_request request = Some (old_path, new_path) \<Longrightarrow>
     valid_path old_path \<and> valid_path new_path"
  by (auto simp: parse_rename_request_def Let_def valid_path_def path_is_valid_def
      split: if_splits option.splits)

lemma rename_between_settled:
  assumes "parent_opened {root} {} (Some (old_fd, old_leaf)) es1"
    and "parent_opened (foldl inside {root} es1) (foldl listed {} es1) (Some (new_fd, new_leaf)) es2"
  shows "ensures (rename_between api opcode capacity old_fd old_leaf new_fd new_leaf)
    (\<lambda>r es. settled root opcode capacity False r (es1 @ es2 @ es))"
  unfolding rename_between_def fs_calls errno_response_def
  by (intro io_rules) (use assms in \<open>auto simp: settled_defs\<close>)

lemma fs_handle_rename_settled:
  "ensures (fs_handle_rename api context opcode request capacity)
     (settled (root_fd context) opcode capacity (read_only context))"
proof -
  let ?root = "root_fd context"
  have two: "ensures (do {
          new \<leftarrow> open_parent_directory api context new_path;
          case new of
            None \<Rightarrow> do {
              response \<leftarrow> errno_response opcode capacity;
              _ \<leftarrow> fs_close api old_fd;
              State_Monad.return response }
          | Some (new_parent, new_leaf) \<Rightarrow>
              rename_between api opcode capacity old_fd old_leaf new_parent new_leaf })
      (\<lambda>r es'. settled ?root opcode capacity (read_only context) r (es @ es'))"
    if "\<not> read_only context" "valid_path new_path"
      and old: "parent_opened {?root} {} (Some (old_fd, old_leaf)) es" for new_path old_fd old_leaf es
  proof -
    have inroot: "?root \<in> foldl inside {?root} es"
      by (simp add: foldl_inside_mono)
    have ren: "ensures (rename_between api opcode capacity old_fd old_leaf new_fd new_leaf)
      (\<lambda>r es2. settled ?root opcode capacity (read_only context) r (es @ es1 @ es2))"
      if "parent_opened (foldl inside {?root} es) (foldl listed {} es) (Some (new_fd, new_leaf)) es1"
      for new_fd new_leaf es1
      by (rule ensures_mono [OF rename_between_settled [OF old that]])
         (use \<open>\<not> read_only context\<close> in \<open>simp add: settled_def\<close>)
    show ?thesis
      unfolding fs_calls errno_response_def
      by (rule ensures_bind [OF open_parent_directory_tidy [OF \<open>valid_path new_path\<close> inroot,
              where N = "foldl listed {} es"]], intro io_rules ren)
         (use old \<open>\<not> read_only context\<close> in \<open>auto simp: settled_defs\<close>)
  qed
  show ?thesis
    unfolding fs_handle_rename_def errno_response_def
    by (intro io_rules ensures_bind [OF open_parent_in_root] two [unfolded errno_response_def])
       (auto simp: settled_defs dest: parse_rename_request_valid)
qed

text \<open>Listing: the loop holds the directory and appends records that fit.\<close>

definition page_ok :: "nat \<Rightarrow> list_state \<Rightarrow> bool" where
  "page_ok capacity st \<longleftrightarrow> squid_fs_page_header_size + length (page_output st) \<le> capacity"

definition listing :: "int \<Rightarrow> int set \<Rightarrow> bytes set \<Rightarrow> u8 \<Rightarrow> nat \<Rightarrow>
    bytes option + list_state \<Rightarrow> fs_event list \<Rightarrow> bool" where
  "listing fd D N opcode capacity r es \<longleftrightarrow> unmodified es \<and>
     (case r of
        Inl response \<Rightarrow> response_ok opcode capacity response \<and> tidy D N {#fd#} {#} es
      | Inr st \<Rightarrow> page_ok capacity st \<and> tidy D N {#fd#} {#fd#} es)"

lemma length_list_record [simp]: "length (list_record name information) = 6 + length name"
  by (simp add: list_record_def)

lemma list_entries_listing:
  assumes "fd \<in> D" and "set names \<subseteq> N" and "page_ok capacity st"
  shows "ensures (list_entries api fd opcode capacity cursor names st)
    (listing fd D N opcode capacity)"
  using assms
proof (induction names arbitrary: st)
  case Nil
  then show ?case by (auto intro!: io_rules simp: listing_def tidy_def)
next
  case (Cons name names)
  have more: "ensures (list_entries api fd opcode capacity cursor names st')
      (\<lambda>r es. listing fd D N opcode capacity r (Fstatat fd name [AT_SYMLINK_NOFOLLOW] a # es))"
    if "page_ok capacity st'" "\<not> (name = [dot] \<or> name = [dot, dot])" for st' a
    by (rule ensures_mono [OF Cons.IH])
       (use Cons.prems that in \<open>auto simp: listing_def tidy_def split: sum.splits\<close>)
  show ?case
    unfolding list_entries.simps fs_calls errno_response_def
    by (intro io_rules Cons.IH more)
       (use Cons.prems in \<open>auto simp: listing_def page_ok_def settled_defs\<close>)
qed

lemma list_directory_settled:
  assumes "tidy {root} {} {#} {#fd#} es" and "unmodified es" and cap: "5 \<le> capacity"
  shows "ensures (list_directory api fd opcode capacity cursor)
    (\<lambda>r es'. settled root opcode capacity ro r (es @ es'))"
proof -
  let ?D = "foldl inside {root} es" and ?N = "foldl listed {} es"
  have fd: "fd \<in> ?D" using assms(1) by (simp add: tidy_def)
  have loop: "ensures (list_entries api fd opcode capacity cursor names list_start)
      (listing fd ?D (?N \<union> set names) opcode capacity)" for names
    by (rule list_entries_listing) (use fd cap in \<open>auto simp: page_ok_def list_start_def\<close>)
  show ?thesis
    unfolding list_directory_def fs_calls errno_response_def
    by (intro io_rules ensures_bind [OF loop])
       (use assms fd in \<open>auto simp: listing_def page_ok_def settled_defs list_reply_def
          split: option.splits\<close>)
qed

lemma fs_handle_list_settled:
  "ensures (fs_handle_list api context opcode request capacity)
     (settled (root_fd context) opcode capacity ro)"
proof -
  have names: "\<forall>name \<in> set (split_path [] path). safe_name name"
    if "(if length request < 4 then None else read_path_request request 3 True) = Some path" for path
    using that components_are_valid_split [of "[]" path]
    by (cases "path = []") (auto dest: read_path_request_valid simp: valid_path_def split: if_splits)
  show ?thesis
    unfolding fs_handle_list_def errno_response_def
    by (intro io_rules ensures_bind [OF open_directory_path_tidy [OF names, where D = "{root_fd context}"
           and N = "{}"]] list_directory_settled)
       (auto simp: settled_defs)
qed

lemma fs_handle_capabilities_ok: "response_ok opcode capacity (fs_handle_capabilities context opcode capacity)"
  by (auto simp: response_ok_def fs_handle_capabilities_def Let_def)

lemma handle_squid_fs_request_settled:
  "ensures (handle_squid_fs_request api context request capacity)
     (\<lambda>r es. settled (root_fd context) (request ! 0) capacity (read_only context) r es \<and>
        (r \<noteq> None \<longrightarrow> request \<noteq> []))"
  unfolding handle_squid_fs_request_def Let_def
  by (intro io_rules ensures_mono [OF fs_handle_stat_settled] ensures_mono [OF fs_handle_list_settled]
      ensures_mono [OF fs_handle_read_settled] ensures_mono [OF fs_handle_write_settled]
      ensures_mono [OF fs_handle_mkdir_or_delete_settled] ensures_mono [OF fs_handle_rename_settled])
     (auto simp: settled_def tidy_def fs_handle_capabilities_ok)

lemma handle_squid_fs_packet_settled:
  "ensures (handle_squid_fs_packet api state request capacity)
     (\<lambda>r es. settled (root_fd (fs_context state)) (request ! 0) capacity
        (read_only (fs_context state)) r es \<and> (r \<noteq> None \<longrightarrow> request \<noteq> []))"
  unfolding handle_squid_fs_packet_def
  by (intro io_rules handle_squid_fs_request_settled) (simp add: settled_def tidy_def)

interpretation fs: packet_service "\<lambda>request capacity r.
  \<exists>api state s. fst (run_state (handle_squid_fs_packet api state request capacity) s) = r"
proof unfold_locales
  fix request capacity reply
  assume "\<exists>api state s. fst (run_state (handle_squid_fs_packet api state request capacity) s) = Some reply"
  then obtain api state s s' where
    run: "run_state (handle_squid_fs_packet api state request capacity) s = (Some reply, s')"
    by (metis prod.collapse)
  obtain es where "settled (root_fd (fs_context state)) (request ! 0) capacity
      (read_only (fs_context state)) (Some reply) es" and "request \<noteq> []"
    by (rule ensuresE [OF handle_squid_fs_packet_settled run]) blast
  then show "request \<noteq> [] \<and> 2 \<le> length reply \<and> length reply \<le> capacity \<and>
      hd reply = hd request OR response_bit"
    by (simp add: settled_def response_ok_def response_bit_def hd_conv_nth)
qed

subsection \<open>Properties\<close>

text \<open>
  C2. Confinement. Whatever the request says and whatever the kernel answers, every system call
  of a request goes through the exported root: it uses only descriptors that were reached from
  the root by opening single components without following a symbolic link; every name it uses is a
  single component without separator or NUL, or an entry of the directory that is being listed,
  and never \<open>.\<close> or \<open>..\<close>; and a name whose information is read is never followed as a symbolic link.
\<close>

theorem fs_request_sandboxed:
  "ensures (handle_squid_fs_request api context request capacity)
     (\<lambda>_ es. sandboxed {root_fd context} {} es)"
  by (rule ensures_mono [OF handle_squid_fs_request_settled]) (simp add: settled_def tidy_def)

text \<open>
  C15. No descriptor leaks. On every path through a request, including every failure of every
  system call, the descriptors that are closed are exactly those that were opened.
\<close>

theorem fs_request_closes_what_it_opens:
  "ensures (handle_squid_fs_request api context request capacity)
     (\<lambda>_ es. opened_fds es = closed_fds es)"
  by (rule ensures_mono [OF handle_squid_fs_request_settled]) (simp add: settled_def tidy_def)

text \<open>
  C28. A read-only export stays unchanged: no request makes the service issue a system call that
  could modify the tree, and none opens a file for writing.
\<close>

theorem fs_read_only_unmodified:
  assumes "read_only context"
  shows "ensures (handle_squid_fs_request api context request capacity) (\<lambda>_ es. unmodified es)"
  by (rule ensures_mono [OF handle_squid_fs_request_settled]) (simp add: settled_def assms)

definition demo_fs_api :: fs_api where
  "demo_fs_api = \<lparr>sys_open = (\<lambda>_ _ _. Inr 3), sys_dup = (\<lambda>_ _. Inr 4),
     sys_openat = (\<lambda>_ _ _ _. Inr 5), sys_close = (\<lambda>_ _. Inr ()),
     sys_fstat = (\<lambda>_ _. Inr \<lparr>st_mode = 0x81A4, st_size = 5, st_mtime = 1000\<rparr>),
     sys_fstatat = (\<lambda>_ _ _ _. Inr \<lparr>st_mode = 0x81A4, st_size = 5, st_mtime = 1000\<rparr>),
     sys_fdopendir = (\<lambda>_ _. Inr ([ascii ''.'', ascii ''a.txt'', ascii ''b''], None)),
     sys_closedir = (\<lambda>_ _. Inr ()), sys_pread = (\<lambda>_ _ n _. Inr (take n (ascii ''hello''))),
     sys_pwrite = (\<lambda>_ _ d _. Inr (length d)), sys_mkdirat = (\<lambda>_ _ _ _. Inr ()),
     sys_unlinkat = (\<lambda>_ _ _ _. Inr ()), sys_renameat = (\<lambda>_ _ _ _ _. Inr ())\<rparr>"

theorem fs_read_only_unmodified_witness:
  "ensures (handle_squid_fs_request demo_fs_api \<lparr>root_fd = 3, read_only = True\<rparr>
      ([5, 3] @ ascii ''dir'') 255) (\<lambda>_ es. unmodified es)"
  by (rule fs_read_only_unmodified) simp

text \<open>
  The path grammar: \<open>path_is_valid\<close> accepts exactly the sequences of safe component names,
  separated by single slashes, of at most 240 bytes.
\<close>

fun join_path :: "bytes list \<Rightarrow> bytes" where
  "join_path [] = []"
| "join_path [name] = name"
| "join_path (name # names) = name @ slash # join_path names"

lemma components_join:
  "components_are_valid piece path \<Longrightarrow> slash \<notin> set piece \<Longrightarrow> 0 \<notin> set piece \<Longrightarrow>
     \<exists>names. names \<noteq> [] \<and> piece @ path = join_path names \<and> list_all safe_name names"
proof (induction piece path rule: components_are_valid.induct)
  case (1 component)
  then show ?case by (intro exI [of _ "[component]"]) (simp add: safe_name_def)
next
  case (2 component c input)
  show ?case
  proof (cases "c = slash")
    case True
    with 2 obtain names where n: "names \<noteq> []" "input = join_path names" "list_all safe_name names"
      by auto
    moreover have "safe_name component"
      using True 2 by (simp add: safe_name_def)
    ultimately show ?thesis
      using True by (intro exI [of _ "component # names"]) (cases names; simp)
  next
    case False
    with 2 show ?thesis by auto
  qed
qed

lemma join_components:
  assumes "names \<noteq> []" and "list_all safe_name names"
  shows "components_are_valid [] (join_path names)"
proof -
  have piece: "components_are_valid piece (name @ rest) = components_are_valid (piece @ name) rest"
    if "slash \<notin> set name" "0 \<notin> set name" for piece name rest
    using that by (induction name arbitrary: piece) auto
  show ?thesis
    using assms
    by (induction names rule: join_path.induct)
       (use piece [of _ "[]" "[]"] in \<open>auto simp: piece safe_name_def component_is_valid_def\<close>)
qed

lemma components_not_trailing: "\<not> components_are_valid piece (xs @ [slash])"
  by (induction piece xs rule: components_are_valid.induct) (auto simp: component_is_valid_def)

lemma components_ends:
  assumes "components_are_valid [] input"
  shows "input \<noteq> []" "hd input \<noteq> slash" "last input \<noteq> slash"
proof -
  show ne: "input \<noteq> []"
    using assms by (auto simp: component_is_valid_def)
  show "hd input \<noteq> slash"
    using assms by (cases input) (auto simp: component_is_valid_def)
  show "last input \<noteq> slash"
    using assms ne components_not_trailing [of "[]" "butlast input"] by (metis append_butlast_last_id)
qed

text \<open>
  C31. The path grammar. \<open>path_is_valid\<close> accepts exactly the non-empty sequences of safe
  component names separated by single slashes, up to 240 bytes, and copies them unchanged.
\<close>

theorem path_is_valid_iff:
  "path_is_valid input False = Some path \<longleftrightarrow>
     path = input \<and> length input \<le> SQUID_FS_PATH_MAX \<and>
     (\<exists>names. names \<noteq> [] \<and> list_all safe_name names \<and> input = join_path names)"
proof
  assume "path_is_valid input False = Some path"
  then have "path = input" "length input \<le> SQUID_FS_PATH_MAX" "components_are_valid [] input"
    by (auto simp: path_is_valid_def split: if_splits)
  then show "path = input \<and> length input \<le> SQUID_FS_PATH_MAX \<and>
      (\<exists>names. names \<noteq> [] \<and> list_all safe_name names \<and> input = join_path names)"
    using components_join [of "[]" input] by auto
next
  assume *: "path = input \<and> length input \<le> SQUID_FS_PATH_MAX \<and>
      (\<exists>names. names \<noteq> [] \<and> list_all safe_name names \<and> input = join_path names)"
  then have "components_are_valid [] input"
    using join_components by auto
  with * components_ends [of input] show "path_is_valid input False = Some path"
    by (simp add: path_is_valid_def)
qed

end
