(* ===== verification/Retro_Protocol.thy ===== *)
theory Retro_Protocol
  imports Packet_Service
begin

text \<open>
  The constants of the RetroVault protocol, \<open>include/squid_server/retrovault_protocol.h\<close>, which
  the service and its client share.
\<close>

definition RETRO_VAULT_PROTOCOL_VERSION :: u8 where "RETRO_VAULT_PROTOCOL_VERSION = 1"
definition RETRO_VAULT_OP_CAPABILITIES :: u8 where "RETRO_VAULT_OP_CAPABILITIES = 0x00"
definition RETRO_VAULT_OP_LIST :: u8 where "RETRO_VAULT_OP_LIST = 0x01"
definition RETRO_VAULT_OP_SEARCH :: u8 where "RETRO_VAULT_OP_SEARCH = 0x02"
definition RETRO_VAULT_OP_INFO :: u8 where "RETRO_VAULT_OP_INFO = 0x03"
definition RETRO_VAULT_OP_DOWNLOAD :: u8 where "RETRO_VAULT_OP_DOWNLOAD = 0x04"
definition RETRO_VAULT_RESPONSE_BIT :: u8 where "RETRO_VAULT_RESPONSE_BIT = 0x80"
definition RETRO_VAULT_STATUS_OK :: u8 where "RETRO_VAULT_STATUS_OK = 0x00"
definition RETRO_VAULT_STATUS_BAD_REQUEST :: u8 where "RETRO_VAULT_STATUS_BAD_REQUEST = 0x01"
definition RETRO_VAULT_STATUS_API_UNAVAILABLE :: u8 where "RETRO_VAULT_STATUS_API_UNAVAILABLE = 0x02"
definition RETRO_VAULT_STATUS_NOT_FOUND :: u8 where "RETRO_VAULT_STATUS_NOT_FOUND = 0x03"
definition RETRO_VAULT_STATUS_TOO_LARGE :: u8 where "RETRO_VAULT_STATUS_TOO_LARGE = 0x04"
definition RETRO_VAULT_STATUS_INTERNAL_ERROR :: u8 where "RETRO_VAULT_STATUS_INTERNAL_ERROR = 0x05"
definition RETRO_VAULT_CURSOR_END :: u16 where "RETRO_VAULT_CURSOR_END = 0xFFFF"
definition RETRO_VAULT_FEATURE_LIST :: u8 where "RETRO_VAULT_FEATURE_LIST = 0x01"
definition RETRO_VAULT_FEATURE_SEARCH :: u8 where "RETRO_VAULT_FEATURE_SEARCH = 0x02"
definition RETRO_VAULT_FEATURE_INFO :: u8 where "RETRO_VAULT_FEATURE_INFO = 0x04"
definition RETRO_VAULT_FEATURE_DOWNLOAD :: u8 where "RETRO_VAULT_FEATURE_DOWNLOAD = 0x08"
definition RETRO_VAULT_INFO_ID :: u8 where "RETRO_VAULT_INFO_ID = 0x01"
definition RETRO_VAULT_INFO_NAME :: u8 where "RETRO_VAULT_INFO_NAME = 0x02"
definition RETRO_VAULT_INFO_VENDOR :: u8 where "RETRO_VAULT_INFO_VENDOR = 0x03"
definition RETRO_VAULT_INFO_PLATFORM_ID :: u8 where "RETRO_VAULT_INFO_PLATFORM_ID = 0x04"
definition RETRO_VAULT_INFO_PLATFORM_NAME :: u8 where "RETRO_VAULT_INFO_PLATFORM_NAME = 0x05"
definition RETRO_VAULT_INFO_VERSION :: u8 where "RETRO_VAULT_INFO_VERSION = 0x06"
definition RETRO_VAULT_INFO_YEAR :: u8 where "RETRO_VAULT_INFO_YEAR = 0x07"
definition RETRO_VAULT_INFO_RATING :: u8 where "RETRO_VAULT_INFO_RATING = 0x08"
definition RETRO_VAULT_INFO_DESCRIPTION :: u8 where "RETRO_VAULT_INFO_DESCRIPTION = 0x09"
definition RETRO_VAULT_INFO_DOWNLOAD :: u8 where "RETRO_VAULT_INFO_DOWNLOAD = 0x0A"
definition RETRO_VAULT_RATING_UNKNOWN :: u8 where "RETRO_VAULT_RATING_UNKNOWN = 0"
definition RETRO_VAULT_RATING_CURIOUS :: u8 where "RETRO_VAULT_RATING_CURIOUS = 1"
definition RETRO_VAULT_RATING_AVERAGE :: u8 where "RETRO_VAULT_RATING_AVERAGE = 2"
definition RETRO_VAULT_RATING_GREAT :: u8 where "RETRO_VAULT_RATING_GREAT = 3"
definition RETRO_VAULT_RATING_LEGENDARY :: u8 where "RETRO_VAULT_RATING_LEGENDARY = 4"
definition RETRO_VAULT_SIZE_UNKNOWN :: u32 where "RETRO_VAULT_SIZE_UNKNOWN = 0xFFFFFFFF"

lemmas retro_constants [simp] = RETRO_VAULT_PROTOCOL_VERSION_def RETRO_VAULT_OP_CAPABILITIES_def
  RETRO_VAULT_OP_LIST_def RETRO_VAULT_OP_SEARCH_def RETRO_VAULT_OP_INFO_def
  RETRO_VAULT_OP_DOWNLOAD_def RETRO_VAULT_RESPONSE_BIT_def RETRO_VAULT_STATUS_OK_def
  RETRO_VAULT_STATUS_BAD_REQUEST_def RETRO_VAULT_STATUS_API_UNAVAILABLE_def
  RETRO_VAULT_STATUS_NOT_FOUND_def RETRO_VAULT_STATUS_TOO_LARGE_def
  RETRO_VAULT_STATUS_INTERNAL_ERROR_def RETRO_VAULT_CURSOR_END_def

subsection \<open>Pages of records\<close>

text \<open>
  \<open>LIST\<close> replies of the filesystem and \<open>LIST\<close>, \<open>SEARCH\<close> and \<open>INFO\<close> replies of RetroVault carry a
  page: a next cursor, a count and that many records. A client reads the records one at a time
  with a \<open>_next\<close> function, which is the interface \<open>record_page\<close>: \<open>step\<close> takes the page's count of
  records left and the bytes left, and reports an error, the end or one record.
\<close>

locale record_page =
  fixes encode :: "'e \<Rightarrow> bytes"
    and fits :: "'e \<Rightarrow> bool"
    and step :: "u8 \<Rightarrow> bytes \<Rightarrow> int + ('e \<times> u8 \<times> bytes) option"
  assumes at_end: "step 0 bs = Inr r \<longleftrightarrow> r = None \<and> bs = []"
    and at_record: "n \<noteq> 0 \<Longrightarrow> step n bs = Inr r \<longleftrightarrow>
      (\<exists>e rest. r = Some (e, n - 1, rest) \<and> fits e \<and> bs = encode e @ rest)"

text \<open>The loop a caller runs, until the end or an error; a page has at most 255 records.\<close>

fun page_records ::
  "nat \<Rightarrow> (u8 \<Rightarrow> bytes \<Rightarrow> int + ('e \<times> u8 \<times> bytes) option) \<Rightarrow> u8 \<Rightarrow> bytes \<Rightarrow> 'e list option" where
  "page_records 0 step n bs = None"
| "page_records (Suc fuel) step n bs =
     (case step n bs of
        Inl e \<Rightarrow> None
      | Inr None \<Rightarrow> Some []
      | Inr (Some (e, n', rest)) \<Rightarrow> map_option ((#) e) (page_records fuel step n' rest))"

context record_page
begin

text \<open>The loop accepts exactly the pages whose bytes are the announced number of records.\<close>

lemma page_records_iff:
  assumes "unat n < fuel"
  shows "page_records fuel step n bs = Some es \<longleftrightarrow>
    length es = unat n \<and> list_all fits es \<and> bs = concat (map encode es)"
  using assms
proof (induction fuel arbitrary: n bs es)
  case (Suc fuel)
  show ?case
  proof (cases "n = 0")
    case True
    have "step 0 bs = Inr None \<longleftrightarrow> bs = []" "step 0 bs \<noteq> Inr (Some x)" for x
      using at_end by auto
    with True show ?thesis
      by (auto split: sum.splits option.splits)
  next
    case False
    then have n: "unat (n - 1) = unat n - 1" "0 < unat n"
      by (simp_all add: unat_minus_one unat_gt_0)
    have "unat (n - 1) < fuel"
      using n Suc.prems by simp
    note IH = Suc.IH [OF this]
    have first: "step n bs = Inr (Some (e, n', rest)) \<longleftrightarrow>
        n' = n - 1 \<and> fits e \<and> bs = encode e @ rest" for e n' rest
      using at_record [OF False] by auto
    have none: "step n bs \<noteq> Inr None"
      using at_record [OF False] by auto
    show ?thesis
    proof
      assume "page_records (Suc fuel) step n bs = Some es"
      then obtain e n' rest es' where "step n bs = Inr (Some (e, n', rest))" "es = e # es'"
        "page_records fuel step n' rest = Some es'"
        using none by (auto split: sum.splits option.splits)
      then show "length es = unat n \<and> list_all fits es \<and> bs = concat (map encode es)"
        using IH n by (auto simp: first)
    next
      assume page: "length es = unat n \<and> list_all fits es \<and> bs = concat (map encode es)"
      then obtain e es' where es: "es = e # es'"
        using n by (cases es) auto
      have "step n bs = Inr (Some (e, n - 1, concat (map encode es')))"
        unfolding first using page es by simp
      moreover have "page_records fuel step (n - 1) (concat (map encode es')) = Some es'"
        using page es IH n by auto
      ultimately show "page_records (Suc fuel) step n bs = Some es"
        using es by simp
    qed
  qed
qed simp

end

end
