(* ===== verification/Retro_Json.thy ===== *)
theory Retro_Json
  imports Prelude
begin

text \<open>
  The JSON reader of the RetroVault service, \<open>lib/retrovault/retrovault_json.c\<close>. A pair of pointers
  \<open>cursor, end\<close> is the bytes between them, so a parser takes the bytes left and returns what it
  leaves; a value is its type and the bytes of its text. \<open>None\<close> is the return value \<open>-1\<close>. The
  nesting limit bounds the recursion of \<open>parse_value_internal\<close>, which is therefore a primitive
  recursion on the levels left; the two loops inside it take as fuel the number of bytes left, of
  which each round consumes some. Allocation succeeds: \<open>malloc\<close> failures are not modelled.
\<close>

definition retro_vault_json_max_depth :: nat where "retro_vault_json_max_depth = 32"

datatype retro_vault_json_type = retro_vault_json_invalid | retro_vault_json_object
  | retro_vault_json_array | retro_vault_json_string | retro_vault_json_number
  | retro_vault_json_boolean | retro_vault_json_null

record retro_vault_json_value =
  json_type :: retro_vault_json_type
  json_text :: bytes

record retro_vault_json_iterator =
  iterator_cursor :: bytes
  iterator_finished :: bool

subsection \<open>Characters\<close>

abbreviation quote :: u8 where "quote \<equiv> 0x22"
abbreviation backslash :: u8 where "backslash \<equiv> 0x5C"
abbreviation comma :: u8 where "comma \<equiv> 0x2C"
abbreviation colon :: u8 where "colon \<equiv> 0x3A"
abbreviation brace_open :: u8 where "brace_open \<equiv> 0x7B"
abbreviation brace_close :: u8 where "brace_close \<equiv> 0x7D"
abbreviation bracket_open :: u8 where "bracket_open \<equiv> 0x5B"
abbreviation bracket_close :: u8 where "bracket_close \<equiv> 0x5D"
abbreviation minus_sign :: u8 where "minus_sign \<equiv> 0x2D"
abbreviation letter_u :: u8 where "letter_u \<equiv> 0x75"

text \<open>\<open>strchr\<close> also finds the terminating NUL of the string it searches.\<close>

definition simple_escape :: "u8 \<Rightarrow> bool" where
  "simple_escape c \<longleftrightarrow> c \<in> {quote, backslash, 0x2F, 0x62, 0x66, 0x6E, 0x72, 0x74, 0}"

definition number_char :: "u8 \<Rightarrow> bool" where
  "number_char c \<longleftrightarrow> isdigit c \<or> c \<in> {0x2E, 0x65, 0x45, 0x2B, 0x2D, 0}"

definition skip_space :: "bytes \<Rightarrow> bytes" where
  "skip_space bs = dropWhile isspace bs"

subsection \<open>Parsing\<close>

function string_body :: "bytes \<Rightarrow> bytes option" where
  "string_body [] = None"
| "string_body (character # rest) =
     (if character = quote then Some rest
      else if character < 0x20 then None
      else if character = backslash then
        (case rest of
           [] \<Rightarrow> None
         | escaped # rest \<Rightarrow>
             if simple_escape escaped then string_body rest
             else if escaped = letter_u then
               (if length rest < 4 \<or> \<not> list_all isxdigit (take 4 rest) then None
                else string_body (drop 4 rest))
             else None)
      else string_body rest)"
  by pat_completeness auto
termination
  by (relation "measure length") auto

definition parse_string_end :: "bytes \<Rightarrow> bytes option" where
  "parse_string_end bs =
     (case bs of
        [] \<Rightarrow> None
      | character # rest \<Rightarrow> if character = quote then string_body rest else None)"

text \<open>A value of a type that starts at \<open>start\<close> and ends where \<open>after\<close> is left.\<close>

definition value_between :: "retro_vault_json_type \<Rightarrow> bytes \<Rightarrow> bytes \<Rightarrow> retro_vault_json_value \<times> bytes" where
  "value_between type start after =
     (\<lparr>json_type = type, json_text = take (length start - length after) start\<rparr>, after)"

text \<open>The loops over the members of an object and the elements of an array: what is left after them.\<close>

fun members_loop ::
  "(bytes \<Rightarrow> (retro_vault_json_value \<times> bytes) option) \<Rightarrow> nat \<Rightarrow> bytes \<Rightarrow> bytes option" where
  "members_loop child 0 current = None"
| "members_loop child (Suc fuel) current =
     (case parse_string_end (skip_space current) of
        None \<Rightarrow> None
      | Some key_end \<Rightarrow>
          (case skip_space key_end of
             [] \<Rightarrow> None
           | c # current \<Rightarrow>
               if c \<noteq> colon then None
               else (case child current of
                  None \<Rightarrow> None
                | Some (_, current) \<Rightarrow>
                    (case skip_space current of
                       [] \<Rightarrow> None
                     | c # current \<Rightarrow>
                         if c = comma then members_loop child fuel current
                         else if c = brace_close then Some current
                         else None))))"

fun elements_loop ::
  "(bytes \<Rightarrow> (retro_vault_json_value \<times> bytes) option) \<Rightarrow> nat \<Rightarrow> bytes \<Rightarrow> bytes option" where
  "elements_loop child 0 current = None"
| "elements_loop child (Suc fuel) current =
     (case child current of
        None \<Rightarrow> None
      | Some (_, current) \<Rightarrow>
          (case skip_space current of
             [] \<Rightarrow> None
           | c # current \<Rightarrow>
               if c = comma then elements_loop child fuel current
               else if c = bracket_close then Some current
               else None))"

definition parse_object ::
  "(bytes \<Rightarrow> (retro_vault_json_value \<times> bytes) option) \<Rightarrow> bytes \<Rightarrow> bytes option" where
  "parse_object child current =
     (case skip_space current of
        c # rest \<Rightarrow>
          if c = brace_close then Some rest
          else members_loop child (length current) (skip_space current)
      | [] \<Rightarrow> members_loop child (length current) (skip_space current))"

definition parse_array ::
  "(bytes \<Rightarrow> (retro_vault_json_value \<times> bytes) option) \<Rightarrow> bytes \<Rightarrow> bytes option" where
  "parse_array child current =
     (case skip_space current of
        c # rest \<Rightarrow>
          if c = bracket_close then Some rest
          else elements_loop child (length current) (skip_space current)
      | [] \<Rightarrow> elements_loop child (length current) (skip_space current))"

text \<open>The scalars after strings: literals and numbers.\<close>

definition parse_scalar :: "bytes \<Rightarrow> (retro_vault_json_value \<times> bytes) option" where
  "parse_scalar start =
     (if take 4 start = ascii ''true'' then
        Some (value_between retro_vault_json_boolean start (drop 4 start))
      else if take 5 start = ascii ''false'' then
        Some (value_between retro_vault_json_boolean start (drop 5 start))
      else if take 4 start = ascii ''null'' then
        Some (value_between retro_vault_json_null start (drop 4 start))
      else if hd start = minus_sign \<or> isdigit (hd start) then
        Some (value_between retro_vault_json_number start (dropWhile number_char (tl start)))
      else None)"

primrec parse_value_levels :: "nat \<Rightarrow> bytes \<Rightarrow> (retro_vault_json_value \<times> bytes) option" where
  "parse_value_levels 0 cursor = None"
| "parse_value_levels (Suc levels) cursor =
     (let start = skip_space cursor in
      case start of
        [] \<Rightarrow> None
      | c # current \<Rightarrow>
          if c = quote then
            map_option (value_between retro_vault_json_string start) (parse_string_end start)
          else if c = brace_open then
            map_option (value_between retro_vault_json_object start)
              (parse_object (parse_value_levels levels) current)
          else if c = bracket_open then
            map_option (value_between retro_vault_json_array start)
              (parse_array (parse_value_levels levels) current)
          else parse_scalar start)"

definition parse_value_internal :: "bytes \<Rightarrow> nat \<Rightarrow> (retro_vault_json_value \<times> bytes) option" where
  "parse_value_internal cursor depth =
     parse_value_levels (retro_vault_json_max_depth + 1 - depth) cursor"

definition parse_retro_vault_json :: "bytes \<Rightarrow> retro_vault_json_value option" where
  "parse_retro_vault_json data =
     (case parse_value_internal data 0 of
        None \<Rightarrow> None
      | Some (v, after) \<Rightarrow> if skip_space after = [] then Some v else None)"

subsection \<open>Decoding\<close>

definition hex_value :: "u8 \<Rightarrow> int" where
  "hex_value character =
     (if 0x30 \<le> character \<and> character \<le> 0x39 then uint character - 0x30
      else if 0x61 \<le> character \<and> character \<le> 0x66 then uint character - 0x61 + 10
      else if 0x41 \<le> character \<and> character \<le> 0x46 then uint character - 0x41 + 10
      else -1)"

fun hex_digits :: "u32 \<Rightarrow> bytes \<Rightarrow> u32 option" where
  "hex_digits v [] = Some v"
| "hex_digits v (c # cs) =
     (let digit = hex_value c in
      if digit < 0 then None else hex_digits (push_bit 4 v OR word_of_int digit) cs)"

text \<open>\<open>text\<close> has at least four bytes wherever it is called.\<close>

definition decode_hex_quad :: "bytes \<Rightarrow> u32 option" where
  "decode_hex_quad txt = hex_digits 0 (take 4 txt)"

definition encode_utf8 :: "u32 \<Rightarrow> bytes" where
  "encode_utf8 codepoint =
     (if codepoint \<le> 0x7F then [ucast codepoint]
      else if codepoint \<le> 0x7FF then
        [ucast (0xC0 OR drop_bit 6 codepoint), ucast (0x80 OR (codepoint AND 0x3F))]
      else if codepoint \<le> 0xFFFF then
        [ucast (0xE0 OR drop_bit 12 codepoint), ucast (0x80 OR (drop_bit 6 codepoint AND 0x3F)),
         ucast (0x80 OR (codepoint AND 0x3F))]
      else
        [ucast (0xF0 OR drop_bit 18 codepoint), ucast (0x80 OR (drop_bit 12 codepoint AND 0x3F)),
         ucast (0x80 OR (drop_bit 6 codepoint AND 0x3F)), ucast (0x80 OR (codepoint AND 0x3F))])"

text \<open>The character a single-letter escape stands for.\<close>

definition unescape :: "u8 \<Rightarrow> u8 option" where
  "unescape c =
     (if c = quote then Some quote else if c = backslash then Some backslash
      else if c = 0x2F then Some 0x2F else if c = 0x62 then Some 8 else if c = 0x66 then Some 12
      else if c = 0x6E then Some 10 else if c = 0x72 then Some 13 else if c = 0x74 then Some 9
      else None)"

text \<open>
  The code point of an escape \<open>\u\<close> whose digits start at \<open>cursor\<close>, and what is left: a high
  surrogate takes a low one with it, and a lone surrogate becomes the replacement character.
\<close>

definition decode_unicode :: "bytes \<Rightarrow> (u32 \<times> bytes) option" where
  "decode_unicode cursor =
     (if length cursor < 4 then None
      else case decode_hex_quad cursor of
        None \<Rightarrow> None
      | Some codepoint \<Rightarrow>
          (let cursor = drop 4 cursor;
               joined =
                 (if 0xD800 \<le> codepoint \<and> codepoint \<le> 0xDBFF \<and> length cursor \<ge> 6 \<and>
                     cursor ! 0 = backslash \<and> cursor ! 1 = letter_u then
                    (case decode_hex_quad (drop 2 cursor) of
                       Some low \<Rightarrow>
                         if 0xDC00 \<le> low \<and> low \<le> 0xDFFF
                         then Some (0x10000 + push_bit 10 (codepoint - 0xD800) + (low - 0xDC00))
                         else None
                     | None \<Rightarrow> None)
                  else None);
               (codepoint, cursor) =
                 (case joined of Some c \<Rightarrow> (c, drop 6 cursor) | None \<Rightarrow> (codepoint, cursor))
           in Some (if 0xD800 \<le> codepoint \<and> codepoint \<le> 0xDFFF then 0xFFFD else codepoint, cursor)))"

lemma decode_unicode_shorter:
  "decode_unicode cursor = Some (c, rest) \<Longrightarrow> length rest + 4 \<le> length cursor"
  by (auto simp: decode_unicode_def Let_def split: if_splits option.splits prod.splits)

function decode_body :: "bytes \<Rightarrow> bytes option" where
  "decode_body [] = Some []"
| "decode_body (character # cursor) =
     (if character \<noteq> backslash then map_option ((#) character) (decode_body cursor)
      else case cursor of
        [] \<Rightarrow> None
      | escaped # cursor \<Rightarrow>
          if escaped = letter_u then
            (case decode_unicode cursor of
               None \<Rightarrow> None
             | Some (codepoint, cursor) \<Rightarrow>
                 map_option ((@) (encode_utf8 codepoint)) (decode_body cursor))
          else (case unescape escaped of
              None \<Rightarrow> None
            | Some c \<Rightarrow> map_option ((#) c) (decode_body cursor)))"
  by pat_completeness auto
termination
  by (relation "measure length") (auto dest: decode_unicode_shorter)

text \<open>The bytes before the terminating NUL of the copy.\<close>

definition duplicate_retro_vault_json_string :: "retro_vault_json_value \<Rightarrow> bytes option" where
  "duplicate_retro_vault_json_string v =
     (if json_type v \<noteq> retro_vault_json_string \<or> length (json_text v) < 2 then None
      else decode_body (butlast (tl (json_text v))))"

text \<open>\<open>strcmp\<close> stops at a NUL, which an escape can put into the copy.\<close>

definition json_string_matches :: "retro_vault_json_value \<Rightarrow> bytes \<Rightarrow> bool" where
  "json_string_matches v txt =
     (case duplicate_retro_vault_json_string v of
        None \<Rightarrow> False
      | Some decoded \<Rightarrow> c_string decoded = txt)"

text \<open>
  \<open>strtoull\<close> in base 10, on a text that starts with a digit: all of it has to be digits, and the
  number has to fit; the buffer has 32 bytes.
\<close>

definition get_retro_vault_json_uint64 :: "retro_vault_json_value \<Rightarrow> 64 word option" where
  "get_retro_vault_json_uint64 v =
     (let txt = json_text v in
      if json_type v \<noteq> retro_vault_json_number \<or> txt = [] \<or> length txt \<ge> 32 \<or> hd txt = minus_sign
      then None
      else if list_all isdigit txt \<and> digits_value 0 txt < 2 ^ 64 then Some (word_of_int (digits_value 0 txt))
      else None)"

subsection \<open>Navigation\<close>

text \<open>\<open>Inl\<close> is \<open>-1\<close>, \<open>Inr None\<close> is 0 (no such member) and \<open>Inr (Some _)\<close> is 1.\<close>

fun find_member :: "nat \<Rightarrow> bytes \<Rightarrow> bytes \<Rightarrow> unit + retro_vault_json_value option" where
  "find_member 0 cursor name = Inl ()"
| "find_member (Suc fuel) cursor name =
     (let cursor = skip_space cursor in
      if cursor = [] then Inr None
      else case parse_value_internal cursor 0 of
        None \<Rightarrow> Inl ()
      | Some (key, after) \<Rightarrow>
          if json_type key \<noteq> retro_vault_json_string then Inl ()
          else (case skip_space after of
              [] \<Rightarrow> Inl ()
            | c # cursor \<Rightarrow>
                if c \<noteq> colon then Inl ()
                else (case parse_value_internal cursor 0 of
                    None \<Rightarrow> Inl ()
                  | Some (member, after) \<Rightarrow>
                      if json_string_matches key name then Inr (Some member)
                      else (case skip_space after of
                          [] \<Rightarrow> Inr None
                        | c # cursor \<Rightarrow>
                            if c = comma then find_member fuel cursor name else Inl ()))))"

definition get_retro_vault_json_member ::
  "retro_vault_json_value \<Rightarrow> bytes \<Rightarrow> unit + retro_vault_json_value option" where
  "get_retro_vault_json_member object name =
     (if json_type object \<noteq> retro_vault_json_object then Inl ()
      else find_member (length (json_text object)) (butlast (tl (json_text object))) name)"

definition init_retro_vault_json_array_iterator ::
  "retro_vault_json_value \<Rightarrow> retro_vault_json_iterator option" where
  "init_retro_vault_json_array_iterator array =
     (if json_type array \<noteq> retro_vault_json_array then None
      else Some \<lparr>iterator_cursor = butlast (tl (json_text array)), iterator_finished = False\<rparr>)"

definition next_retro_vault_json_array_value ::
  "retro_vault_json_iterator \<Rightarrow> (unit + retro_vault_json_value option) \<times> retro_vault_json_iterator" where
  "next_retro_vault_json_array_value iterator =
     (if iterator_finished iterator then (Inr None, iterator)
      else let cursor = skip_space (iterator_cursor iterator);
               iterator = iterator\<lparr>iterator_cursor := cursor\<rparr> in
        if cursor = [] then (Inr None, iterator\<lparr>iterator_finished := True\<rparr>)
        else (case parse_value_internal cursor 0 of
            None \<Rightarrow> (Inl (), iterator)
          | Some (v, after) \<Rightarrow>
              (case skip_space after of
                 [] \<Rightarrow> (Inr (Some v), iterator\<lparr>iterator_cursor := [], iterator_finished := True\<rparr>)
               | c # rest \<Rightarrow>
                   if c \<noteq> comma then (Inl (), iterator\<lparr>iterator_cursor := c # rest\<rparr>)
                   else (Inr (Some v), iterator\<lparr>iterator_cursor := rest\<rparr>))))"

end
