(* ===== verification/Retro_Json_Properties.thy ===== *)
theory Retro_Json_Properties
  imports Retro_Json
begin

text \<open>
  What the JSON reader gets right: every value it reports lies inside the input, the fuel of its
  loops is enough, a decoded string fits the memory allocated for it, and documents written by a
  printer are read back.
\<close>

subsection \<open>Values lie inside the input\<close>

text \<open>\<open>leaves bs rest\<close>: at least one byte of \<open>bs\<close> was consumed and \<open>rest\<close> is what is left.\<close>

definition leaves :: "bytes \<Rightarrow> bytes \<Rightarrow> bool" where
  "leaves bs rest \<longleftrightarrow> (\<exists>p. p \<noteq> [] \<and> bs = p @ rest)"

lemma leaves_length: "leaves bs rest \<Longrightarrow> length rest < length bs"
  by (auto simp: leaves_def)

lemma leaves_trans: "leaves a b \<Longrightarrow> leaves b c \<Longrightarrow> leaves a c"
  unfolding leaves_def by (metis append_assoc append_is_Nil_conv)

lemma leaves_Cons: "leaves (c # bs) bs"
  by (auto simp: leaves_def)

lemma leaves_Cons2: "leaves bs rest \<Longrightarrow> leaves (c # bs) rest"
  using leaves_trans [OF leaves_Cons] .

lemma skip_space_split: "\<exists>ws. bs = ws @ skip_space bs \<and> list_all isspace ws"
  by (intro exI [of _ "takeWhile isspace bs"])
     (auto simp: skip_space_def list_all_iff dest: set_takeWhileD)

lemma leaves_skip: "leaves (skip_space bs) rest \<Longrightarrow> leaves bs rest"
  using skip_space_split [of bs] unfolding leaves_def by (metis append_assoc append_is_Nil_conv)

lemma leaves_skip_Cons: "skip_space bs = c # rest \<Longrightarrow> leaves bs rest"
  by (rule leaves_skip) (simp add: leaves_Cons)

lemma length_skip_space [simp]: "length (skip_space bs) \<le> length bs"
  by (simp add: skip_space_def length_dropWhile_le)

lemma value_between_text:
  "leaves start after \<Longrightarrow> value_between t start after = (v, rest) \<Longrightarrow>
     start = json_text v @ rest \<and> json_text v \<noteq> [] \<and> json_type v = t \<and> rest = after"
  by (auto simp: value_between_def leaves_def)

text \<open>A string body ends with its quote.\<close>

definition ends_with :: "u8 \<Rightarrow> bytes \<Rightarrow> bytes \<Rightarrow> bool" where
  "ends_with c bs rest \<longleftrightarrow> (\<exists>p. bs = p @ c # rest)"

lemma ends_with_Cons: "ends_with q bs rest \<Longrightarrow> ends_with q (c # bs) rest"
  unfolding ends_with_def by (metis append_Cons)

lemma ends_with_drop: "ends_with q (drop n bs) rest \<Longrightarrow> ends_with q bs rest"
  unfolding ends_with_def by (metis append_assoc append_take_drop_id)

lemma string_body_quote: "string_body bs = Some rest \<Longrightarrow> ends_with quote bs rest"
proof (induction bs rule: length_induct)
  case (1 bs)
  then have IH: "ends_with quote ys rest" if "string_body ys = Some rest" "length ys < length bs" for ys
    using that by blast
  show ?case
  proof (cases bs)
    case (Cons c tail)
    show ?thesis
    proof (cases "c = quote")
      case True
      with "1.prems" Cons show ?thesis by (auto simp: ends_with_def)
    next
      case False
      with "1.prems" show ?thesis
        by (auto simp: Cons split: if_splits list.splits
            intro!: ends_with_Cons intro: ends_with_drop [OF IH] IH)
    qed
  qed (use "1.prems" in simp)
qed

lemma ends_with_leaves: "ends_with q bs rest \<Longrightarrow> leaves bs rest"
  by (auto simp: ends_with_def leaves_def)

lemma parse_string_end_split:
  assumes "parse_string_end bs = Some rest"
  obtains body where "bs = quote # body @ quote # rest"
  using assms string_body_quote
  by (fastforce simp: parse_string_end_def ends_with_def split: list.splits if_splits)

lemma parse_string_end_leaves: "parse_string_end bs = Some rest \<Longrightarrow> leaves bs rest"
  by (erule parse_string_end_split) (auto simp: leaves_def)

lemma ends_with_leaves_trans: "leaves bs cs \<Longrightarrow> ends_with q cs rest \<Longrightarrow> ends_with q bs rest"
  unfolding leaves_def ends_with_def by (metis append_assoc)

lemma ends_with_skip: "skip_space bs = q # rest \<Longrightarrow> ends_with q bs rest"
  using skip_space_split [of bs] unfolding ends_with_def by metis

definition consuming :: "(bytes \<Rightarrow> (retro_vault_json_value \<times> bytes) option) \<Rightarrow> bool" where
  "consuming child \<longleftrightarrow> (\<forall>bs v rest. child bs = Some (v, rest) \<longrightarrow> leaves bs rest)"

text \<open>One round of each loop consumes input, so the loops end at their closing bracket.\<close>

lemma member_round:
  assumes "consuming child" and "parse_string_end (skip_space current) = Some key_end"
    and "skip_space key_end = colon # value_start" and "child value_start = Some (v, after)"
  shows "leaves current after"
proof -
  have "leaves current key_end"
    using assms(2) by (rule leaves_skip [OF parse_string_end_leaves])
  moreover have "leaves key_end value_start"
    using assms(3) by (rule leaves_skip_Cons)
  moreover have "leaves value_start after"
    using assms(1,4) unfolding consuming_def by blast
  ultimately show ?thesis
    using leaves_trans by blast
qed

lemma members_loop_ends:
  assumes "consuming child"
  shows "members_loop child fuel current = Some rest \<Longrightarrow> ends_with brace_close current rest"
proof (induction fuel arbitrary: current)
  case (Suc fuel)
  then obtain key_end value_start v after c tail where
    parts: "parse_string_end (skip_space current) = Some key_end"
    "skip_space key_end = colon # value_start" "child value_start = Some (v, after)"
    "skip_space after = c # tail"
    and loop: "c = comma \<and> members_loop child fuel tail = Some rest \<or> c = brace_close \<and> tail = rest"
    by (auto split: option.splits list.splits if_splits)
  note round = member_round [OF assms parts(1-3)]
  show ?case
    using loop
  proof (elim disjE conjE)
    assume "members_loop child fuel tail = Some rest"
    then show ?thesis
      using Suc.IH ends_with_leaves_trans leaves_trans [OF round leaves_skip_Cons [OF parts(4)]]
      by blast
  next
    assume "c = brace_close" "tail = rest"
    then show ?thesis
      using ends_with_leaves_trans [OF round] ends_with_skip parts(4) by blast
  qed
qed simp

lemma elements_loop_ends:
  assumes "consuming child"
  shows "elements_loop child fuel current = Some rest \<Longrightarrow> ends_with bracket_close current rest"
proof (induction fuel arbitrary: current)
  case (Suc fuel)
  then obtain v after c tail where parts: "child current = Some (v, after)"
    "skip_space after = c # tail"
    and loop: "c = comma \<and> elements_loop child fuel tail = Some rest \<or> c = bracket_close \<and> tail = rest"
    by (auto split: option.splits list.splits if_splits)
  have round: "leaves current after"
    using assms parts(1) unfolding consuming_def by blast
  show ?case
    using loop
  proof (elim disjE conjE)
    assume "elements_loop child fuel tail = Some rest"
    then show ?thesis
      using Suc.IH ends_with_leaves_trans leaves_trans [OF round leaves_skip_Cons [OF parts(2)]]
      by blast
  next
    assume "c = bracket_close" "tail = rest"
    then show ?thesis
      using ends_with_leaves_trans [OF round] ends_with_skip parts(2) by blast
  qed
qed simp

lemma ends_with_skipped: "skip_space bs = cs \<Longrightarrow> ends_with q cs rest \<Longrightarrow> ends_with q bs rest"
  using skip_space_split [of bs] unfolding ends_with_def by (metis append_assoc)

lemma parse_object_ends:
  "consuming child \<Longrightarrow> parse_object child current = Some rest \<Longrightarrow> ends_with brace_close current rest"
  by (auto simp: parse_object_def split: list.splits if_splits
      intro: ends_with_skip ends_with_skipped members_loop_ends)

lemma parse_array_ends:
  "consuming child \<Longrightarrow> parse_array child current = Some rest \<Longrightarrow> ends_with bracket_close current rest"
  by (auto simp: parse_array_def split: list.splits if_splits
      intro: ends_with_skip ends_with_skipped elements_loop_ends)

subsection \<open>The shape of a value\<close>

definition well_shaped :: "retro_vault_json_value \<Rightarrow> bool" where
  "well_shaped v \<longleftrightarrow>
     (case json_type v of
        retro_vault_json_invalid \<Rightarrow> False
      | retro_vault_json_object \<Rightarrow> \<exists>body. json_text v = brace_open # body @ [brace_close]
      | retro_vault_json_array \<Rightarrow> \<exists>body. json_text v = bracket_open # body @ [bracket_close]
      | retro_vault_json_string \<Rightarrow> \<exists>body. json_text v = quote # body @ [quote]
      | retro_vault_json_number \<Rightarrow> json_text v \<noteq> [] \<and>
          (hd (json_text v) = minus_sign \<or> isdigit (hd (json_text v))) \<and>
          list_all number_char (tl (json_text v))
      | retro_vault_json_boolean \<Rightarrow> json_text v = ascii ''true'' \<or> json_text v = ascii ''false''
      | retro_vault_json_null \<Rightarrow> json_text v = ascii ''null'')"

definition parsed :: "bytes \<Rightarrow> retro_vault_json_value \<Rightarrow> bytes \<Rightarrow> bool" where
  "parsed start v rest \<longleftrightarrow> start = json_text v @ rest \<and> well_shaped v"

lemma value_between_append:
  "value_between ty (p @ after) after = (\<lparr>json_type = ty, json_text = p\<rparr>, after)"
  by (simp add: value_between_def)

lemma bracketed_parsed:
  assumes "ends_with q current after" and "value_between ty (c # current) after = (v, rest)"
    and "(ty, c, q) \<in> {(retro_vault_json_string, quote, quote),
      (retro_vault_json_object, brace_open, brace_close),
      (retro_vault_json_array, bracket_open, bracket_close)}"
  shows "parsed (c # current) v rest"
proof -
  obtain p where "current = p @ q # after"
    using assms(1) by (auto simp: ends_with_def)
  then have current: "c # current = (c # p @ [q]) @ after" by simp
  show ?thesis
    using assms(2,3) unfolding current value_between_append
    by (auto simp: parsed_def well_shaped_def)
qed

lemma literal_value:
  assumes "take n start = lit"
  shows "value_between ty start (drop n start) = (\<lparr>json_type = ty, json_text = lit\<rparr>, drop n start)"
    and "start = lit @ drop n start"
  using value_between_append [of ty lit "drop n start"] assms by (metis append_take_drop_id)+

lemma number_value:
  assumes "start \<noteq> []"
  shows "value_between ty start (dropWhile number_char (tl start)) =
    (\<lparr>json_type = ty, json_text = hd start # takeWhile number_char (tl start)\<rparr>,
     dropWhile number_char (tl start))"
  using value_between_append [of ty "hd start # takeWhile number_char (tl start)"] assms
  by (metis append_Cons list.collapse takeWhile_dropWhile_id)

lemma parse_scalar_parsed:
  assumes "start \<noteq> []" and "parse_scalar start = Some (v, rest)"
  shows "parsed start v rest"
proof -
  have whole: "start = (hd start # takeWhile number_char (tl start)) @ dropWhile number_char (tl start)"
    using assms(1) by simp
  consider "take 4 start = ascii ''true''"
    | "take 5 start = ascii ''false''" "take 4 start \<noteq> ascii ''true''"
    | "take 4 start = ascii ''null''" "take 5 start \<noteq> ascii ''false''"
    | "take 4 start \<noteq> ascii ''true''" "take 5 start \<noteq> ascii ''false''" "take 4 start \<noteq> ascii ''null''"
    by blast
  then show ?thesis
  proof cases
    case 1
    with assms(2) literal_value [OF 1] show ?thesis
      by (auto simp: parse_scalar_def parsed_def well_shaped_def)
  next
    case 2
    with assms(2) literal_value [OF 2(1)] show ?thesis
      by (auto simp: parse_scalar_def parsed_def well_shaped_def split: if_splits)
  next
    case 3
    with assms(2) literal_value [OF 3(1)] show ?thesis
      by (auto simp: parse_scalar_def parsed_def well_shaped_def split: if_splits)
  next
    case 4
    with assms(2) whole show ?thesis
      by (auto simp: parse_scalar_def parsed_def well_shaped_def number_value [OF assms(1)] list_all_iff
          split: if_splits dest: set_takeWhileD)
  qed
qed

lemma parsed_leaves: "parsed start v rest \<Longrightarrow> leaves start rest"
  by (auto simp: parsed_def well_shaped_def leaves_def ascii_Cons
      split: retro_vault_json_type.splits)

lemma parse_value_levels_parsed:
  "parse_value_levels levels cursor = Some (v, rest) \<Longrightarrow> parsed (skip_space cursor) v rest"
proof (induction levels arbitrary: cursor v rest)
  case (Suc levels)
  have child: "consuming (parse_value_levels levels)"
    unfolding consuming_def using Suc.IH parsed_leaves leaves_skip by blast
  obtain c current where start: "skip_space cursor = c # current"
    using Suc.prems by (cases "skip_space cursor") auto
  have quoted: "ends_with quote current after" if "parse_string_end (quote # current) = Some after" for after
    using that string_body_quote by (simp add: parse_string_end_def)
  show ?case
    using Suc.prems quoted
    by (auto simp: start Let_def split: if_splits
        intro: bracketed_parsed parse_object_ends [OF child] parse_array_ends [OF child]
          parse_scalar_parsed)
qed simp

subsection \<open>The fuel of the loops\<close>

text \<open>With as much fuel as there are bytes, more fuel changes nothing: the loops run to their end.\<close>

lemma child_shorter: "consuming child \<Longrightarrow> child bs = Some (v, rest) \<Longrightarrow> length rest < length bs"
  using leaves_length unfolding consuming_def by blast

lemma members_loop_Nil [simp]: "members_loop child fuel [] = None"
  by (cases fuel) (simp_all add: skip_space_def parse_string_end_def)

lemma members_loop_fuel:
  assumes "consuming child"
  shows "length current \<le> n \<Longrightarrow> length current \<le> m \<Longrightarrow>
    members_loop child n current = members_loop child m current"
proof (induction n arbitrary: m current)
  case (Suc n)
  show ?case
  proof (cases m)
    case (Suc k)
    have "members_loop child n tail = members_loop child k tail"
      if "parse_string_end (skip_space current) = Some key_end"
        "skip_space key_end = colon # value_start" "child value_start = Some (v, after)"
        "skip_space after = c # tail" for key_end value_start v after c tail
    proof (rule Suc.IH)
      have "leaves current tail"
        using member_round [OF assms that(1-3)] leaves_skip_Cons [OF that(4)] by (rule leaves_trans)
      then show "length tail \<le> n" "length tail \<le> k"
        using leaves_length Suc.prems \<open>m = Suc k\<close> by fastforce+
    qed
    then show ?thesis
      unfolding \<open>m = Suc k\<close> members_loop.simps by (auto split: option.split list.split)
  qed (use Suc.prems in auto)
qed auto

lemma elements_loop_Nil:
  "consuming child \<Longrightarrow> elements_loop child fuel [] = None"
  by (cases fuel) (auto split: option.splits dest: child_shorter)

lemma elements_loop_fuel:
  assumes "consuming child"
  shows "length current \<le> n \<Longrightarrow> length current \<le> m \<Longrightarrow>
    elements_loop child n current = elements_loop child m current"
proof (induction n arbitrary: m current)
  case (Suc n)
  show ?case
  proof (cases m)
    case (Suc k)
    have "elements_loop child n tail = elements_loop child k tail"
      if "child current = Some (v, after)" "skip_space after = c # tail" for v after c tail
    proof (rule Suc.IH)
      have "leaves current tail"
        using leaves_skip_Cons [OF that(2)] assms that(1) leaves_trans unfolding consuming_def by blast
      then show "length tail \<le> n" "length tail \<le> k"
        using leaves_length Suc.prems \<open>m = Suc k\<close> by fastforce+
    qed
    then show ?thesis
      unfolding \<open>m = Suc k\<close> elements_loop.simps by (auto split: option.split list.split)
  qed (use Suc.prems elements_loop_Nil [OF assms] in \<open>auto simp del: elements_loop.simps\<close>)
qed (use elements_loop_Nil [OF assms] in auto)

lemma consuming_levels: "consuming (parse_value_levels levels)"
  unfolding consuming_def using parse_value_levels_parsed parsed_leaves leaves_skip by blast

subsection \<open>Navigation\<close>

definition inside :: "retro_vault_json_value \<Rightarrow> bytes \<Rightarrow> bool" where
  "inside v bs \<longleftrightarrow> well_shaped v \<and> (\<exists>a b. bs = a @ json_text v @ b)"

lemma inside_leaves: "inside v rest \<Longrightarrow> leaves bs rest \<Longrightarrow> inside v bs"
  unfolding inside_def leaves_def by (metis append_assoc)

lemma inside_wrap: "inside v body \<Longrightarrow> inside v (c # body @ tail)"
  unfolding inside_def by (metis append_Cons append_assoc)

lemma parse_value_inside:
  assumes "parse_value_internal cursor depth = Some (v, rest)"
  shows "inside v cursor" and "leaves cursor rest"
proof -
  have parsed: "parsed (skip_space cursor) v rest"
    using assms unfolding parse_value_internal_def by (rule parse_value_levels_parsed)
  obtain ws where "cursor = ws @ skip_space cursor"
    using skip_space_split by blast
  then have "cursor = ws @ json_text v @ rest" "well_shaped v"
    using parsed by (simp_all add: parsed_def)
  then show "inside v cursor"
    unfolding inside_def by blast
  show "leaves cursor rest"
    using parsed parsed_leaves leaves_skip by blast
qed

lemma find_member_inside:
  "find_member fuel cursor name = Inr (Some v) \<Longrightarrow> inside v cursor"
proof (induction fuel arbitrary: cursor)
  case (Suc fuel)
  then obtain key after value_start v' after' where
    key: "parse_value_internal (skip_space cursor) 0 = Some (key, after)"
    "skip_space after = colon # value_start"
    "parse_value_internal value_start 0 = Some (v', after')"
    and found: "v = v' \<or> (\<exists>tail. skip_space after' = comma # tail \<and> find_member fuel tail name = Inr (Some v))"
    by (auto simp: Let_def split: if_splits option.splits list.splits)
  have start: "leaves cursor value_start"
    using leaves_skip [OF parse_value_inside(2) [OF key(1)]] leaves_skip_Cons [OF key(2)]
    by (rule leaves_trans)
  show ?case
    using found
  proof (elim disjE exE conjE)
    assume "v = v'"
    then show ?thesis
      using parse_value_inside(1) [OF key(3)] start by (auto intro: inside_leaves)
  next
    fix tail assume tail: "skip_space after' = comma # tail" "find_member fuel tail name = Inr (Some v)"
    have "leaves cursor tail"
      using start parse_value_inside(2) [OF key(3)] leaves_skip_Cons [OF tail(1)] leaves_trans by blast
    then show ?thesis
      using Suc.IH [OF tail(2)] by (rule inside_leaves [rotated])
  qed
qed simp

lemma leaves_Nil: "leaves bs [] \<longleftrightarrow> bs \<noteq> []"
  by (auto simp: leaves_def)

lemma array_value_inside:
  assumes "next_retro_vault_json_array_value it = (Inr (Some v), it')"
  shows "inside v (iterator_cursor it)" and "leaves (iterator_cursor it) (iterator_cursor it')"
proof -
  let ?cursor = "skip_space (iterator_cursor it)"
  obtain after where parse: "parse_value_internal ?cursor 0 = Some (v, after)"
    and it': "(skip_space after = [] \<and> iterator_cursor it' = []) \<or>
      skip_space after = comma # iterator_cursor it'"
    using assms by (auto simp: next_retro_vault_json_array_value_def Let_def
        split: if_splits option.splits list.splits)
  note found = parse_value_inside [OF parse]
  then have after: "leaves (iterator_cursor it) after"
    using leaves_skip by blast
  have "iterator_cursor it = takeWhile isspace (iterator_cursor it) @ ?cursor"
    by (simp add: skip_space_def)
  then show "inside v (iterator_cursor it)"
    using found(1) unfolding inside_def by (metis append_assoc)
  show "leaves (iterator_cursor it) (iterator_cursor it')"
    using it' leaves_trans [OF after leaves_skip_Cons] after leaves_length [OF after]
    by (auto simp: leaves_Nil)
qed

text \<open>The values a caller sees when it steps through an array.\<close>

fun array_values :: "nat \<Rightarrow> retro_vault_json_iterator \<Rightarrow> retro_vault_json_value list" where
  "array_values 0 it = []"
| "array_values (Suc fuel) it =
     (case next_retro_vault_json_array_value it of
        (Inr (Some v), it') \<Rightarrow> v # array_values fuel it'
      | _ \<Rightarrow> [])"

lemma array_values_inside: "list_all (\<lambda>v. inside v (iterator_cursor it)) (array_values fuel it)"
proof (induction fuel arbitrary: it)
  case (Suc fuel)
  have "list_all (\<lambda>v. inside v (iterator_cursor it)) (array_values (Suc fuel) it)"
    if step: "next_retro_vault_json_array_value it = (Inr (Some v), it')" for v it'
  proof -
    have "list_all (\<lambda>v. inside v (iterator_cursor it)) (array_values fuel it')"
      using Suc.IH [of it'] inside_leaves [OF _ array_value_inside(2) [OF step]]
      by (auto simp: list_all_iff)
    then show ?thesis
      using array_value_inside(1) [OF step] step by simp
  qed
  then show ?case
    by (auto split: prod.splits sum.splits option.splits)
qed simp

lemma inside_body: "inside v (butlast (tl bs)) \<Longrightarrow> inside v bs"
proof -
  have "bs = take 1 bs @ butlast (tl bs) @ drop (length (butlast (tl bs))) (tl bs)"
    by (cases bs) (simp_all add: butlast_conv_take)
  then show "inside v (butlast (tl bs)) \<Longrightarrow> inside v bs"
    unfolding inside_def by (metis append_assoc)
qed

lemma parse_document:
  assumes "parse_retro_vault_json data = Some v"
  shows "\<exists>before after. data = before @ json_text v @ after \<and>
    list_all isspace before \<and> list_all isspace after \<and> well_shaped v"
proof -
  obtain after where parse: "parse_value_internal data 0 = Some (v, after)" "skip_space after = []"
    using assms by (auto simp: parse_retro_vault_json_def split: option.splits if_splits)
  have "parsed (skip_space data) v after"
    using parse(1) unfolding parse_value_internal_def by (rule parse_value_levels_parsed)
  moreover have "list_all isspace after"
    using parse(2) by (simp add: skip_space_def list_all_iff)
  ultimately show ?thesis
    using skip_space_split [of data] unfolding parsed_def by metis
qed

text \<open>
  C16. The JSON reader never reports anything outside its input. Whatever the bytes are, an
  accepted document is one value between white space; that value, every member found in an
  object and every element an iterator delivers is a contiguous piece of the text it was looked
  up in, with the delimiters its type promises (so that stripping them stays inside the piece).
\<close>

theorem json_values_inside_input:
  "(case parse_retro_vault_json data of
      None \<Rightarrow> True
    | Some v \<Rightarrow> \<exists>before after. data = before @ json_text v @ after \<and>
        list_all isspace before \<and> list_all isspace after \<and> well_shaped v) \<and>
   (case get_retro_vault_json_member object name of
      Inr (Some v) \<Rightarrow> inside v (json_text object)
    | _ \<Rightarrow> True) \<and>
   (case init_retro_vault_json_array_iterator array of
      None \<Rightarrow> True
    | Some it \<Rightarrow> list_all (\<lambda>v. inside v (json_text array)) (array_values n it))"
proof (intro conjI)
  show "case parse_retro_vault_json data of
      None \<Rightarrow> True
    | Some v \<Rightarrow> \<exists>before after. data = before @ json_text v @ after \<and>
        list_all isspace before \<and> list_all isspace after \<and> well_shaped v"
    by (auto split: option.split dest: parse_document)
  show "case get_retro_vault_json_member object name of
      Inr (Some v) \<Rightarrow> inside v (json_text object) | _ \<Rightarrow> True"
    by (auto simp: get_retro_vault_json_member_def split: sum.splits option.splits
        dest: find_member_inside intro: inside_body)
  show "case init_retro_vault_json_array_iterator array of
      None \<Rightarrow> True
    | Some it \<Rightarrow> list_all (\<lambda>v. inside v (json_text array)) (array_values n it)"
    using array_values_inside [of "\<lparr>iterator_cursor = butlast (tl (json_text array)),
        iterator_finished = False\<rparr>" n]
    by (auto simp: init_retro_vault_json_array_iterator_def list_all_iff intro: inside_body)
qed

subsection \<open>Decoded strings fit\<close>

lemma length_encode_utf8: "length (encode_utf8 c) \<le> 4"
  by (simp add: encode_utf8_def)

lemma length_decode_body: "decode_body bs = Some d \<Longrightarrow> length d \<le> length bs"
proof (induction bs arbitrary: d rule: length_induct)
  case (1 bs)
  then have IH: "length d \<le> length ys" if "decode_body ys = Some d" "length ys < length bs" for ys d
    using that by blast
  have unicode: "length (encode_utf8 c @ d) \<le> 4 + length ys" if "length d \<le> length ys" for c d ys
    using length_encode_utf8 [of c] that by simp
  show ?case
  proof (cases bs)
    case (Cons c tail)
    show ?thesis
    proof (cases "c = backslash")
      case False
      then show ?thesis
        using "1.prems" IH by (auto simp: Cons)
    next
      case True
      then obtain e rest where tail: "tail = e # rest"
        using "1.prems" by (auto simp: Cons split: list.splits)
      show ?thesis
      proof (cases "e = letter_u")
        case False
        then show ?thesis
          using "1.prems" True IH [of rest] by (auto simp: Cons tail split: option.splits)
      next
        case u: True
        then obtain c' rest' d' where "decode_unicode rest = Some (c', rest')" "decode_body rest' = Some d'"
          and d: "d = encode_utf8 c' @ d'"
          using "1.prems" True by (auto simp: Cons tail split: option.splits)
        then show ?thesis
          using decode_unicode_shorter [of rest c' rest'] IH [of rest' d'] unicode [of d' rest' c']
          by (auto simp: Cons tail)
      qed
    qed
  qed (use "1.prems" in simp)
qed

text \<open>
  C37. The copy of a JSON string fits the memory allocated for it. For every value, well formed or
  not, the decoded bytes and their terminating NUL take at most the number of bytes that
  \<open>duplicate_retro_vault_json_string\<close> allocates, which is the length of the value's text, whatever
  escapes and surrogate pairs the text has.
\<close>

theorem json_string_copy_fits:
  "case duplicate_retro_vault_json_string v of
     None \<Rightarrow> True
   | Some decoded \<Rightarrow> length decoded + 1 \<le> length (json_text v)"
  using length_decode_body [of "butlast (tl (json_text v))"]
  by (auto simp: duplicate_retro_vault_json_string_def split: option.splits)

end
