(* ===== verification/Retro_Catalog.thy ===== *)
theory Retro_Catalog
  imports Retro_Protocol Retro_Json_Properties Effects
begin

text \<open>
  The package catalogue of the RetroVault service: the growing buffer and the reading of the
  catalogue in \<open>lib/retrovault/retrovault_core.c\<close>, and the HTTP client of
  \<open>retrovault_curl.c\<close>. libcurl is a parameter: a transfer is the list of blocks it hands to the
  write callback, how it ended and the HTTP status. Texts are C strings, the bytes before the
  NUL; allocation succeeds.
\<close>

definition retro_vault_catalog_limit :: nat where "retro_vault_catalog_limit = 4 * 1024 * 1024"
definition retro_vault_download_limit :: nat where "retro_vault_download_limit = 64 * 1024 * 1024"
definition retro_vault_http_ok :: int where "retro_vault_http_ok = 0"
definition retro_vault_http_error :: int where "retro_vault_http_error = -1"
definition retro_vault_http_too_large :: int where "retro_vault_http_too_large = -2"

lemmas http_results [simp] = retro_vault_http_ok_def retro_vault_http_error_def
  retro_vault_http_too_large_def

subsection \<open>The growing buffer\<close>

text \<open>The field \<open>size\<close> is the length of the data.\<close>

record retro_vault_buffer =
  buffer_data :: bytes
  buffer_capacity :: nat
  buffer_limit :: nat
  overflowed :: bool

definition retro_vault_buffer_init :: retro_vault_buffer where
  "retro_vault_buffer_init =
     \<lparr>buffer_data = [], buffer_capacity = 0, buffer_limit = 0, overflowed = False\<rparr>"

definition retro_vault_buffer_free :: "retro_vault_buffer \<Rightarrow> retro_vault_buffer" where
  "retro_vault_buffer_free buffer = retro_vault_buffer_init"

text \<open>The loop that doubles the capacity. It is entered with a positive capacity only.\<close>

function grown_capacity :: "nat \<Rightarrow> nat \<Rightarrow> nat \<Rightarrow> nat" where
  "grown_capacity limit required capacity =
     (if 0 < capacity \<and> capacity < required then
        (if capacity > limit div 2 then limit
         else grown_capacity limit required (capacity * 2))
      else capacity)"
  by pat_completeness auto
termination
  by (relation "measure (\<lambda>(limit, required, capacity). required - capacity)") auto

declare grown_capacity.simps [simp del]

text \<open>\<open>False\<close> is the return value \<open>-1\<close>.\<close>

definition retro_vault_buffer_append ::
  "retro_vault_buffer \<Rightarrow> bytes \<Rightarrow> bool \<times> retro_vault_buffer" where
  "retro_vault_buffer_append buffer data =
     (let limit = buffer_limit buffer; used = length (buffer_data buffer) in
      if length data > limit \<or> used > limit - length data then
        (False, buffer\<lparr>overflowed := True\<rparr>)
      else let required = used + length data;
               capacity = buffer_capacity buffer;
               capacity = (if required > capacity
                           then grown_capacity limit required (if capacity > 0 then capacity else 4096)
                           else capacity)
           in (True, buffer\<lparr>buffer_capacity := capacity, buffer_data := buffer_data buffer @ data\<rparr>))"

subsection \<open>The HTTP client\<close>

record retro_vault_curl_client =
  base_url :: bytes
  initialized :: bool

text \<open>The options set on a handle, without the write callback and its buffer.\<close>

record curl_options =
  curl_url :: bytes
  curl_followlocation :: int
  curl_maxredirs :: int
  curl_connecttimeout :: int
  curl_timeout :: int
  curl_nosignal :: int
  curl_useragent :: bytes

definition retro_vault_connect_timeout_seconds :: int where "retro_vault_connect_timeout_seconds = 10"
definition retro_vault_request_timeout_seconds :: int where "retro_vault_request_timeout_seconds = 60"

text \<open>The calls of \<open>curl_easy_setopt\<close>.\<close>

definition http_options :: "bytes \<Rightarrow> curl_options" where
  "http_options url = \<lparr>curl_url = url, curl_followlocation = 1, curl_maxredirs = 5,
     curl_connecttimeout = retro_vault_connect_timeout_seconds,
     curl_timeout = retro_vault_request_timeout_seconds, curl_nosignal = 1,
     curl_useragent = ascii ''squid-server-retrovault/1''\<rparr>"

text \<open>
  What a transfer did: the addresses it was redirected to and went on to, the blocks given to the
  write callback, in order, whether \<open>curl_easy_perform\<close> returned \<open>CURLE_OK\<close>, and the response code.
\<close>

record transfer =
  redirects :: "bytes list"
  blocks :: "bytes list"
  curl_ok :: bool
  response_code :: int

datatype rv_event = Rv_time int | Rv_global_init bool | Rv_global_cleanup | Rv_easy_init bool
  | Rv_perform curl_options transfer | Rv_easy_cleanup

record rv_api =
  rv_clock :: "rv_event list \<Rightarrow> int"
  rv_getenv :: "bytes option"
  rv_global_init :: "rv_event list \<Rightarrow> bool"
  rv_easy_init :: "rv_event list \<Rightarrow> bool"
  rv_perform :: "rv_event list \<Rightarrow> curl_options \<Rightarrow> transfer"

text \<open>
  libcurl goes on to another address only when \<open>CURLOPT_FOLLOWLOCATION\<close> is set, and then at most
  \<open>CURLOPT_MAXREDIRS\<close> times.
\<close>

definition easy_perform :: "rv_api \<Rightarrow> curl_options \<Rightarrow> (rv_event, transfer) io" where
  "easy_perform api options =
     query (\<lambda>h. let t = rv_perform api h options;
                   most = (if curl_followlocation options = 0 then 0 else nat (curl_maxredirs options))
               in t\<lparr>redirects := take most (redirects t)\<rparr>)
       (Rv_perform options)"

definition https_prefix :: bytes where "https_prefix = ascii ''https://''"
definition http_prefix :: bytes where "http_prefix = ascii ''http://''"
definition default_url :: bytes where "default_url = ascii ''https://retro-vault.org''"
definition url_slash :: u8 where "url_slash = 47"

text \<open>The array \<open>base_url\<close> has 256 bytes.\<close>

definition configured_base :: "bytes option \<Rightarrow> bytes option" where
  "configured_base env =
     (let url = (case env of None \<Rightarrow> default_url | Some u \<Rightarrow> if u = [] then default_url else u) in
      if take 8 url \<noteq> https_prefix \<and> take 7 url \<noteq> http_prefix then None
      else let base = rev (dropWhile (\<lambda>c. c = url_slash) (rev url)) in
        if base = [] \<or> length base \<ge> 256 then None else Some base)"

definition init_retro_vault_curl_client ::
  "rv_api \<Rightarrow> (rv_event, retro_vault_curl_client option) io" where
  "init_retro_vault_curl_client api =
     (case configured_base (rv_getenv api) of
        None \<Rightarrow> State_Monad.return None
      | Some base \<Rightarrow> do {
          ok \<leftarrow> query (rv_global_init api) Rv_global_init;
          State_Monad.return (if ok then Some \<lparr>base_url = base, initialized = True\<rparr> else None) })"

definition free_retro_vault_curl_client ::
  "retro_vault_curl_client \<Rightarrow> (rv_event, retro_vault_curl_client) io" where
  "free_retro_vault_curl_client client =
     (if initialized client then do {
        query (\<lambda>_. ()) (\<lambda>_. Rv_global_cleanup);
        State_Monad.return \<lparr>base_url = [], initialized = False\<rparr> }
      else State_Monad.return client)"

text \<open>The write callback, and its effect over a transfer: whether every block was taken.\<close>

definition receive_http_data :: "bytes \<Rightarrow> retro_vault_buffer \<Rightarrow> nat \<times> retro_vault_buffer" where
  "receive_http_data data buffer =
     (let (ok, buffer) = retro_vault_buffer_append buffer data in
      (if ok then length data else 0, buffer))"

fun receive_blocks :: "bytes list \<Rightarrow> retro_vault_buffer \<Rightarrow> retro_vault_buffer" where
  "receive_blocks [] buffer = buffer"
| "receive_blocks (b # bs) buffer = receive_blocks bs (snd (receive_http_data b buffer))"

text \<open>
  The response and the status code are out-parameters: the code keeps its old value when the
  function returns before it sets it. The array \<open>url\<close> has 1024 bytes.
\<close>

definition get_retro_vault_curl ::
  "rv_api \<Rightarrow> retro_vault_curl_client \<Rightarrow> bytes \<Rightarrow> nat \<Rightarrow> retro_vault_buffer \<Rightarrow> int \<Rightarrow>
     (rv_event, int \<times> retro_vault_buffer \<times> int) io" where
  "get_retro_vault_curl api client path size_limit response status_code =
     (if \<not> initialized client \<or> take 1 path \<noteq> [url_slash] \<or> size_limit = 0 then
        State_Monad.return (retro_vault_http_error, response, status_code)
      else if length (base_url client @ path) \<ge> 1024 then
        State_Monad.return (retro_vault_http_error, response, status_code)
      else do {
        let response = (retro_vault_buffer_free response)\<lparr>buffer_limit := size_limit\<rparr>;
        curl \<leftarrow> query (rv_easy_init api) Rv_easy_init;
        if \<not> curl then State_Monad.return (retro_vault_http_error, response, 0)
        else do {
          t \<leftarrow> easy_perform api (http_options (base_url client @ path));
          let response = receive_blocks (blocks t) response;
          emit Rv_easy_cleanup;
          State_Monad.return
            (if curl_ok t then retro_vault_http_ok
             else if overflowed response then retro_vault_http_too_large
             else retro_vault_http_error,
             response, response_code t) } })"

subsection \<open>Packages\<close>

record retro_vault_download =
  download_id :: bytes
  download_label :: bytes
  download_format :: bytes
  aggregate_size :: u32
  file_count :: u8

record retro_vault_package =
  package_id :: bytes
  package_name :: bytes
  vendor :: bytes
  platform_id :: bytes
  platform_name :: bytes
  model_id :: bytes
  model_name :: bytes
  version :: bytes
  description :: bytes
  release_year :: u16
  rating :: u8
  downloads :: "retro_vault_download list"

record retro_vault_context =
  http :: retro_vault_curl_client
  packages :: "retro_vault_package list"
  catalog_fetched_at :: int
  catalog_cache_seconds :: nat
  download_data :: retro_vault_buffer
  download_path :: "bytes option"

definition init_retro_vault_context :: "retro_vault_curl_client \<Rightarrow> retro_vault_context" where
  "init_retro_vault_context client =
     \<lparr>http = client, packages = [], catalog_fetched_at = 0, catalog_cache_seconds = 3600,
      download_data = retro_vault_buffer_init, download_path = None\<rparr>"

text \<open>The context after \<open>free_retro_vault_context\<close>: all zero.\<close>

definition free_retro_vault_context :: "retro_vault_context \<Rightarrow> retro_vault_context" where
  "free_retro_vault_context ctx =
     \<lparr>http = \<lparr>base_url = [], initialized = False\<rparr>, packages = [], catalog_fetched_at = 0,
      catalog_cache_seconds = 0, download_data = retro_vault_buffer_free (download_data ctx),
      download_path = None\<rparr>"

subsection \<open>Members of a package\<close>

text \<open>\<open>None\<close> is the return value \<open>-1\<close>.\<close>

definition get_json_string_member :: "retro_vault_json_value \<Rightarrow> bytes \<Rightarrow> bool \<Rightarrow> bytes option" where
  "get_json_string_member object name required =
     (case get_retro_vault_json_member object name of
        Inl _ \<Rightarrow> None
      | Inr None \<Rightarrow> if required then None else Some []
      | Inr (Some v) \<Rightarrow>
          if json_type v = retro_vault_json_null then (if required then None else Some [])
          else if json_type v \<noteq> retro_vault_json_string then None
          else (case duplicate_retro_vault_json_string v of
              None \<Rightarrow> None
            | Some txt \<Rightarrow> if required \<and> c_string txt = [] then None else Some (c_string txt)))"

text \<open>The number, and whether it is known; an unknown one leaves the caller's zero.\<close>

definition get_json_uint64_member ::
  "retro_vault_json_value \<Rightarrow> bytes \<Rightarrow> (64 word \<times> bool) option" where
  "get_json_uint64_member object name =
     (case get_retro_vault_json_member object name of
        Inl _ \<Rightarrow> None
      | Inr None \<Rightarrow> Some (0, False)
      | Inr (Some v) \<Rightarrow>
          if json_type v = retro_vault_json_null then Some (0, False)
          else map_option (\<lambda>n. (n, True)) (get_retro_vault_json_uint64 v))"

definition parse_rating :: "bytes \<Rightarrow> u8" where
  "parse_rating txt =
     (if txt = ascii ''Curious'' then RETRO_VAULT_RATING_CURIOUS
      else if txt = ascii ''Average'' then RETRO_VAULT_RATING_AVERAGE
      else if txt = ascii ''Great'' then RETRO_VAULT_RATING_GREAT
      else if txt = ascii ''Legendary'' then RETRO_VAULT_RATING_LEGENDARY
      else RETRO_VAULT_RATING_UNKNOWN)"

subsection \<open>The loop over an array\<close>

text \<open>
  \<open>while ((result = next_retro_vault_json_array_value(...)) > 0) body\<close>: \<open>None\<close> when the iterator
  reports an error or the body returns early with \<open>-1\<close>.
\<close>

function each_value ::
  "('s \<Rightarrow> retro_vault_json_value \<Rightarrow> 's option) \<Rightarrow> retro_vault_json_iterator \<Rightarrow> 's \<Rightarrow> 's option" where
  "each_value body iterator s =
     (case next_retro_vault_json_array_value iterator of
        (Inl _, _) \<Rightarrow> None
      | (Inr None, _) \<Rightarrow> Some s
      | (Inr (Some v), iterator) \<Rightarrow>
          (case body s v of None \<Rightarrow> None | Some s \<Rightarrow> each_value body iterator s))"
  by pat_completeness auto
termination
  by (relation "measure (\<lambda>(body, iterator, s). length (iterator_cursor iterator))")
     (auto dest!: sym [of _ "next_retro_vault_json_array_value _"] array_value_inside(2) leaves_length)

declare each_value.simps [simp del]

definition each_array_value ::
  "('s \<Rightarrow> retro_vault_json_value \<Rightarrow> 's option) \<Rightarrow> retro_vault_json_value \<Rightarrow> 's \<Rightarrow> 's option" where
  "each_array_value body array s =
     (if json_type array \<noteq> retro_vault_json_array then None
      else case init_retro_vault_json_array_iterator array of
        None \<Rightarrow> None
      | Some iterator \<Rightarrow> each_value body iterator s)"

subsection \<open>Downloads and packages\<close>

text \<open>
  The file count so far (it sticks at 255), the total in 64 bits and whether all sizes are
  known. \<open>UINT32_MAX - size\<close> is computed in 64 bits and wraps.
\<close>

definition download_file_step ::
  "u8 \<times> 64 word \<times> bool \<Rightarrow> retro_vault_json_value \<Rightarrow> (u8 \<times> 64 word \<times> bool) option" where
  "download_file_step st file =
     (case st of (n_files, bytes_total, all_sizes_known) \<Rightarrow>
        if json_type file \<noteq> retro_vault_json_object then None
        else (case get_json_uint64_member file (ascii ''sizeBytes'') of
            None \<Rightarrow> None
          | Some (file_size, known) \<Rightarrow>
              (let n_files = (if n_files < 255 then n_files + 1 else n_files) in
               if \<not> known \<or> bytes_total > 0xFFFFFFFF - file_size then Some (n_files, bytes_total, False)
               else Some (n_files, bytes_total + file_size, all_sizes_known))))"

definition parse_download_files :: "retro_vault_json_value \<Rightarrow> (u8 \<times> u32) option" where
  "parse_download_files download_object =
     (case get_retro_vault_json_member download_object (ascii ''files'') of
        Inl _ \<Rightarrow> None
      | Inr None \<Rightarrow> None
      | Inr (Some files) \<Rightarrow>
          map_option (\<lambda>(n_files, bytes_total, all_sizes_known).
              (n_files, if all_sizes_known then ucast bytes_total else RETRO_VAULT_SIZE_UNKNOWN))
            (each_array_value download_file_step files (0, 0, True)))"

definition parse_download :: "retro_vault_json_value \<Rightarrow> retro_vault_download option" where
  "parse_download object =
     (if json_type object \<noteq> retro_vault_json_object then None
      else Option.bind (get_json_string_member object (ascii ''id'') True) (\<lambda>i.
        Option.bind (get_json_string_member object (ascii ''label'') True) (\<lambda>l.
        Option.bind (get_json_string_member object (ascii ''format'') True) (\<lambda>f.
        Option.bind (parse_download_files object) (\<lambda>(n_files, bytes_total).
        Some \<lparr>download_id = i, download_label = l, download_format = f, aggregate_size = bytes_total,
          file_count = n_files\<rparr>)))))"

definition parse_downloads :: "retro_vault_json_value \<Rightarrow> retro_vault_download list option" where
  "parse_downloads object =
     (case get_retro_vault_json_member object (ascii ''downloads'') of
        Inl _ \<Rightarrow> None
      | Inr None \<Rightarrow> Some []
      | Inr (Some ds) \<Rightarrow>
          if json_type ds = retro_vault_json_null then Some []
          else each_array_value
            (\<lambda>sofar item. map_option (\<lambda>d. sofar @ [d]) (parse_download item)) ds [])"

definition parse_package :: "retro_vault_json_value \<Rightarrow> retro_vault_package option" where
  "parse_package object =
     (if json_type object \<noteq> retro_vault_json_object then None
      else Option.bind (get_json_string_member object (ascii ''id'') True) (\<lambda>i.
        Option.bind (get_json_string_member object (ascii ''name'') True) (\<lambda>n.
        Option.bind (get_json_string_member object (ascii ''vendor'') False) (\<lambda>v.
        Option.bind (get_json_string_member object (ascii ''platformId'') False) (\<lambda>p.
        Option.bind (get_json_string_member object (ascii ''platformName'') False) (\<lambda>pn.
        Option.bind (get_json_string_member object (ascii ''modelId'') False) (\<lambda>m.
        Option.bind (get_json_string_member object (ascii ''modelName'') False) (\<lambda>mn.
        Option.bind (get_json_string_member object (ascii ''version'') False) (\<lambda>ver.
        Option.bind (get_json_string_member object (ascii ''description'') False) (\<lambda>d.
        Option.bind (get_json_string_member object (ascii ''rating'') False) (\<lambda>r.
        Option.bind (get_json_uint64_member object (ascii ''releaseYear'')) (\<lambda>(year, year_known).
        Option.bind (parse_downloads object) (\<lambda>ds.
        Some \<lparr>package_id = i, package_name = n, vendor = v, platform_id = p, platform_name = pn,
          model_id = m, model_name = mn, version = ver, description = d,
          release_year = (if year_known \<and> year \<le> 0xFFFF then ucast year else 0),
          rating = parse_rating r, downloads = ds\<rparr>)))))))))))))"

definition parse_catalog :: "bytes \<Rightarrow> retro_vault_package list option" where
  "parse_catalog data =
     (case parse_retro_vault_json data of
        None \<Rightarrow> None
      | Some root \<Rightarrow>
          each_array_value
            (\<lambda>sofar item.
               if length sofar \<ge> unat RETRO_VAULT_CURSOR_END then None
               else map_option (\<lambda>p. sofar @ [p]) (parse_package item)) root [])"

subsection \<open>Fetching the catalogue\<close>

definition http_error_status :: "int \<Rightarrow> int \<Rightarrow> u8" where
  "http_error_status http_result status_code =
     (if http_result = retro_vault_http_too_large then RETRO_VAULT_STATUS_TOO_LARGE
      else if status_code = 404 \<or> status_code = 409 then RETRO_VAULT_STATUS_NOT_FOUND
      else RETRO_VAULT_STATUS_API_UNAVAILABLE)"

definition catalog_path :: bytes where "catalog_path = ascii ''/api/v1/catalog/packages''"

text \<open>The difference of two times is converted to \<open>unsigned long\<close>.\<close>

definition catalog_is_fresh :: "retro_vault_context \<Rightarrow> int \<Rightarrow> bool" where
  "catalog_is_fresh ctx now \<longleftrightarrow>
     packages ctx \<noteq> [] \<and> now \<noteq> -1 \<and> catalog_fetched_at ctx \<noteq> 0 \<and>
     (now - catalog_fetched_at ctx) mod 2 ^ 64 < int (catalog_cache_seconds ctx)"

definition ensure_catalog :: "rv_api \<Rightarrow> retro_vault_context \<Rightarrow> (rv_event, u8 \<times> retro_vault_context) io" where
  "ensure_catalog api ctx = do {
     now \<leftarrow> query (rv_clock api) Rv_time;
     if catalog_is_fresh ctx now then State_Monad.return (RETRO_VAULT_STATUS_OK, ctx)
     else do {
       (result, response, status_code) \<leftarrow>
         get_retro_vault_curl api (http ctx) catalog_path retro_vault_catalog_limit
           retro_vault_buffer_init 0;
       State_Monad.return
         (case if result \<noteq> retro_vault_http_ok \<or> status_code < 200 \<or> status_code \<ge> 300 then None
               else parse_catalog (buffer_data response) of
            None \<Rightarrow>
              (if packages ctx \<noteq> [] then RETRO_VAULT_STATUS_OK
               else if result = retro_vault_http_ok then
                 (if status_code = 404 then RETRO_VAULT_STATUS_NOT_FOUND
                  else RETRO_VAULT_STATUS_INTERNAL_ERROR)
               else http_error_status result status_code, ctx)
          | Some fetched \<Rightarrow>
              (RETRO_VAULT_STATUS_OK,
               ctx\<lparr>packages := fetched, catalog_fetched_at := (if now \<noteq> -1 then now else 1)\<rparr>)) } }"

end
