(* ===== verification/Retro_Pages.thy ===== *)
theory Retro_Pages
  imports Retro_Catalog
begin

text \<open>
  Filtering the catalogue and writing its pages, \<open>lib/retrovault/retrovault_core.c\<close> from
  \<open>text_equals_case_insensitive\<close> to \<open>write_info_page\<close>. A filter is the bytes of its slice of the
  request, a record the bytes written; the empty record is the return value 0. Lengths are
  \<open>size_t\<close>; the differences below do not go under zero.
\<close>

definition retro_vault_page_header_size :: nat where "retro_vault_page_header_size = 5"

subsection \<open>Matching\<close>

definition retro_text_equals :: "bytes \<Rightarrow> bytes \<Rightarrow> bool" where
  "retro_text_equals left right \<longleftrightarrow>
     length left = length right \<and> list_all2 (\<lambda>l r. tolower l = tolower r) left right"

text \<open>The loop over \<open>start\<close>, which stops at the first match.\<close>

fun contains_from :: "bytes \<Rightarrow> bytes \<Rightarrow> bool" where
  "contains_from txt sought =
     (if length sought > length txt then False
      else if retro_text_equals (take (length sought) txt) sought then True
      else case txt of [] \<Rightarrow> False | _ # txt \<Rightarrow> contains_from txt sought)"

declare contains_from.simps [simp del]

definition text_contains_case_insensitive :: "bytes \<Rightarrow> bytes \<Rightarrow> bool" where
  "text_contains_case_insensitive txt sought =
     (if sought = [] then False else contains_from txt sought)"

definition text_is_identifier :: "bytes \<Rightarrow> bytes \<Rightarrow> bool" where
  "text_is_identifier txt identifier = retro_text_equals txt identifier"

definition filter_matches_alias :: "bytes \<Rightarrow> bytes \<Rightarrow> bytes \<Rightarrow> bool" where
  "filter_matches_alias flt canonical legacy \<longleftrightarrow>
     retro_text_equals canonical flt \<or> retro_text_equals legacy flt"

definition platform_is_idp :: "bytes \<Rightarrow> bool" where
  "platform_is_idp platform \<longleftrightarrow>
     text_is_identifier platform (ascii ''idp'') \<or>
     text_is_identifier platform (ascii ''iskra-delta-partner'')"

definition platform_matches_filter :: "bytes \<Rightarrow> bytes \<Rightarrow> bool" where
  "platform_matches_filter platform flt =
     (if retro_text_equals platform flt then True
      else if platform_is_idp platform \<and>
        filter_matches_alias flt (ascii ''idp'') (ascii ''iskra-delta-partner'') then True
      else if (text_is_identifier platform (ascii ''zxs'') \<or>
           text_is_identifier platform (ascii ''zx-spectrum'')) \<and>
        filter_matches_alias flt (ascii ''zxs'') (ascii ''zx-spectrum'') then True
      else False)"

definition package_matches :: "retro_vault_package \<Rightarrow> bytes \<Rightarrow> bytes \<Rightarrow> bytes \<Rightarrow> bool" where
  "package_matches package platform model sought =
     (if platform \<noteq> [] \<and> \<not> platform_matches_filter (platform_id package) platform then False
      else if model \<noteq> [] \<and> \<not> retro_text_equals (model_id package) model then False
      else if sought = [] then True
      else text_contains_case_insensitive (package_id package) sought \<or>
        text_contains_case_insensitive (package_name package) sought \<or>
        text_contains_case_insensitive (vendor package) sought \<or>
        text_contains_case_insensitive (description package) sought)"

subsection \<open>Cutting text\<close>

text \<open>The byte at an index of a C string, which may be that of its NUL.\<close>

definition char_at :: "bytes \<Rightarrow> nat \<Rightarrow> u8" where
  "char_at txt i = (if i < length txt then txt ! i else 0)"

text \<open>Step back from \<open>n\<close> while the byte there continues a UTF-8 sequence.\<close>

primrec utf8_boundary :: "bytes \<Rightarrow> nat \<Rightarrow> nat" where
  "utf8_boundary txt 0 = 0"
| "utf8_boundary txt (Suc n) =
     (if char_at txt (Suc n) AND 0xC0 = 0x80 then utf8_boundary txt n else Suc n)"

text \<open>What \<open>make_list_entry\<close> and \<open>make_string_tlv\<close> keep of a text when there is room for \<open>room\<close> bytes.\<close>

definition cut_size :: "bytes \<Rightarrow> nat \<Rightarrow> nat" where
  "cut_size txt room =
     (let n = (if length txt > room then utf8_boundary txt room else length txt) in
      if n > 255 then 255 else n)"

subsection \<open>The pages of LIST and SEARCH\<close>

definition make_list_entry :: "retro_vault_package \<Rightarrow> nat \<Rightarrow> bytes" where
  "make_list_entry package entry_capacity =
     (let id_size = length (package_id package) in
      if entry_capacity < 2 \<or> id_size > 255 then []
      else if id_size > entry_capacity - 2 then []
      else let name_size = cut_size (package_name package) (entry_capacity - id_size - 2) in
        [of_nat id_size] @ package_id package @ [of_nat name_size] @
        take name_size (package_name package))"

definition write_error_response :: "u8 \<Rightarrow> u8 \<Rightarrow> nat \<Rightarrow> bytes option" where
  "write_error_response opcode status response_capacity =
     (if response_capacity < 2 then None else Some [opcode OR RETRO_VAULT_RESPONSE_BIT, status])"

text \<open>
  The loop of \<open>write_catalog_page\<close> from a package on: the next cursor, the number of entries and
  the bytes after the header, or \<open>None\<close> when not even the first entry fits. \<open>match_index\<close> and
  \<open>entry_count\<close> have the widths of the C variables; \<open>body\<close> is what was written after the header.
\<close>

fun catalog_loop ::
  "(retro_vault_package \<Rightarrow> bool) \<Rightarrow> u16 \<Rightarrow> nat \<Rightarrow> retro_vault_package list \<Rightarrow> u16 \<Rightarrow> u8 \<Rightarrow> bytes \<Rightarrow>
     (u16 \<times> u8 \<times> bytes) option" where
  "catalog_loop matches cursor room [] match_index entry_count body =
     Some (RETRO_VAULT_CURSOR_END, entry_count, body)"
| "catalog_loop matches cursor room (package # rest) match_index entry_count body =
     (if \<not> matches package then catalog_loop matches cursor room rest match_index entry_count body
      else if match_index < cursor then
        catalog_loop matches cursor room rest (match_index + 1) entry_count body
      else let entry = make_list_entry package 249 in
        if entry = [] then catalog_loop matches cursor room rest (match_index + 1) entry_count body
        else if length entry > room - length body then
          (if entry_count = 0 then
             (let entry = make_list_entry package (room - length body) in
              if entry = [] then None
              else catalog_loop matches cursor room rest (match_index + 1) (entry_count + 1) (body @ entry))
           else Some (match_index, entry_count, body))
        else catalog_loop matches cursor room rest (match_index + 1) (entry_count + 1) (body @ entry))"

definition page_reply :: "u8 \<Rightarrow> u16 \<Rightarrow> u8 \<Rightarrow> bytes \<Rightarrow> bytes" where
  "page_reply opcode next_cursor n body =
     [opcode OR RETRO_VAULT_RESPONSE_BIT, RETRO_VAULT_STATUS_OK] @ write_u16 next_cursor @ [n] @ body"

definition write_catalog_page ::
  "retro_vault_package list \<Rightarrow> u8 \<Rightarrow> u16 \<Rightarrow> bytes \<Rightarrow> bytes \<Rightarrow> bytes \<Rightarrow> nat \<Rightarrow> bytes option" where
  "write_catalog_page all opcode cursor platform model sought response_capacity =
     (if response_capacity < retro_vault_page_header_size then None
      else case catalog_loop (\<lambda>p. package_matches p platform model sought) cursor
             (response_capacity - retro_vault_page_header_size) all 0 0 [] of
        None \<Rightarrow> write_error_response opcode RETRO_VAULT_STATUS_TOO_LARGE response_capacity
      | Some (next_cursor, entry_count, body) \<Rightarrow>
          Some (page_reply opcode next_cursor entry_count body))"

definition find_package :: "retro_vault_package list \<Rightarrow> bytes \<Rightarrow> retro_vault_package option" where
  "find_package all sought = find (\<lambda>p. retro_text_equals (package_id p) sought) all"

subsection \<open>The records of INFO\<close>

definition make_string_tlv :: "u8 \<Rightarrow> bytes \<Rightarrow> nat \<Rightarrow> bytes" where
  "make_string_tlv type txt record_capacity =
     (if record_capacity < 2 then []
      else let text_size = cut_size txt (record_capacity - 2) in
        [type, of_nat text_size] @ take text_size txt)"

definition append_counted_text :: "nat \<Rightarrow> bytes \<Rightarrow> nat \<Rightarrow> bytes" where
  "append_counted_text output_capacity txt maximum_size =
     (if output_capacity < 1 then []
      else let n = min (min (min (length txt) maximum_size) (output_capacity - 1)) 255;
               n = utf8_boundary txt n
           in [of_nat n] @ take n txt)"

definition make_download_tlv :: "retro_vault_download \<Rightarrow> nat \<Rightarrow> bytes" where
  "make_download_tlv download record_capacity =
     (if record_capacity < 10 then []
      else let ident = append_counted_text (record_capacity - 2 - 5) (download_id download) 64 in
      if ident = [] then []
      else let label = append_counted_text (record_capacity - (2 + length ident) - 5)
                 (download_label download) 96 in
      if label = [] then []
      else let format = append_counted_text (record_capacity - (2 + length ident + length label) - 5)
                 (download_format download) 32 in
      if format = [] then []
      else let fields = ident @ label @ format @ write_u32 (aggregate_size download) @
                 [file_count download]
           in [RETRO_VAULT_INFO_DOWNLOAD, of_nat (length fields)] @ fields)"

definition make_info_record :: "retro_vault_package \<Rightarrow> u16 \<Rightarrow> nat \<Rightarrow> bytes" where
  "make_info_record package cursor record_capacity =
     (if cursor = 0 then make_string_tlv RETRO_VAULT_INFO_ID (package_id package) record_capacity
      else if cursor = 1 then
        make_string_tlv RETRO_VAULT_INFO_NAME (package_name package) record_capacity
      else if cursor = 2 then
        make_string_tlv RETRO_VAULT_INFO_VENDOR (vendor package) record_capacity
      else if cursor = 3 then
        make_string_tlv RETRO_VAULT_INFO_PLATFORM_ID (platform_id package) record_capacity
      else if cursor = 4 then
        make_string_tlv RETRO_VAULT_INFO_PLATFORM_NAME (platform_name package) record_capacity
      else if cursor = 5 then
        make_string_tlv RETRO_VAULT_INFO_VERSION (version package) record_capacity
      else if cursor = 6 then
        (if record_capacity < 4 then []
         else [RETRO_VAULT_INFO_YEAR, 2] @ write_u16 (release_year package))
      else if cursor = 7 then
        (if record_capacity < 3 then [] else [RETRO_VAULT_INFO_RATING, 1, rating package])
      else if cursor = 8 then
        make_string_tlv RETRO_VAULT_INFO_DESCRIPTION (description package) record_capacity
      else if unat cursor - 9 \<ge> length (downloads package) then []
      else make_download_tlv (downloads package ! (unat cursor - 9)) record_capacity)"

lemma utf8_boundary_le: "utf8_boundary t n \<le> n"
  by (induction n) auto

lemma cut_size_bounds: "cut_size t room \<le> room \<and> cut_size t room \<le> 255 \<and> cut_size t room \<le> length t"
  using utf8_boundary_le [of t room] by (auto simp: cut_size_def Let_def)

lemma make_string_tlv_le: "length (make_string_tlv ty t capacity) \<le> capacity"
proof (cases "2 \<le> capacity")
  case True
  have "cut_size t (capacity - 2) \<le> capacity - 2"
    using cut_size_bounds by blast
  with True show ?thesis
    by (simp add: make_string_tlv_def Let_def)
qed (simp add: make_string_tlv_def)

text \<open>What \<open>append_counted_text\<close> keeps.\<close>

lemma append_counted_text_shape:
  assumes "1 \<le> capacity"
  obtains n where "append_counted_text capacity t most = of_nat n # take n t"
    and "n \<le> capacity - 1" and "n \<le> 255" and "n \<le> most" and "n \<le> length t"
    and "n = utf8_boundary t (min (min (min (length t) most) (capacity - 1)) 255)"
proof -
  define m where "m = min (min (min (length t) most) (capacity - 1)) 255"
  have shape: "append_counted_text capacity t most = of_nat (utf8_boundary t m) # take (utf8_boundary t m) t"
    using assms by (simp add: append_counted_text_def m_def Let_def)
  have "m \<le> capacity - 1" "m \<le> 255" "m \<le> most" "m \<le> length t"
    by (simp_all add: m_def)
  note bounds = this [THEN order_trans [OF utf8_boundary_le [of t m]]]
  show ?thesis
    by (rule that [OF shape bounds]) (simp only: m_def)
qed

lemma append_counted_text_le: "length (append_counted_text capacity t most) \<le> capacity"
proof (cases "1 \<le> capacity")
  case True
  then obtain n where "append_counted_text capacity t most = of_nat n # take n t" "n \<le> capacity - 1"
    by (rule append_counted_text_shape)
  with True show ?thesis by simp
qed (simp add: append_counted_text_def)

lemma make_download_tlv_le: "length (make_download_tlv d capacity) \<le> capacity"
proof (cases "make_download_tlv d capacity = []")
  case False
  define i where "i = append_counted_text (capacity - 2 - 5) (download_id d) 64"
  define l where "l = append_counted_text (capacity - (2 + length i) - 5) (download_label d) 96"
  define f where
    "f = append_counted_text (capacity - (2 + length i + length l) - 5) (download_format d) 32"
  have tlv: "10 \<le> capacity" "f \<noteq> []" "length (make_download_tlv d capacity) = 7 + length i + length l + length f"
    using False unfolding make_download_tlv_def Let_def i_def [symmetric] l_def [symmetric] f_def [symmetric]
    by (simp_all split: if_splits)
  have "length f \<le> capacity - (2 + length i + length l) - 5"
    unfolding f_def by (rule append_counted_text_le)
  moreover have "0 < length f"
    using tlv(2) by simp
  ultimately show ?thesis
    using tlv(3) by linarith
qed simp

lemma make_info_record_le: "length (make_info_record p cursor capacity) \<le> capacity"
  by (simp add: make_info_record_def make_string_tlv_le make_download_tlv_le)

text \<open>The loop of \<open>write_info_page\<close>; an error is its status.\<close>

function info_loop ::
  "retro_vault_package \<Rightarrow> nat \<Rightarrow> u16 \<Rightarrow> u8 \<Rightarrow> bytes \<Rightarrow> u8 + (u16 \<times> u8 \<times> bytes)" where
  "info_loop package room cursor tlv_count body =
     (if unat cursor < 9 + length (downloads package) then
        (let entry = make_info_record package cursor 249 in
         if entry = [] then Inl RETRO_VAULT_STATUS_INTERNAL_ERROR
         else if length entry > room - length body then
           (if tlv_count = 0 then
              (let entry = make_info_record package cursor (room - length body) in
               if entry = [] then Inl RETRO_VAULT_STATUS_TOO_LARGE
               else info_loop package room (cursor + 1) (tlv_count + 1) (body @ entry))
            else Inr (cursor, tlv_count, body))
         else info_loop package room (cursor + 1) (tlv_count + 1) (body @ entry))
      else Inr (RETRO_VAULT_CURSOR_END, tlv_count, body))"
  by pat_completeness auto
termination
proof (relation "measure (\<lambda>(package, room, cursor, tlv_count, body). room - length body)", goal_cases)
  case 1
  show ?case by simp
next
  case (2 package room cursor tlv_count body entry entry')
  then show ?case
    using make_info_record_le [of package cursor "room - length body"]
    by (cases "make_info_record package cursor (room - length body)") auto
next
  case (3 package room cursor tlv_count body entry)
  then show ?case
    by (cases "make_info_record package cursor 249") auto
qed

declare info_loop.simps [simp del]

definition write_info_page ::
  "u8 \<Rightarrow> retro_vault_package \<Rightarrow> u16 \<Rightarrow> nat \<Rightarrow> bytes option" where
  "write_info_page opcode package cursor response_capacity =
     (if response_capacity < retro_vault_page_header_size \<or>
         unat cursor > 9 + length (downloads package)
      then write_error_response opcode RETRO_VAULT_STATUS_BAD_REQUEST response_capacity
      else case info_loop package (response_capacity - retro_vault_page_header_size) cursor 0 [] of
        Inl status \<Rightarrow> write_error_response opcode status response_capacity
      | Inr (next_cursor, tlv_count, body) \<Rightarrow> Some (page_reply opcode next_cursor tlv_count body))"

end
