(* ===== verification/Retro_Service.thy ===== *)
theory Retro_Service
  imports Retro_Pages
begin

text \<open>
  Downloads and request handling of the RetroVault service: the rest of
  \<open>lib/retrovault/retrovault_core.c\<close>, and \<open>retrovault_plugin.c\<close>. A handler returns its response and
  the context it leaves behind.
\<close>

definition retro_vault_download_header_size :: nat where "retro_vault_download_header_size = 11"
definition retro_vault_api_path_max :: nat where "retro_vault_api_path_max = 768"

lemmas retro_sizes [simp] = retro_vault_page_header_size_def retro_vault_download_header_size_def
  retro_vault_api_path_max_def

subsection \<open>Identifiers and paths\<close>

definition identifier_char :: "u8 \<Rightarrow> bool" where
  "identifier_char c \<longleftrightarrow> (97 \<le> c \<and> c \<le> 122) \<or> (65 \<le> c \<and> c \<le> 90) \<or> (48 \<le> c \<and> c \<le> 57) \<or> c = 45 \<or> c = 95"

definition identifier_is_safe :: "bytes \<Rightarrow> bool" where
  "identifier_is_safe identifier \<longleftrightarrow> identifier \<noteq> [] \<and> list_all identifier_char identifier"

definition catalog_identifier_is_safe :: "bytes \<Rightarrow> bool" where
  "catalog_identifier_is_safe txt \<longleftrightarrow> txt \<noteq> [] \<and> identifier_is_safe txt"

definition find_download :: "retro_vault_package \<Rightarrow> bytes \<Rightarrow> retro_vault_download option" where
  "find_download package sought =
     find (\<lambda>d. retro_text_equals (download_id d) sought) (downloads package)"

text \<open>\<open>snprintf\<close> into an array of \<open>path_size\<close> bytes; \<open>None\<close> when the text does not fit.\<close>

definition build_download_path :: "retro_vault_package \<Rightarrow> bytes \<Rightarrow> bool \<Rightarrow> nat \<Rightarrow> bytes option" where
  "build_download_path package ident disambiguate path_size =
     (if \<not> catalog_identifier_is_safe (package_id package) \<or> \<not> catalog_identifier_is_safe ident \<or>
         path_size = 0 then None
      else let platform = (if catalog_identifier_is_safe (platform_id package)
                           then Some (platform_id package) else None);
               model = (if catalog_identifier_is_safe (model_id package)
                        then Some (model_id package) else None);
               root = ascii ''/api/v1/catalog/packages/'';
               path = (case platform of
                   Some p \<Rightarrow>
                     (if \<not> disambiguate then
                        (case model of
                           Some m \<Rightarrow> root @ p @ ascii ''/'' @ m @ ascii ''/'' @ package_id package @
                             ascii ''/downloads/'' @ ident
                         | None \<Rightarrow> root @ p @ ascii ''/'' @ package_id package @
                             ascii ''/downloads/'' @ ident)
                      else
                        (case model of
                           Some m \<Rightarrow> root @ package_id package @ ascii ''/downloads/'' @ ident @
                             ascii ''?platformId='' @ p @ ascii ''&modelId='' @ m
                         | None \<Rightarrow> root @ package_id package @ ascii ''/downloads/'' @ ident @
                             ascii ''?platformId='' @ p))
                 | None \<Rightarrow> root @ package_id package @ ascii ''/downloads/'' @ ident)
           in if length path \<ge> path_size then None else Some path)"

subsection \<open>Fetching a download\<close>

definition fetch_download ::
  "rv_api \<Rightarrow> retro_vault_context \<Rightarrow> bytes \<Rightarrow> int \<Rightarrow>
     (rv_event, u8 \<times> retro_vault_buffer \<times> int) io" where
  "fetch_download api ctx path status_code = do {
     (result, response, status_code) \<leftarrow>
       get_retro_vault_curl api (http ctx) path retro_vault_download_limit
         retro_vault_buffer_init status_code;
     State_Monad.return
       (if result \<noteq> retro_vault_http_ok \<or> status_code < 200 \<or> status_code \<ge> 300
        then (http_error_status result status_code, retro_vault_buffer_free response, status_code)
        else (RETRO_VAULT_STATUS_OK, response, status_code)) }"

text \<open>The fetch itself, with the second attempt after a conflict (409).\<close>

definition fetch_or_disambiguate ::
  "rv_api \<Rightarrow> retro_vault_context \<Rightarrow> retro_vault_package \<Rightarrow> retro_vault_download \<Rightarrow> bytes \<Rightarrow>
     (rv_event, u8 \<times> retro_vault_buffer) io" where
  "fetch_or_disambiguate api ctx package download path = do {
     (status, response, status_code) \<leftarrow> fetch_download api ctx path 0;
     if status \<noteq> RETRO_VAULT_STATUS_OK \<and> status_code = 409 then
       (case build_download_path package (download_id download) True retro_vault_api_path_max of
          None \<Rightarrow> State_Monad.return (status, response)
        | Some disambiguated \<Rightarrow>
            if disambiguated \<noteq> path then do {
              (status, response, status_code) \<leftarrow> fetch_download api ctx disambiguated status_code;
              State_Monad.return (status, response) }
            else State_Monad.return (status, response))
     else State_Monad.return (status, response) }"

definition ensure_download ::
  "rv_api \<Rightarrow> retro_vault_context \<Rightarrow> bytes \<Rightarrow> bytes \<Rightarrow> (rv_event, u8 \<times> retro_vault_context) io" where
  "ensure_download api ctx wanted_package wanted_download =
     (if \<not> identifier_is_safe wanted_package \<or> \<not> identifier_is_safe wanted_download then
        State_Monad.return (RETRO_VAULT_STATUS_BAD_REQUEST, ctx)
      else do {
        (status, ctx) \<leftarrow> ensure_catalog api ctx;
        if status \<noteq> RETRO_VAULT_STATUS_OK then State_Monad.return (status, ctx)
        else case find_package (packages ctx) wanted_package of
          None \<Rightarrow> State_Monad.return (RETRO_VAULT_STATUS_NOT_FOUND, ctx)
        | Some package \<Rightarrow>
        case find_download package wanted_download of
          None \<Rightarrow> State_Monad.return (RETRO_VAULT_STATUS_NOT_FOUND, ctx)
        | Some download \<Rightarrow>
        case build_download_path package (download_id download) False retro_vault_api_path_max of
          None \<Rightarrow> State_Monad.return (RETRO_VAULT_STATUS_INTERNAL_ERROR, ctx)
        | Some path \<Rightarrow>
            if download_path ctx = Some path then State_Monad.return (RETRO_VAULT_STATUS_OK, ctx)
            else do {
              (status, response) \<leftarrow> fetch_or_disambiguate api ctx package download path;
              State_Monad.return
                (if status \<noteq> RETRO_VAULT_STATUS_OK then (status, ctx)
                 else (RETRO_VAULT_STATUS_OK,
                   ctx\<lparr>download_data := response, download_path := Some path\<rparr>)) } })"

subsection \<open>The handlers\<close>

type_synonym rv_outcome = "bytes option \<times> retro_vault_context"

definition handle_capabilities :: "u8 \<Rightarrow> nat \<Rightarrow> bytes option" where
  "handle_capabilities opcode response_capacity =
     (if response_capacity < 7 then None
      else Some [opcode OR RETRO_VAULT_RESPONSE_BIT, RETRO_VAULT_STATUS_OK, RETRO_VAULT_PROTOCOL_VERSION,
        RETRO_VAULT_FEATURE_LIST OR RETRO_VAULT_FEATURE_SEARCH OR RETRO_VAULT_FEATURE_INFO OR
          RETRO_VAULT_FEATURE_DOWNLOAD,
        of_nat retro_vault_page_header_size, of_nat retro_vault_download_header_size,
        if response_capacity > retro_vault_download_header_size
        then of_nat (response_capacity - retro_vault_download_header_size) else 0])"

text \<open>The arguments of LIST and SEARCH: cursor, platform, model and query; \<open>None\<close> is a bad request.\<close>

definition parse_list_request :: "u8 \<Rightarrow> bytes \<Rightarrow> (u16 \<times> bytes \<times> bytes \<times> bytes) option" where
  "parse_list_request opcode request =
     (if length request < 4 then None
      else let cursor = read_u16 (drop 1 request) in
      if cursor = RETRO_VAULT_CURSOR_END then None
      else let platform_size = unat (request ! 3) in
      if platform_size > length request - 4 then None
      else let platform = take platform_size (drop 4 request);
               offset = 4 + platform_size;
               after_query =
                 (if opcode = RETRO_VAULT_OP_SEARCH then
                    (if offset \<ge> length request then None
                     else let query_size = unat (request ! offset); offset = offset + 1 in
                       if query_size = 0 \<or> query_size > length request - offset then None
                       else Some (take query_size (drop offset request), offset + query_size))
                  else Some ([], offset))
           in case after_query of
             None \<Rightarrow> None
           | Some (sought, offset) \<Rightarrow>
               if offset < length request then
                 (let model_size = unat (request ! offset); offset = offset + 1 in
                  if model_size \<noteq> length request - offset then None
                  else Some (cursor, platform, take model_size (drop offset request), sought))
               else if offset \<noteq> length request then None
               else Some (cursor, platform, [], sought))"

definition handle_list_or_search ::
  "rv_api \<Rightarrow> retro_vault_context \<Rightarrow> u8 \<Rightarrow> bytes \<Rightarrow> nat \<Rightarrow> (rv_event, rv_outcome) io" where
  "handle_list_or_search api ctx opcode request response_capacity =
     (case parse_list_request opcode request of
        None \<Rightarrow> State_Monad.return
          (write_error_response opcode RETRO_VAULT_STATUS_BAD_REQUEST response_capacity, ctx)
      | Some (cursor, platform, model, sought) \<Rightarrow> do {
          (status, ctx) \<leftarrow> ensure_catalog api ctx;
          State_Monad.return
            (if status \<noteq> RETRO_VAULT_STATUS_OK then write_error_response opcode status response_capacity
             else write_catalog_page (packages ctx) opcode cursor platform model sought response_capacity,
             ctx) })"

definition handle_info ::
  "rv_api \<Rightarrow> retro_vault_context \<Rightarrow> u8 \<Rightarrow> bytes \<Rightarrow> nat \<Rightarrow> (rv_event, rv_outcome) io" where
  "handle_info api ctx opcode request response_capacity =
     (if length request < 4 then State_Monad.return
        (write_error_response opcode RETRO_VAULT_STATUS_BAD_REQUEST response_capacity, ctx)
      else let cursor = read_u16 (drop 1 request); id_size = unat (request ! 3) in
      if id_size = 0 \<or> id_size \<noteq> length request - 4 then State_Monad.return
        (write_error_response opcode RETRO_VAULT_STATUS_BAD_REQUEST response_capacity, ctx)
      else do {
        (status, ctx) \<leftarrow> ensure_catalog api ctx;
        State_Monad.return
          (if status \<noteq> RETRO_VAULT_STATUS_OK then write_error_response opcode status response_capacity
           else (case find_package (packages ctx) (take id_size (drop 4 request)) of
               None \<Rightarrow> write_error_response opcode RETRO_VAULT_STATUS_NOT_FOUND response_capacity
             | Some package \<Rightarrow> write_info_page opcode package cursor response_capacity), ctx) })"

text \<open>The arguments of DOWNLOAD: offset, most bytes, package and download.\<close>

definition parse_download_request :: "bytes \<Rightarrow> (u32 \<times> u8 \<times> bytes \<times> bytes) option" where
  "parse_download_request request =
     (if length request < 8 then None
      else let offset = read_u32 (drop 1 request);
               maximum_bytes = request ! 5;
               package_id_size = unat (request ! 6) in
      if package_id_size = 0 \<or> package_id_size > length request - 7 then None
      else let cursor = 7 + package_id_size in
      if cursor \<ge> length request then None
      else let download_id_size = unat (request ! cursor) in
      if download_id_size = 0 \<or> download_id_size \<noteq> length request - (cursor + 1) then None
      else Some (offset, maximum_bytes, take package_id_size (drop 7 request),
        take download_id_size (drop (cursor + 1) request)))"

text \<open>The answer from the cached download.\<close>

definition download_reply :: "u8 \<Rightarrow> u32 \<Rightarrow> u8 \<Rightarrow> bytes \<Rightarrow> nat \<Rightarrow> bytes option" where
  "download_reply opcode offset maximum_bytes data response_capacity =
     (if length data > 0xFFFFFFFF then
        write_error_response opcode RETRO_VAULT_STATUS_TOO_LARGE response_capacity
      else if unat offset > length data then
        write_error_response opcode RETRO_VAULT_STATUS_BAD_REQUEST response_capacity
      else let available = length data - unat offset;
               data_size = response_capacity - retro_vault_download_header_size;
               data_size = (if maximum_bytes > 0 \<and> data_size > unat maximum_bytes
                            then unat maximum_bytes else data_size);
               data_size = (if data_size > 255 then 255 else data_size);
               data_size = (if data_size > available then available else data_size)
           in Some ([opcode OR RETRO_VAULT_RESPONSE_BIT, RETRO_VAULT_STATUS_OK] @ write_u32 offset @
             write_u32 (of_nat (length data)) @ [of_nat data_size] @
             take data_size (drop (unat offset) data)))"

definition handle_download ::
  "rv_api \<Rightarrow> retro_vault_context \<Rightarrow> u8 \<Rightarrow> bytes \<Rightarrow> nat \<Rightarrow> (rv_event, rv_outcome) io" where
  "handle_download api ctx opcode request response_capacity =
     (case if response_capacity < retro_vault_download_header_size then None
           else parse_download_request request of
        None \<Rightarrow> State_Monad.return
          (write_error_response opcode RETRO_VAULT_STATUS_BAD_REQUEST response_capacity, ctx)
      | Some (offset, maximum_bytes, wanted_package, wanted_download) \<Rightarrow> do {
          (status, ctx) \<leftarrow> ensure_download api ctx wanted_package wanted_download;
          State_Monad.return
            (if status \<noteq> RETRO_VAULT_STATUS_OK then write_error_response opcode status response_capacity
             else download_reply opcode offset maximum_bytes (buffer_data (download_data ctx))
               response_capacity, ctx) })"

definition handle_retro_vault_request ::
  "rv_api \<Rightarrow> retro_vault_context \<Rightarrow> bytes \<Rightarrow> nat \<Rightarrow> (rv_event, rv_outcome) io" where
  "handle_retro_vault_request api ctx request response_capacity =
     (if request = [] \<or> response_capacity < 2 then State_Monad.return (None, ctx)
      else let opcode = request ! 0 in
      if opcode = RETRO_VAULT_OP_CAPABILITIES then
        State_Monad.return
          (if length request \<noteq> 1
           then write_error_response opcode RETRO_VAULT_STATUS_BAD_REQUEST response_capacity
           else handle_capabilities opcode response_capacity, ctx)
      else if opcode = RETRO_VAULT_OP_LIST \<or> opcode = RETRO_VAULT_OP_SEARCH then
        handle_list_or_search api ctx opcode request response_capacity
      else if opcode = RETRO_VAULT_OP_INFO then
        handle_info api ctx opcode request response_capacity
      else if opcode = RETRO_VAULT_OP_DOWNLOAD then
        handle_download api ctx opcode request response_capacity
      else State_Monad.return
        (write_error_response opcode RETRO_VAULT_STATUS_BAD_REQUEST response_capacity, ctx))"

subsection \<open>The plugin\<close>

text \<open>\<open>context.http.user_data\<close> points at the field \<open>curl\<close>, which is kept in the context here.\<close>

record retro_vault_plugin_state =
  rv_context :: retro_vault_context
  started :: bool

definition start_retro_vault_plugin ::
  "rv_api \<Rightarrow> retro_vault_plugin_state \<Rightarrow> (rv_event, int \<times> retro_vault_plugin_state) io" where
  "start_retro_vault_plugin api st =
     (if started st then State_Monad.return (0, st)
      else do {
        client \<leftarrow> init_retro_vault_curl_client api;
        State_Monad.return
          (case client of
             None \<Rightarrow> (-1, \<lparr>rv_context = free_retro_vault_context (rv_context st), started = False\<rparr>)
           | Some curl \<Rightarrow> (0, \<lparr>rv_context = init_retro_vault_context curl, started = True\<rparr>)) })"

definition stop_retro_vault_plugin ::
  "rv_api \<Rightarrow> retro_vault_plugin_state \<Rightarrow> (rv_event, int \<times> retro_vault_plugin_state) io" where
  "stop_retro_vault_plugin api st =
     (if started st then do {
        free_retro_vault_curl_client (http (rv_context st));
        State_Monad.return
          (0, \<lparr>rv_context = free_retro_vault_context (rv_context st), started = False\<rparr>) }
      else State_Monad.return (0, st))"

definition handle_retro_vault_packet ::
  "rv_api \<Rightarrow> retro_vault_plugin_state \<Rightarrow> bytes \<Rightarrow> nat \<Rightarrow>
     (rv_event, bytes option \<times> retro_vault_plugin_state) io" where
  "handle_retro_vault_packet api st request response_capacity =
     (if request = [] \<or> response_capacity = 0 \<or> \<not> started st then
        State_Monad.return (None, st)
      else do {
        (r, ctx) \<leftarrow> handle_retro_vault_request api (rv_context st) request response_capacity;
        State_Monad.return (r, st\<lparr>rv_context := ctx\<rparr>) })"

end
