(* ===== verification/Retro_Safety.thy ===== *)
theory Retro_Safety
  imports Retro_Service
begin

text \<open>
  What holds of every request to the RetroVault service, whatever the request, the catalogue and
  libcurl deliver: the shape of the response, the addresses fetched, the sizes kept.
\<close>

subsection \<open>The buffer\<close>

text \<open>The data stays below the limit, and every copy into the buffer below its capacity.\<close>

definition wf_buffer :: "retro_vault_buffer \<Rightarrow> bool" where
  "wf_buffer b \<longleftrightarrow> length (buffer_data b) \<le> buffer_limit b \<and> length (buffer_data b) \<le> buffer_capacity b"

lemma grown_capacity_enough:
  "required \<le> limit \<Longrightarrow> 0 < capacity \<Longrightarrow> required \<le> grown_capacity limit required capacity"
proof (induction limit required capacity rule: grown_capacity.induct)
  case (1 limit required capacity)
  then show ?case
    by (subst grown_capacity.simps) auto
qed

lemma append_wf:
  assumes "wf_buffer b"
  shows "wf_buffer (snd (retro_vault_buffer_append b data))"
proof -
  let ?required = "length (buffer_data b) + length data"
  have "?required \<le> grown_capacity (buffer_limit b) ?required (if buffer_capacity b > 0 then buffer_capacity b else 4096)"
    if "?required \<le> buffer_limit b"
    by (rule grown_capacity_enough [OF that]) simp
  then show ?thesis
    using assms by (auto simp: retro_vault_buffer_append_def wf_buffer_def Let_def)
qed

lemma append_cases:
  "fst (retro_vault_buffer_append b data) \<longleftrightarrow> length (buffer_data b) + length data \<le> buffer_limit b"
  "buffer_limit (snd (retro_vault_buffer_append b data)) = buffer_limit b"
  "buffer_data (snd (retro_vault_buffer_append b data)) =
     (if fst (retro_vault_buffer_append b data) then buffer_data b @ data else buffer_data b)"
  "overflowed (snd (retro_vault_buffer_append b data)) \<longleftrightarrow>
     overflowed b \<or> \<not> fst (retro_vault_buffer_append b data)"
  by (auto simp: retro_vault_buffer_append_def Let_def)

lemma receive_http_data_snd: "snd (receive_http_data data b) = snd (retro_vault_buffer_append b data)"
  by (simp add: receive_http_data_def split: prod.split)

lemma receive_blocks_wf: "wf_buffer b \<Longrightarrow> wf_buffer (receive_blocks bs b)"
  by (induction bs arbitrary: b) (simp_all add: receive_http_data_snd append_wf)

lemma receive_blocks_limit: "buffer_limit (receive_blocks bs b) = buffer_limit b"
  by (induction bs arbitrary: b) (simp_all add: receive_http_data_snd append_cases(2))

subsection \<open>Addresses\<close>

definition url_char :: "u8 \<Rightarrow> bool" where
  "url_char c \<longleftrightarrow> identifier_char c \<or> c \<in> {47, 63, 61, 38}"

definition safe_url_path :: "bytes \<Rightarrow> bool" where
  "safe_url_path path \<longleftrightarrow> take 24 path = catalog_path \<and> list_all url_char path"

text \<open>
  A call a request may make: the clock, a handle, or a transfer whose address is the configured
  base followed by a path of the catalogue that has only letters, digits and \<open>-_/?=&\<close>, with the
  options of \<open>get_retro_vault_curl\<close>. The answers may send libcurl to other addresses, five at most.
\<close>

definition fetch_ok :: "bytes \<Rightarrow> rv_event \<Rightarrow> bool" where
  "fetch_ok base e =
     (case e of
        Rv_perform options t \<Rightarrow> (let url = curl_url options in options = http_options url \<and>
          length url < 1024 \<and> take (length base) url = base \<and> safe_url_path (drop (length base) url) \<and>
          length (redirects t) \<le> 5)
      | Rv_easy_cleanup \<Rightarrow> True
      | Rv_time _ \<Rightarrow> True
      | Rv_easy_init _ \<Rightarrow> True
      | _ \<Rightarrow> False)"

definition is_perform :: "rv_event \<Rightarrow> bool" where
  "is_perform e = (case e of Rv_perform _ _ \<Rightarrow> True | _ \<Rightarrow> False)"

definition handles :: "rv_event list \<Rightarrow> int" where
  "handles es = (\<Sum>e\<leftarrow>es. case e of Rv_easy_init True \<Rightarrow> 1 | Rv_easy_cleanup \<Rightarrow> - 1 | _ \<Rightarrow> 0)"

definition fetches :: "nat \<Rightarrow> bytes \<Rightarrow> rv_event list \<Rightarrow> bool" where
  "fetches n base es \<longleftrightarrow> list_all (fetch_ok base) es \<and> length (filter is_perform es) \<le> n \<and> handles es = 0"

lemma handles_simps [simp]:
  "handles [] = 0" "handles (es @ es') = handles es + handles es'"
  "handles (Rv_time t # es) = handles es" "handles (Rv_perform options x # es) = handles es"
  "handles (Rv_easy_init ok # es) = (if ok then 1 else 0) + handles es"
  "handles (Rv_easy_cleanup # es) = handles es - 1"
  by (simp_all add: handles_def)

lemma fetch_ok_simps [simp]:
  "fetch_ok base (Rv_time t)" "fetch_ok base (Rv_easy_init ok)" "fetch_ok base Rv_easy_cleanup"
  "\<not> is_perform (Rv_time t)" "\<not> is_perform (Rv_easy_init ok)" "is_perform (Rv_perform options x)"
  "\<not> is_perform Rv_easy_cleanup"
  "fetch_ok base (Rv_perform (http_options (base @ path)) x) \<longleftrightarrow>
     length (base @ path) < 1024 \<and> safe_url_path path \<and> length (redirects x) \<le> 5"
  by (simp_all add: fetch_ok_def is_perform_def http_options_def Let_def)

lemma ensures_perform_bind:
  assumes "\<And>t. length (redirects t) \<le> 5 \<Longrightarrow>
    ensures (f t) (\<lambda>b es. Q b (Rv_perform (http_options url) t # es))"
  shows "ensures (State_Monad.bind (easy_perform api (http_options url)) f) Q"
  unfolding easy_perform_def
  by (rule ensures_query_sat_bind [where P = "\<lambda>t. length (redirects t) \<le> 5"])
     (auto simp: http_options_def Let_def intro: assms [unfolded http_options_def])

lemma fetches_append:
  "fetches n base es \<Longrightarrow> fetches m base es' \<Longrightarrow> n + m \<le> k \<Longrightarrow> fetches k base (es @ es')"
  by (auto simp: fetches_def)

lemma fetches_Nil [simp]: "fetches n base []"
  by (simp add: fetches_def)

lemma fetches_mono: "fetches n base es \<Longrightarrow> n \<le> m \<Longrightarrow> fetches m base es"
  by (auto simp: fetches_def)

lemma safe_catalog_path: "safe_url_path catalog_path"
  by (simp add: safe_url_path_def catalog_path_def ascii_Cons url_char_def identifier_char_def)

lemma get_retro_vault_curl_fetches:
  assumes "safe_url_path path"
  shows "ensures (get_retro_vault_curl api client path limit response code)
    (\<lambda>(result, response', code') es. fetches 1 (base_url client) es \<and>
       (result = retro_vault_http_ok \<longrightarrow> length (buffer_data response') \<le> limit))"
proof -
  define b where "b = (retro_vault_buffer_free response)\<lparr>buffer_limit := limit\<rparr>"
  have b: "wf_buffer b" "buffer_limit b = limit"
    by (simp_all add: b_def wf_buffer_def retro_vault_buffer_free_def retro_vault_buffer_init_def)
  have bound: "length (buffer_data (receive_blocks bs b)) \<le> limit" for bs
    using receive_blocks_wf [OF b(1), of bs] receive_blocks_limit [of bs b] b(2) by (simp add: wf_buffer_def)
  show ?thesis
    unfolding get_retro_vault_curl_def
    by (intro io_rules ensures_perform_bind) (auto simp: fetches_def assms bound [unfolded b_def])
qed

subsection \<open>The catalogue\<close>

lemma each_value_invariant:
  "(\<And>s v s'. I s \<Longrightarrow> body s v = Some s' \<Longrightarrow> I s') \<Longrightarrow> each_value body it s = Some s' \<Longrightarrow> I s \<Longrightarrow> I s'"
proof (induction body it s arbitrary: s' rule: each_value.induct)
  case (1 body it s)
  note outer = "1.prems" and IH = "1.IH"
  obtain r it' where step: "next_retro_vault_json_array_value it = (r, it')"
    by (cases "next_retro_vault_json_array_value it")
  from outer(2) step consider "r = Inr None" "s' = s"
    | v s1 where "r = Inr (Some v)" "body s v = Some s1" "each_value body it' s1 = Some s'"
    by (subst (asm) each_value.simps) (auto split: sum.splits option.splits)
  then show ?case
  proof cases
    case 1
    with outer(3) show ?thesis by simp
  next
    case 2
    have "I s1"
      using outer(1) outer(3) 2(2) by blast
    then show ?thesis
      by (rule IH [of r it' "Some v" v s1, rotated -1]) (simp_all add: step 2 outer)
  qed
qed

lemma parse_catalog_length: "parse_catalog data = Some ps \<Longrightarrow> length ps \<le> 65535"
  by (auto simp: parse_catalog_def each_array_value_def split: option.splits if_splits
      dest!: each_value_invariant [where I = "\<lambda>ps. length ps \<le> 65535", rotated])

definition wf_retro_context :: "retro_vault_context \<Rightarrow> bool" where
  "wf_retro_context ctx \<longleftrightarrow> length (packages ctx) \<le> 65535 \<and>
     length (buffer_data (download_data ctx)) \<le> retro_vault_download_limit"

text \<open>What a step retro_keeps of the context: its client, and the invariant.\<close>

definition retro_keeps :: "retro_vault_context \<Rightarrow> retro_vault_context \<Rightarrow> bool" where
  "retro_keeps ctx ctx' \<longleftrightarrow> http ctx' = http ctx \<and> (wf_retro_context ctx \<longrightarrow> wf_retro_context ctx')"

lemma retro_keeps_refl [simp]: "retro_keeps ctx ctx"
  by (simp add: retro_keeps_def)

lemma retro_keeps_trans: "retro_keeps a b \<Longrightarrow> retro_keeps b c \<Longrightarrow> retro_keeps a c"
  by (simp add: retro_keeps_def)

definition catalog_step ::
  "retro_vault_context \<Rightarrow> u8 \<times> retro_vault_context \<Rightarrow> rv_event list \<Rightarrow> bool" where
  "catalog_step ctx r es \<longleftrightarrow> fetches 1 (base_url (http ctx)) es \<and> retro_keeps ctx (snd r) \<and>
     (packages ctx \<noteq> [] \<longrightarrow> fst r = RETRO_VAULT_STATUS_OK) \<and>
     (fst r \<noteq> RETRO_VAULT_STATUS_OK \<longrightarrow> snd r = ctx) \<and>
     download_data (snd r) = download_data ctx \<and> download_path (snd r) = download_path ctx"

lemma ensure_catalog_step: "ensures (ensure_catalog api ctx) (catalog_step ctx)"
  unfolding ensure_catalog_def
  by (intro io_rules ensures_bind [OF get_retro_vault_curl_fetches [OF safe_catalog_path]])
     (auto simp: catalog_step_def fetches_def retro_keeps_def wf_retro_context_def
       dest: parse_catalog_length split: option.splits if_splits)

subsection \<open>Downloads\<close>

lemma safe_identifier_url: "catalog_identifier_is_safe t \<Longrightarrow> list_all url_char t"
  by (auto simp: catalog_identifier_is_safe_def identifier_is_safe_def url_char_def list_all_iff)

lemma build_download_path_safe:
  assumes "build_download_path p ident d n = Some path"
  shows "safe_url_path path"
proof -
  have root: "list_all url_char (ascii ''/api/v1/catalog/packages/'')"
    "list_all url_char (ascii ''/downloads/'')" "list_all url_char (ascii ''/'')"
    "list_all url_char (ascii ''?platformId='')" "list_all url_char (ascii ''&modelId='')"
    "take 24 (ascii ''/api/v1/catalog/packages/'') = catalog_path"
    by (simp_all add: ascii_Cons url_char_def identifier_char_def catalog_path_def)
  show ?thesis
    using assms unfolding build_download_path_def Let_def safe_url_path_def
    by (auto simp: root safe_identifier_url split: if_splits option.splits)
qed

lemma fetch_download_fetches:
  assumes "safe_url_path path"
  shows "ensures (fetch_download api ctx path code)
    (\<lambda>(status, response, code') es. fetches 1 (base_url (http ctx)) es \<and>
       (status = RETRO_VAULT_STATUS_OK \<longrightarrow> length (buffer_data response) \<le> retro_vault_download_limit))"
  unfolding fetch_download_def
  by (intro io_rules ensures_bind [OF get_retro_vault_curl_fetches [OF assms]])
     (auto simp: http_error_status_def split: if_splits)

lemma fetch_or_disambiguate_fetches:
  assumes "safe_url_path path"
  shows "ensures (fetch_or_disambiguate api ctx package download path)
    (\<lambda>(status, response) es. fetches 2 (base_url (http ctx)) es \<and>
       (status = RETRO_VAULT_STATUS_OK \<longrightarrow> length (buffer_data response) \<le> retro_vault_download_limit))"
  unfolding fetch_or_disambiguate_def
  by (intro io_rules ensures_bind [OF fetch_download_fetches [OF assms]]
       ensures_bind [OF fetch_download_fetches [OF build_download_path_safe]])
     (auto intro: fetches_append fetches_mono)

definition download_step ::
  "retro_vault_context \<Rightarrow> u8 \<times> retro_vault_context \<Rightarrow> rv_event list \<Rightarrow> bool" where
  "download_step ctx r es \<longleftrightarrow> fetches 3 (base_url (http ctx)) es \<and> retro_keeps ctx (snd r)"

lemma ensure_download_step: "ensures (ensure_download api ctx p d) (download_step ctx)"
  unfolding ensure_download_def
  by (intro io_rules ensures_bind [OF ensure_catalog_step]
       ensures_bind [OF fetch_or_disambiguate_fetches [OF build_download_path_safe]])
     (auto simp: download_step_def catalog_step_def retro_keeps_def wf_retro_context_def
       intro: fetches_append fetches_mono)

subsection \<open>Responses\<close>

definition rv_response_ok :: "u8 \<Rightarrow> nat \<Rightarrow> bytes option \<Rightarrow> bool" where
  "rv_response_ok opcode capacity r =
     (case r of
        None \<Rightarrow> True
      | Some reply \<Rightarrow> 2 \<le> length reply \<and> length reply \<le> capacity \<and> reply ! 0 = opcode OR 0x80)"

lemma write_error_response_ok [simp]:
  "rv_response_ok opcode capacity (write_error_response opcode status capacity)"
  by (simp add: rv_response_ok_def write_error_response_def)

lemma page_reply_ok [simp]:
  "5 + length body \<le> capacity \<Longrightarrow> rv_response_ok opcode capacity (Some (page_reply opcode next n body))"
  by (simp add: rv_response_ok_def page_reply_def)

lemma make_list_entry_le: "length (make_list_entry p capacity) \<le> capacity"
proof (cases "make_list_entry p capacity = []")
  case False
  let ?room = "capacity - length (package_id p) - 2"
  have "cut_size (package_name p) ?room \<le> ?room"
    using cut_size_bounds by blast
  with False show ?thesis
    by (auto simp: make_list_entry_def Let_def split: if_splits)
qed simp

lemma catalog_loop_le:
  "catalog_loop matches cursor room ps i n body = Some (next, n', body') \<Longrightarrow>
     length body \<le> room \<Longrightarrow> length body' \<le> room"
proof (induction ps arbitrary: i n body)
  case (Cons p ps)
  have entry: "length (body @ make_list_entry p k) \<le> room" if "k \<le> room - length body" for k
    using make_list_entry_le [of p k] that Cons.prems(2) by simp
  then show ?case
    using Cons by (auto simp: Let_def split: if_splits)
qed simp

lemma write_catalog_page_ok:
  "rv_response_ok opcode capacity (write_catalog_page ps opcode cursor platform model sought capacity)"
  by (auto simp: write_catalog_page_def rv_response_ok_def [of _ _ None]
      split: option.splits prod.splits dest!: catalog_loop_le intro!: page_reply_ok)

lemma info_loop_le:
  "info_loop p room cursor n body = Inr (next, n', body') \<Longrightarrow> length body \<le> room \<Longrightarrow>
     length body' \<le> room"
proof (induction p room cursor n body rule: info_loop.induct)
  case (1 p room cursor n body)
  note entry = make_info_record_le [of p cursor "room - length body"]
  from "1.prems" entry show ?case
    by (subst (asm) info_loop.simps) (auto simp: Let_def split: if_splits intro: "1.IH")
qed

lemma write_info_page_ok: "rv_response_ok opcode capacity (write_info_page opcode p cursor capacity)"
  by (auto simp: write_info_page_def split: sum.splits prod.splits dest!: info_loop_le intro!: page_reply_ok)

lemma download_reply_ok:
  "11 \<le> capacity \<Longrightarrow> rv_response_ok opcode capacity (download_reply opcode offset most data capacity)"
  by (auto simp: download_reply_def rv_response_ok_def [of _ _ "Some _"] Let_def)

lemma handle_capabilities_ok: "rv_response_ok opcode capacity (handle_capabilities opcode capacity)"
  by (simp add: handle_capabilities_def rv_response_ok_def)

definition rv_settled ::
  "retro_vault_context \<Rightarrow> u8 \<Rightarrow> nat \<Rightarrow> rv_outcome \<Rightarrow> rv_event list \<Rightarrow> bool" where
  "rv_settled ctx opcode capacity r es \<longleftrightarrow>
     rv_response_ok opcode capacity (fst r) \<and> retro_keeps ctx (snd r) \<and> fetches 3 (base_url (http ctx)) es"

lemma rv_settled_return [simp]:
  "rv_response_ok opcode capacity r \<Longrightarrow> rv_settled ctx opcode capacity (r, ctx) []"
  by (simp add: rv_settled_def)

lemma handle_list_or_search_settled:
  "ensures (handle_list_or_search api ctx opcode request capacity) (rv_settled ctx opcode capacity)"
  unfolding handle_list_or_search_def
  by (intro io_rules ensures_bind [OF ensure_catalog_step])
     (auto simp: rv_settled_def catalog_step_def write_catalog_page_ok intro: fetches_mono)

lemma handle_info_settled:
  "ensures (handle_info api ctx opcode request capacity) (rv_settled ctx opcode capacity)"
  unfolding handle_info_def
  by (intro io_rules ensures_bind [OF ensure_catalog_step])
     (auto simp: rv_settled_def catalog_step_def write_info_page_ok intro: fetches_mono split: option.splits)

lemma handle_download_settled:
  "ensures (handle_download api ctx opcode request capacity) (rv_settled ctx opcode capacity)"
  unfolding handle_download_def
  by (intro io_rules ensures_bind [OF ensure_download_step])
     (auto simp: rv_settled_def download_step_def download_reply_ok split: if_splits)

lemma handle_retro_vault_request_settled:
  "ensures (handle_retro_vault_request api ctx request capacity)
     (\<lambda>r es. rv_settled ctx (request ! 0) capacity r es \<and> (fst r \<noteq> None \<longrightarrow> request \<noteq> []))"
  unfolding handle_retro_vault_request_def Let_def
  by (intro io_rules ensures_mono [OF handle_list_or_search_settled]
        ensures_mono [OF handle_info_settled] ensures_mono [OF handle_download_settled])
     (auto simp: handle_capabilities_ok rv_response_ok_def [of _ _ None])

lemma handle_retro_vault_packet_settled:
  "ensures (handle_retro_vault_packet api st request capacity)
     (\<lambda>r es. rv_settled (rv_context st) (request ! 0) capacity (fst r, rv_context (snd r)) es \<and>
        started (snd r) = started st \<and> (fst r \<noteq> None \<longrightarrow> request \<noteq> []))"
  unfolding handle_retro_vault_packet_def
  by (intro io_rules ensures_bind [OF handle_retro_vault_request_settled])
     (auto simp: rv_response_ok_def [of _ _ None])

interpretation retro: packet_service "\<lambda>request capacity r.
  \<exists>api st s. fst (fst (run_state (handle_retro_vault_packet api st request capacity) s)) = r"
proof unfold_locales
  fix request capacity reply
  assume "\<exists>api st s.
    fst (fst (run_state (handle_retro_vault_packet api st request capacity) s)) = Some reply"
  then obtain api st s st' s' where
    run: "run_state (handle_retro_vault_packet api st request capacity) s = ((Some reply, st'), s')"
    by (metis prod.collapse)
  obtain es where "rv_settled (rv_context st) (request ! 0) capacity (Some reply, rv_context st') es"
    and "request \<noteq> []"
    by (rule ensuresE [OF handle_retro_vault_packet_settled run]) (simp, blast)
  then show "request \<noteq> [] \<and> 2 \<le> length reply \<and> length reply \<le> capacity \<and>
      hd reply = hd request OR response_bit"
    by (cases reply) (simp_all add: rv_settled_def rv_response_ok_def response_bit_def hd_conv_nth)
qed

subsection \<open>The life of the plugin\<close>

definition retro_vault_plugin_static :: retro_vault_plugin_state where
  "retro_vault_plugin_static =
     \<lparr>rv_context = \<lparr>http = \<lparr>base_url = [], initialized = False\<rparr>, packages = [], catalog_fetched_at = 0,
        catalog_cache_seconds = 0, download_data = retro_vault_buffer_init, download_path = None\<rparr>,
      started = False\<rparr>"

fun rv_serve ::
  "rv_api \<Rightarrow> retro_vault_plugin_state \<Rightarrow> (bytes \<times> nat) list \<Rightarrow> (rv_event, retro_vault_plugin_state) io" where
  "rv_serve api st [] = State_Monad.return st"
| "rv_serve api st ((request, capacity) # packets) = do {
     (_, st) \<leftarrow> handle_retro_vault_packet api st request capacity;
     rv_serve api st packets }"

definition rv_serving ::
  "nat \<Rightarrow> retro_vault_plugin_state \<Rightarrow> retro_vault_plugin_state \<Rightarrow> rv_event list \<Rightarrow> bool" where
  "rv_serving n st st' es \<longleftrightarrow> started st' = started st \<and> retro_keeps (rv_context st) (rv_context st') \<and>
     fetches (3 * n) (base_url (http (rv_context st))) es"

lemma rv_serve_serving: "ensures (rv_serve api st packets) (rv_serving (length packets) st)"
proof (induction packets arbitrary: st)
  case Nil
  show ?case by (auto intro!: io_rules simp: rv_serving_def)
next
  case (Cons packet packets)
  obtain request capacity where packet: "packet = (request, capacity)"
    by (cases packet)
  show ?case
    unfolding packet rv_serve.simps
    by (intro io_rules ensures_bind [OF handle_retro_vault_packet_settled] ensures_mono [OF Cons.IH])
       (auto simp: rv_serving_def rv_settled_def retro_keeps_def intro: fetches_append)
qed

text \<open>A run of the plugin: start, packets, stop.\<close>

definition retro_life ::
  "rv_api \<Rightarrow> (bytes \<times> nat) list \<Rightarrow> (rv_event, retro_vault_plugin_state \<times> retro_vault_plugin_state) io" where
  "retro_life api packets = do {
     (_, st) \<leftarrow> start_retro_vault_plugin api retro_vault_plugin_static;
     served \<leftarrow> rv_serve api st packets;
     (_, st) \<leftarrow> stop_retro_vault_plugin api served;
     State_Monad.return (served, st) }"

text \<open>A run without \<open>curl_global_init\<close> makes no call; otherwise its requests lie between it and the cleanup.\<close>

definition confined_run :: "bytes option \<Rightarrow> nat \<Rightarrow> rv_event list \<Rightarrow> bool" where
  "confined_run base n es =
     (case base of
        None \<Rightarrow> es = []
      | Some base \<Rightarrow> es = [Rv_global_init False] \<or>
          (\<exists>requests. es = Rv_global_init True # requests @ [Rv_global_cleanup] \<and> fetches (3 * n) base requests))"

lemma rv_serve_stopped:
  "\<not> started st \<Longrightarrow> rv_serve api st packets = State_Monad.return st"
  by (induction packets) (auto simp: handle_retro_vault_packet_def)

lemma wf_initial [simp]:
  "wf_retro_context (init_retro_vault_context curl)" "wf_retro_context (free_retro_vault_context ctx)"
  by (simp_all add: wf_retro_context_def init_retro_vault_context_def free_retro_vault_context_def
      retro_vault_buffer_init_def retro_vault_buffer_free_def)

definition started_with :: "bytes option \<Rightarrow> retro_vault_plugin_state \<Rightarrow> rv_event list \<Rightarrow> bool" where
  "started_with base st es \<longleftrightarrow>
     (\<not> started st \<and> wf_retro_context (rv_context st) \<and> es = (if base = None then [] else [Rv_global_init False])) \<or>
     (started st \<and> base \<noteq> None \<and> es = [Rv_global_init True] \<and>
      rv_context st = init_retro_vault_context \<lparr>base_url = the base, initialized = True\<rparr>)"

lemma start_ensures:
  "ensures (start_retro_vault_plugin api retro_vault_plugin_static)
     (\<lambda>r es. started_with (configured_base (rv_getenv api)) (snd r) es)"
  unfolding start_retro_vault_plugin_def init_retro_vault_curl_client_def
  by (intro io_rules) (auto simp: started_with_def retro_vault_plugin_static_def)

definition served_with ::
  "bytes option \<Rightarrow> nat \<Rightarrow> retro_vault_plugin_state \<Rightarrow> rv_event list \<Rightarrow> bool" where
  "served_with base n st es \<longleftrightarrow> wf_retro_context (rv_context st) \<and>
     ((\<not> started st \<and> es = (if base = None then [] else [Rv_global_init False])) \<or>
      (started st \<and> initialized (http (rv_context st)) \<and> base \<noteq> None \<and>
       (\<exists>requests. es = Rv_global_init True # requests \<and> fetches (3 * n) (the base) requests)))"

lemma serve_ensures:
  assumes "started_with base st es"
  shows "ensures (rv_serve api st packets) (\<lambda>st' es'. served_with base (length packets) st' (es @ es'))"
proof (cases "started st")
  case False
  then show ?thesis
    using assms by (auto simp: rv_serve_stopped started_with_def served_with_def intro!: io_rules)
next
  case True
  have http: "http (rv_context st) = \<lparr>base_url = the base, initialized = True\<rparr>"
    and wf: "wf_retro_context (rv_context st)" and es: "base \<noteq> None" "es = [Rv_global_init True]"
    using assms True wf_initial(1)
    by (auto simp: started_with_def) (simp add: init_retro_vault_context_def)
  show ?thesis
    by (rule ensures_mono [OF rv_serve_serving])
       (use http wf es True in \<open>auto simp: rv_serving_def served_with_def retro_keeps_def\<close>)
qed

lemma retro_life_ensures:
  "ensures (retro_life api packets) (\<lambda>(served, st) es.
     confined_run (configured_base (rv_getenv api)) (length packets) es \<and>
     wf_retro_context (rv_context served) \<and> \<not> started st)"
  unfolding retro_life_def stop_retro_vault_plugin_def free_retro_vault_curl_client_def
  by (intro io_rules ensures_bind [OF start_ensures] ensures_bind [OF serve_ensures])
     (auto simp: served_with_def confined_run_def split: if_splits option.splits)

subsection \<open>Properties\<close>

text \<open>How many addresses libcurl has turned to.\<close>

definition addresses_visited :: "rv_event list \<Rightarrow> nat" where
  "addresses_visited es = (\<Sum>e\<leftarrow>es. case e of Rv_perform _ t \<Rightarrow> Suc (length (redirects t)) | _ \<Rightarrow> 0)"

lemma fetches_visits: "fetches n base es \<Longrightarrow> addresses_visited es \<le> 6 * n"
proof -
  have "addresses_visited es \<le> 6 * length (filter is_perform es)" if "list_all (fetch_ok base) es"
    using that
  proof (induction es)
    case (Cons e es)
    then show ?case
      by (cases e) (auto simp: addresses_visited_def fetch_ok_def is_perform_def Let_def)
  qed (simp add: addresses_visited_def)
  then show "fetches n base es \<Longrightarrow> addresses_visited es \<le> 6 * n"
    by (fastforce simp: fetches_def)
qed

lemma confined_visits: "confined_run base n es \<Longrightarrow> addresses_visited es \<le> 18 * n"
proof -
  have "addresses_visited (Rv_global_init True # requests @ [Rv_global_cleanup]) = addresses_visited requests"
    for requests by (simp add: addresses_visited_def)
  then show "confined_run base n es \<Longrightarrow> addresses_visited es \<le> 18 * n"
    using fetches_visits [of "3 * n"]
    by (auto simp: confined_run_def addresses_visited_def split: option.splits)
qed

text \<open>
  C13. Over the life of the plugin, whatever packets arrive and whatever the catalogue and libcurl
  deliver, the program asks libcurl only for addresses that consist of the configured base, the path
  of the catalogue and characters that cannot leave it (letters, digits and \<open>-_/?=&\<close>: no dot, no
  percent sign, no colon). A packet costs at most three transfers. libcurl is told to follow
  redirects, so what the servers answer may take it to addresses the program did not ask for, but
  at most five times in a transfer, so that a packet makes it turn to at most 18 addresses. Every
  handle is given back, and libcurl is set up once before the transfers and cleaned up once after
  them, or not used at all.
\<close>

theorem retro_life_confined:
  "ensures (retro_life api packets)
     (\<lambda>_ es. confined_run (configured_base (rv_getenv api)) (length packets) es \<and>
        addresses_visited es \<le> 18 * length packets)"
  by (rule ensures_mono [OF retro_life_ensures]) (auto intro: confined_visits)

text \<open>
  C38. While the plugin serves, the catalogue holds at most 65535 packages, so that every index of a
  package is below the cursor that marks the end, and the cached download at most 64 MiB, so that
  its size fits the 32-bit field of the protocol.
\<close>

theorem retro_context_bounded:
  "ensures (retro_life api packets)
     (\<lambda>(served, _) _. length (packages (rv_context served)) \<le> 65535 \<and>
        length (buffer_data (download_data (rv_context served))) \<le> 64 * 1024 * 1024)"
  by (rule ensures_mono [OF retro_life_ensures])
     (auto simp: wf_retro_context_def retro_vault_download_limit_def)

text \<open>
  Transfers. libcurl's documentation promises that a transfer ends in an error when the write
  callback does not take a whole block; then a successful transfer delivers all its data.
\<close>

fun all_taken :: "bytes list \<Rightarrow> retro_vault_buffer \<Rightarrow> bool" where
  "all_taken [] buffer = True"
| "all_taken (b # bs) buffer =
     (let (taken, buffer) = receive_http_data b buffer in taken = length b \<and> all_taken bs buffer)"

definition stops_on_refusal :: "rv_api \<Rightarrow> nat \<Rightarrow> bool" where
  "stops_on_refusal api limit \<longleftrightarrow>
     (\<forall>h options. curl_ok (rv_perform api h options) \<longrightarrow>
        all_taken (blocks (rv_perform api h options)) (retro_vault_buffer_init\<lparr>buffer_limit := limit\<rparr>))"

lemma receive_http_data_fst:
  "fst (receive_http_data data b) = (if fst (retro_vault_buffer_append b data) then length data else 0)"
  by (simp add: receive_http_data_def split: prod.split)

lemma all_taken_data:
  "all_taken bs b \<Longrightarrow> buffer_data (receive_blocks bs b) = buffer_data b @ concat bs"
proof (induction bs arbitrary: b)
  case (Cons d bs)
  have "buffer_data (snd (receive_http_data d b)) = buffer_data b @ d"
    using Cons.prems append_cases(3) [of b d]
    by (auto simp: receive_http_data_snd receive_http_data_fst Let_def split: if_splits prod.splits
        dest!: arg_cong [of "receive_http_data d b" _ fst])
  moreover have "all_taken bs (snd (receive_http_data d b))"
    using Cons.prems by (simp split: prod.splits)
  ultimately show ?case
    using Cons.IH by simp
qed simp

lemma overflow_means_refused:
  "length (buffer_data b) + length (concat bs) \<le> buffer_limit b \<Longrightarrow>
     overflowed (receive_blocks bs b) = overflowed b"
proof (induction bs arbitrary: b)
  case (Cons d bs)
  then have "fst (retro_vault_buffer_append b d)"
    by (simp add: append_cases(1))
  with Cons show ?case
    by (simp add: receive_http_data_snd append_cases)
qed simp

lemma overflowed_mono: "overflowed b \<Longrightarrow> overflowed (receive_blocks bs b)"
  by (induction bs arbitrary: b) (simp_all add: receive_http_data_snd append_cases(4))

lemma refused_means_overflow:
  "length (buffer_data b) + length (concat bs) > buffer_limit b \<Longrightarrow>
     length (buffer_data b) \<le> buffer_limit b \<Longrightarrow> overflowed (receive_blocks bs b)"
proof (induction bs arbitrary: b)
  case (Cons d bs)
  show ?case
  proof (cases "fst (retro_vault_buffer_append b d)")
    case True
    with Cons show ?thesis
      by (simp add: receive_http_data_snd append_cases)
  next
    case False
    then show ?thesis
      by (simp add: receive_http_data_snd append_cases(4) overflowed_mono)
  qed
qed simp

definition transfer_outcome ::
  "nat \<Rightarrow> int \<times> retro_vault_buffer \<times> int \<Rightarrow> rv_event list \<Rightarrow> bool" where
  "transfer_outcome limit outcome es =
     (case outcome of (result, response, code) \<Rightarrow>
      case es of
        [Rv_easy_init True, Rv_perform options t, Rv_easy_cleanup] \<Rightarrow>
          code = response_code t \<and> length (buffer_data response) \<le> limit \<and>
          result = (if curl_ok t then 0 else if length (concat (blocks t)) \<le> limit then -1 else -2) \<and>
          (if curl_ok t then buffer_data response = concat (blocks t) else True)
      | _ \<Rightarrow> result = -1)"

text \<open>
  C39. A GET either makes no transfer and reports an error, or makes one, and then: it reports
  success exactly when libcurl does, and the response is the concatenation of the blocks; a failed
  transfer is reported as too large when its data went over the limit and as an error otherwise;
  the buffer never holds more than the limit, and the handle is given back. libcurl is assumed to fail a transfer whose data was
  refused.
\<close>

theorem http_transfer_exact:
  assumes "stops_on_refusal api limit"
  shows "ensures (get_retro_vault_curl api client path limit response code) (transfer_outcome limit)"
proof -
  define b where "b = (retro_vault_buffer_free response)\<lparr>buffer_limit := limit\<rparr>"
  have b: "wf_buffer b" "buffer_limit b = limit" "buffer_data b = []" "\<not> overflowed b"
    by (simp_all add: b_def wf_buffer_def retro_vault_buffer_free_def retro_vault_buffer_init_def)
  have bound: "length (buffer_data (receive_blocks bs b)) \<le> limit" for bs
    using receive_blocks_wf [OF b(1), of bs] receive_blocks_limit [of bs b] b(2) by (simp add: wf_buffer_def)
  have overflow: "overflowed (receive_blocks bs b) \<longleftrightarrow> \<not> length (concat bs) \<le> limit" for bs
    using overflow_means_refused [of b bs] refused_means_overflow [of b bs] b by fastforce
  define honest where "honest t \<longleftrightarrow> (curl_ok t \<longrightarrow> all_taken (blocks t) b)" for t :: transfer
  have perform: "honest ((rv_perform api h options)\<lparr>redirects := r\<rparr>)" for h options r
    using assms unfolding stops_on_refusal_def honest_def b_def retro_vault_buffer_free_def
    by (simp add: retro_vault_buffer_init_def)
  have data: "buffer_data (receive_blocks (blocks t) b) = concat (blocks t)" if "honest t" "curl_ok t" for t
    using all_taken_data [of "blocks t" b] that b(3) by (simp add: honest_def)
  let ?rest = "\<lambda>t. State_Monad.bind (emit Rv_easy_cleanup) (\<lambda>_. State_Monad.return
        (if curl_ok t then retro_vault_http_ok
         else if overflowed (receive_blocks (blocks t) b) then retro_vault_http_too_large
         else retro_vault_http_error, receive_blocks (blocks t) b, response_code t))"
  have transfer: "ensures (State_Monad.bind (easy_perform api options) ?rest)
      (\<lambda>r es. transfer_outcome limit r (Rv_easy_init True # es))" for options
    unfolding easy_perform_def Let_def
    by (rule ensures_query_sat_bind [where P = honest, OF perform], rule ensures_emit_bind, rule ensures_return)
       (auto simp: transfer_outcome_def bound overflow data)
  have none: "transfer_outcome limit (retro_vault_http_error, r, c) []"
    "transfer_outcome limit (retro_vault_http_error, r, c) [Rv_easy_init False]" for r c
    by (simp_all add: transfer_outcome_def)
  have handle: "ensures (if \<not> curl then State_Monad.return (retro_vault_http_error, b, 0)
      else State_Monad.bind (easy_perform api options) ?rest)
      (\<lambda>r es. transfer_outcome limit r (Rv_easy_init curl # es))" for curl options
    using transfer none(2) by (cases curl) (simp_all add: ensures_return)
  show ?thesis
    unfolding get_retro_vault_curl_def Let_def b_def [symmetric]
    by (rule ensures_if, rule ensures_return, rule none(1),
        rule ensures_if, rule ensures_return, rule none(1), rule ensures_query_bind, rule handle)
qed

definition demo_rv_api :: rv_api where
  "demo_rv_api = \<lparr>rv_clock = (\<lambda>_. 1000), rv_getenv = None, rv_global_init = (\<lambda>_. True),
     rv_easy_init = (\<lambda>_. True),
     rv_perform = (\<lambda>_ _. \<lparr>redirects = [], blocks = [ascii ''['', ascii '']''], curl_ok = True, response_code = 200\<rparr>)\<rparr>"

theorem http_transfer_exact_witness:
  "ensures (get_retro_vault_curl demo_rv_api \<lparr>base_url = default_url, initialized = True\<rparr> catalog_path 8
      retro_vault_buffer_init 0) (transfer_outcome 8)"
proof (rule http_transfer_exact)
  show "stops_on_refusal demo_rv_api 8"
    by (simp add: stops_on_refusal_def demo_rv_api_def ascii_Cons receive_http_data_def
        retro_vault_buffer_append_def retro_vault_buffer_init_def Let_def)
qed

end
