(* ===== verification/Client_Core.thy ===== *)
theory Client_Core
  imports Packet_Service
begin

text \<open>
  The synchronous client core, \<open>lib/client/portable/client.c\<close> and \<open>internal.c\<close>: one request and
  its response over a libsquid socket. libsquid and the caller's idle callback are the oracle
  \<open>cl_api\<close>; as in the runtime, \<open>squid_recv\<close> delivers at most the bytes asked for. The loop
  that waits for bytes ends only when bytes arrive, the callback cancels or the link changes, so
  it takes fuel; \<open>None\<close> is running out of it. \<open>packet\<close> is the whole workspace, one byte longer
  than the capacity; sizes of 16 bits are natural numbers, since every one of them is at most 256.
\<close>

definition SQUID_CLIENT_PACKET_MAX :: nat where "SQUID_CLIENT_PACKET_MAX = 255"
definition SQUID_CLIENT_ERROR_ARGUMENT :: int where "SQUID_CLIENT_ERROR_ARGUMENT = -1"
definition SQUID_CLIENT_ERROR_LINK :: int where "SQUID_CLIENT_ERROR_LINK = -2"
definition SQUID_CLIENT_ERROR_IO :: int where "SQUID_CLIENT_ERROR_IO = -3"
definition SQUID_CLIENT_ERROR_PROTOCOL :: int where "SQUID_CLIENT_ERROR_PROTOCOL = -4"
definition SQUID_CLIENT_ERROR_OVERFLOW :: int where "SQUID_CLIENT_ERROR_OVERFLOW = -5"
definition SQUID_CLIENT_ERROR_CANCELLED :: int where "SQUID_CLIENT_ERROR_CANCELLED = -6"

lemmas client_constants [simp] = SQUID_CLIENT_PACKET_MAX_def SQUID_CLIENT_ERROR_ARGUMENT_def
  SQUID_CLIENT_ERROR_LINK_def SQUID_CLIENT_ERROR_IO_def SQUID_CLIENT_ERROR_PROTOCOL_def
  SQUID_CLIENT_ERROR_OVERFLOW_def SQUID_CLIENT_ERROR_CANCELLED_def

datatype cl_event =
    Cl_Idle bool
  | Cl_Link bool
  | Cl_Epoch u8
  | Cl_Send int bytes bool
  | Cl_Recv int nat "bytes option"

record cl_api =
  cl_idle :: "cl_event list \<Rightarrow> bool"
  cl_link_is_up :: "cl_event list \<Rightarrow> bool"
  cl_link_epoch :: "cl_event list \<Rightarrow> u8"
  cl_send :: "cl_event list \<Rightarrow> int \<Rightarrow> bytes \<Rightarrow> bool"
  cl_recv :: "cl_event list \<Rightarrow> int \<Rightarrow> nat \<Rightarrow> bytes option"

record squid_client =
  client_fd :: int
  packet :: bytes
  packet_capacity :: nat
  has_idle :: bool

definition squid_client_init :: "int \<Rightarrow> bytes \<Rightarrow> nat \<Rightarrow> bool \<Rightarrow> squid_client" where
  "squid_client_init socket workspace capacity idle =
     \<lparr>client_fd = socket, packet = workspace, packet_capacity = capacity, has_idle = idle\<rparr>"

text \<open>Stores into the workspace from an index on.\<close>

definition put_packet :: "squid_client \<Rightarrow> nat \<Rightarrow> bytes \<Rightarrow> squid_client" where
  "put_packet client i bs = client\<lparr>packet := buf_write (packet client) i bs\<rparr>"

subsection \<open>Waiting for bytes\<close>

definition wait_for_progress :: "cl_api \<Rightarrow> squid_client \<Rightarrow> u8 \<Rightarrow> (cl_event, int) io" where
  "wait_for_progress api client epoch = do {
     cancelled \<leftarrow> (if has_idle client then query (cl_idle api) Cl_Idle else State_Monad.return False);
     if cancelled then State_Monad.return SQUID_CLIENT_ERROR_CANCELLED
     else do {
       up \<leftarrow> query (cl_link_is_up api) Cl_Link;
       if \<not> up then State_Monad.return SQUID_CLIENT_ERROR_LINK
       else do {
         now \<leftarrow> query (cl_link_epoch api) Cl_Epoch;
         State_Monad.return (if now \<noteq> epoch then SQUID_CLIENT_ERROR_LINK else 0) } } }"

definition client_recv :: "cl_api \<Rightarrow> int \<Rightarrow> nat \<Rightarrow> (cl_event, bytes option) io" where
  "client_recv api fd n = query (\<lambda>h. map_option (take n) (cl_recv api h fd n)) (Cl_Recv fd n)"

text \<open>The bytes received so far are \<open>acc\<close>; the result is C's return value and all bytes received.\<close>

fun receive_bytes ::
  "cl_api \<Rightarrow> nat \<Rightarrow> squid_client \<Rightarrow> nat \<Rightarrow> u8 \<Rightarrow> bytes \<Rightarrow> (cl_event, (int \<times> bytes) option) io" where
  "receive_bytes api 0 client wanted epoch acc =
     State_Monad.return (if length acc < wanted then None else Some (0, acc))"
| "receive_bytes api (Suc fuel) client wanted epoch acc =
     (if length acc < wanted then do {
        result \<leftarrow> client_recv api (client_fd client) (wanted - length acc);
        case result of
          None \<Rightarrow> State_Monad.return (Some (SQUID_CLIENT_ERROR_IO, acc))
        | Some d \<Rightarrow>
            (let acc = acc @ d in
             if length acc = wanted then State_Monad.return (Some (0, acc))
             else do {
               wait_result \<leftarrow> wait_for_progress api client epoch;
               if wait_result \<noteq> 0 then State_Monad.return (Some (wait_result, acc))
               else receive_bytes api fuel client wanted epoch acc }) }
      else State_Monad.return (Some (0, acc)))"

subsection \<open>One exchange\<close>

text \<open>The result of an operation: the return value and the client, or fuel exhaustion.\<close>

type_synonym cl_result = "(int \<times> squid_client) option"

text \<open>Reading a response that does not fit, in pieces of the workspace's capacity.\<close>

function drain_response ::
  "cl_api \<Rightarrow> nat \<Rightarrow> squid_client \<Rightarrow> nat \<Rightarrow> u8 \<Rightarrow> (cl_event, cl_result) io" where
  "drain_response api fuel client remaining epoch =
     (if remaining = 0 \<or> packet_capacity client = 0
      then State_Monad.return (Some (SQUID_CLIENT_ERROR_OVERFLOW, client))
      else let part = (if remaining > packet_capacity client then packet_capacity client else remaining)
        in do {
          result \<leftarrow> receive_bytes api fuel client part epoch [];
          case result of
            None \<Rightarrow> State_Monad.return None
          | Some (r, d) \<Rightarrow>
              (if r \<noteq> 0 then State_Monad.return (Some (r, put_packet client 0 d))
               else drain_response api fuel (put_packet client 0 d) (remaining - part) epoch) })"
  by pat_completeness auto
termination
  by (relation "measure (\<lambda>(_, _, _, remaining, _). remaining)") auto

declare drain_response.simps [simp del]

definition receive_response ::
  "cl_api \<Rightarrow> nat \<Rightarrow> squid_client \<Rightarrow> u8 \<Rightarrow> (cl_event, cl_result) io" where
  "receive_response api fuel client epoch = do {
     header \<leftarrow> receive_bytes api fuel client 1 epoch [];
     case header of
       None \<Rightarrow> State_Monad.return None
     | Some (r, d) \<Rightarrow>
         (if r \<noteq> 0 then State_Monad.return (Some (r, client))
          else let response_size = hd d in
            if response_size = 0 then State_Monad.return (Some (SQUID_CLIENT_ERROR_PROTOCOL, client))
            else if unat response_size > packet_capacity client then
              drain_response api fuel client (unat response_size) epoch
            else do {
              body \<leftarrow> receive_bytes api fuel client (unat response_size) epoch [];
              State_Monad.return (case body of
                None \<Rightarrow> None
              | Some (r, d) \<Rightarrow>
                  Some (if r = 0 then int (unat response_size) else r, put_packet client 0 d)) }) }"

definition squid_client_exchange ::
  "cl_api \<Rightarrow> nat \<Rightarrow> squid_client \<Rightarrow> nat \<Rightarrow> (cl_event, cl_result) io" where
  "squid_client_exchange api fuel client request_size =
     (if packet_capacity client = 0 \<or> packet_capacity client > SQUID_CLIENT_PACKET_MAX \<or>
         request_size = 0 \<or> request_size > packet_capacity client
      then State_Monad.return (Some (SQUID_CLIENT_ERROR_ARGUMENT, client))
      else do {
        up \<leftarrow> query (cl_link_is_up api) Cl_Link;
        if \<not> up then State_Monad.return (Some (SQUID_CLIENT_ERROR_LINK, client))
        else do {
          epoch \<leftarrow> query (cl_link_epoch api) Cl_Epoch;
          let client = put_packet client 0 [of_nat request_size] in do {
            sent \<leftarrow> query (\<lambda>h. cl_send api h (client_fd client) (take (request_size + 1) (packet client)))
              (Cl_Send (client_fd client) (take (request_size + 1) (packet client)));
            if \<not> sent then State_Monad.return (Some (SQUID_CLIENT_ERROR_IO, client))
            else receive_response api fuel client epoch } } })"

subsection \<open>Helpers of the typed clients\<close>

definition squid_client_read_u16 :: "bytes \<Rightarrow> u16" where
  "squid_client_read_u16 bs = ucast (bs ! 0) OR push_bit 8 (ucast (bs ! 1))"

definition squid_client_read_u32 :: "bytes \<Rightarrow> u32" where
  "squid_client_read_u32 bs = ucast (bs ! 0) OR push_bit 8 (ucast (bs ! 1)) OR
     push_bit 16 (ucast (bs ! 2)) OR push_bit 24 (ucast (bs ! 3))"

definition squid_client_write_u16 :: "u16 \<Rightarrow> bytes" where
  "squid_client_write_u16 v = [ucast v, ucast (drop_bit 8 v)]"

definition squid_client_write_u32 :: "u32 \<Rightarrow> bytes" where
  "squid_client_write_u32 v =
     [ucast v, ucast (drop_bit 8 v), ucast (drop_bit 16 v), ucast (drop_bit 24 v)]"

lemma client_codec [simp]:
  "squid_client_read_u16 = read_u16" "squid_client_read_u32 = read_u32"
  "squid_client_write_u16 = write_u16" "squid_client_write_u32 = write_u32"
  by (simp_all add: fun_eq_iff squid_client_read_u16_def squid_client_read_u32_def
      squid_client_write_u16_def squid_client_write_u32_def read_u16_def read_u32_def
      write_u16_def write_u32_def)

text \<open>\<open>text\<close> is \<open>None\<close> for \<open>NULL\<close>; \<open>maximum\<close> is a byte.\<close>

definition squid_client_text_size :: "bytes option \<Rightarrow> nat \<Rightarrow> int" where
  "squid_client_text_size txt maximum =
     (case txt of
        None \<Rightarrow> 0
      | Some t \<Rightarrow> if length t > maximum then SQUID_CLIENT_ERROR_ARGUMENT else int (length t))"

text \<open>The third component is \<open>*response_size\<close>, meaningful when the result is 0.\<close>

definition response_result :: "u8 \<Rightarrow> nat \<Rightarrow> int \<times> squid_client \<Rightarrow> int \<times> squid_client \<times> nat" where
  "response_result opcode minimum_size r =
     (case r of (result, client) \<Rightarrow>
        if result < 0 then (result, client, 0)
        else if result < 2 \<or> packet client ! 0 \<noteq> opcode OR response_bit
        then (SQUID_CLIENT_ERROR_PROTOCOL, client, 0)
        else if packet client ! 1 \<noteq> 0 then (uint (packet client ! 1), client, 0)
        else if result < int minimum_size then (SQUID_CLIENT_ERROR_PROTOCOL, client, 0)
        else (0, client, nat result))"

definition squid_client_response ::
  "cl_api \<Rightarrow> nat \<Rightarrow> squid_client \<Rightarrow> nat \<Rightarrow> u8 \<Rightarrow> nat \<Rightarrow>
     (cl_event, (int \<times> squid_client \<times> nat) option) io" where
  "squid_client_response api fuel client request_size opcode minimum_size = do {
     result \<leftarrow> squid_client_exchange api fuel client request_size;
     State_Monad.return (map_option (response_result opcode minimum_size) result) }"

subsection \<open>The stream contract\<close>

fun cl_received_of :: "cl_event \<Rightarrow> bytes" where
  "cl_received_of (Cl_Recv _ _ d) = (case d of None \<Rightarrow> [] | Some x \<Rightarrow> x)"
| "cl_received_of _ = []"

fun cl_sent_of :: "cl_event \<Rightarrow> bytes" where
  "cl_sent_of (Cl_Send _ f ok) = (if ok then f else [])"
| "cl_sent_of _ = []"

definition cl_received :: "cl_event list \<Rightarrow> bytes" where
  "cl_received es = concat (map cl_received_of es)"

definition cl_sent :: "cl_event list \<Rightarrow> bytes" where
  "cl_sent es = concat (map cl_sent_of es)"

lemma cl_observe_simps [simp]:
  "cl_received [] = []" "cl_received (e # es) = cl_received_of e @ cl_received es"
  "cl_received (es @ es') = cl_received es @ cl_received es'"
  "cl_sent [] = []" "cl_sent (e # es) = cl_sent_of e @ cl_sent es"
  "cl_sent (es @ es') = cl_sent es @ cl_sent es'"
  by (simp_all add: cl_received_def cl_sent_def)

lemma ensures_client_recv_bind:
  "(\<And>d. (\<And>x. d = Some x \<Longrightarrow> length x \<le> n) \<Longrightarrow>
      ensures (f d) (\<lambda>b es. Q b (Cl_Recv fd n d # es))) \<Longrightarrow>
   ensures (State_Monad.bind (client_recv api fd n) f) Q"
  unfolding client_recv_def
  by (rule ensures_bind [where P = "\<lambda>a es. es = [Cl_Recv fd n a] \<and>
        (\<forall>x. a = Some x \<longrightarrow> length x \<le> n)"])
     (auto simp: ensures_def)

lemma wait_for_progress_contract:
  "ensures (wait_for_progress api client epoch)
     (\<lambda>r es. cl_received es = [] \<and> cl_sent es = [] \<and> r \<in> {0, -2, -6})"
  unfolding wait_for_progress_def by (intro io_rules) auto

definition bytes_contract :: "nat \<Rightarrow> bytes \<Rightarrow> (int \<times> bytes) option \<Rightarrow> cl_event list \<Rightarrow> bool" where
  "bytes_contract wanted acc r es \<longleftrightarrow> cl_sent es = [] \<and>
     (case r of None \<Rightarrow> True
      | Some (code, d) \<Rightarrow> d = acc @ cl_received es \<and> length d \<le> wanted \<and>
          code \<in> {0, -2, -3, -6} \<and> (code = 0 \<longleftrightarrow> length d = wanted))"

lemma receive_bytes_contract:
  "length acc \<le> wanted \<Longrightarrow>
     ensures (receive_bytes api fuel client wanted epoch acc) (bytes_contract wanted acc)"
proof (induction fuel arbitrary: acc)
  case 0
  then show ?case by (auto intro!: io_rules simp: bytes_contract_def)
next
  case (Suc fuel)
  have rest: "ensures (receive_bytes api fuel client wanted epoch acc1)
      (\<lambda>r es'. bytes_contract wanted acc r (Cl_Recv fd n a # es @ es'))"
    if "acc1 = acc @ d" "a = Some d" "length acc1 \<le> wanted" "cl_received es = []" "cl_sent es = []"
    for acc1 a fd n es d
    by (rule ensures_mono [OF Suc.IH [OF that(3)]])
       (use that in \<open>auto simp: bytes_contract_def split: option.splits\<close>)
  show ?case
    unfolding receive_bytes.simps
    apply (intro io_rules ensures_client_recv_bind ensures_bind [OF wait_for_progress_contract] rest)
    using Suc.prems apply (auto simp: bytes_contract_def)
    done
qed

lemma ensures_receive_bytes_bind:
  "(\<And>r es. bytes_contract wanted [] r es \<Longrightarrow> ensures (f r) (\<lambda>b es'. Q b (es @ es'))) \<Longrightarrow>
     ensures (State_Monad.bind (receive_bytes api fuel client wanted epoch []) f) Q"
  by (rule ensures_bind [OF receive_bytes_contract]) auto

lemma put_packet_simps [simp]:
  "client_fd (put_packet client i bs) = client_fd client"
  "packet_capacity (put_packet client i bs) = packet_capacity client"
  "has_idle (put_packet client i bs) = has_idle client"
  "packet (put_packet client i bs) = buf_write (packet client) i bs"
  by (simp_all add: put_packet_def)

text \<open>The workspace is one byte longer than the capacity, as \<open>squid_client_init\<close> requires.\<close>

definition client_wf :: "squid_client \<Rightarrow> bool" where
  "client_wf client \<longleftrightarrow> length (packet client) = packet_capacity client + 1"

text \<open>A client after an operation: only the contents of the workspace may differ.\<close>

definition same_client :: "squid_client \<Rightarrow> squid_client \<Rightarrow> bool" where
  "same_client client client' \<longleftrightarrow> client_fd client' = client_fd client \<and>
     packet_capacity client' = packet_capacity client \<and> has_idle client' = has_idle client \<and>
     length (packet client') = length (packet client)"

lemma same_client_refl [simp]: "same_client client client"
  by (simp add: same_client_def)

lemma same_client_trans: "same_client c1 c2 \<Longrightarrow> same_client c2 c3 \<Longrightarrow> same_client c1 c3"
  by (simp add: same_client_def)

lemma same_client_put [simp]:
  "i + length bs \<le> length (packet client) \<Longrightarrow> same_client client (put_packet client i bs)"
  by (simp add: same_client_def)

lemma same_client_wf: "same_client c1 c2 \<Longrightarrow> client_wf c1 \<Longrightarrow> client_wf c2"
  by (simp add: same_client_def client_wf_def)

text \<open>What draining promises: the whole oversized packet is consumed, or a wait failed.\<close>

definition drain_contract :: "squid_client \<Rightarrow> nat \<Rightarrow> cl_result \<Rightarrow> cl_event list \<Rightarrow> bool" where
  "drain_contract client remaining r es \<longleftrightarrow> cl_sent es = [] \<and>
     (case r of None \<Rightarrow> True
      | Some (code, client') \<Rightarrow> same_client client client' \<and>
          (code = -5 \<and> length (cl_received es) = remaining \<or>
           code \<in> {-2, -3, -6} \<and> length (cl_received es) < remaining))"

lemma drain_response_contract:
  assumes "client_wf client" and "0 < packet_capacity client"
  shows "ensures (drain_response api fuel client remaining epoch) (drain_contract client remaining)"
  using assms
proof (induction api fuel client remaining epoch rule: drain_response.induct)
  case (1 api fuel client remaining epoch)
  show ?case
  proof (cases "remaining = 0")
    case True
    then show ?thesis
      by (subst drain_response.simps) (auto intro!: io_rules simp: drain_contract_def)
  next
    case False
    let ?part = "if remaining > packet_capacity client then packet_capacity client else remaining"
    have rest: "ensures (drain_response api fuel (put_packet client 0 d) (remaining - ?part) epoch)
        (\<lambda>r es'. drain_contract client remaining r (es @ es'))"
      if "d = cl_received es" "cl_sent es = []" "length d = ?part" for d es
    proof -
      have fits: "length d \<le> length (packet client)"
        using that "1.prems" by (auto simp: client_wf_def split: if_splits)
      then have same: "same_client client (put_packet client 0 d)"
        by simp
      have "ensures (drain_response api fuel (put_packet client 0 d) (remaining - ?part) epoch)
          (drain_contract (put_packet client 0 d) (remaining - ?part))"
        using "1.IH" False "1.prems" same_client_wf [OF same] by auto
      then show ?thesis
        by (rule ensures_mono)
           (use that same in \<open>auto simp: drain_contract_def split: option.splits if_splits
              elim: same_client_trans\<close>)
    qed
    show ?thesis
      using False "1.prems"
      by (subst drain_response.simps, simp only: Let_def if_False simp_thms)
         (intro io_rules ensures_receive_bytes_bind rest;
          auto simp: bytes_contract_def drain_contract_def client_wf_def split: if_splits)
  qed
qed

text \<open>
  What an exchange promises. A positive result is the size of a response that is in the
  workspace, and then exactly the frames of the request and of the response went over the
  socket. After an oversized response the stream stands at the next frame.
\<close>

definition exchange_contract ::
  "squid_client \<Rightarrow> nat \<Rightarrow> cl_result \<Rightarrow> cl_event list \<Rightarrow> bool" where
  "exchange_contract client request_size r es \<longleftrightarrow>
     (case r of None \<Rightarrow> True
      | Some (code, client') \<Rightarrow> same_client client client' \<and>
          (code \<in> {-1, -2, -3, -4, -5, -6} \<or> 0 < code) \<and>
          (0 < code \<longrightarrow> code \<le> int (packet_capacity client) \<and>
             cl_sent es = frame (take request_size (drop 1 (packet client))) \<and>
             cl_received es = frame (take (nat code) (packet client'))) \<and>
          (code = -5 \<longrightarrow> cl_sent es = frame (take request_size (drop 1 (packet client))) \<and>
             (\<exists>response. cl_received es = frame response \<and>
                packet_capacity client < length response \<and> length response \<le> 255)))"

definition response_contract :: "squid_client \<Rightarrow> cl_result \<Rightarrow> cl_event list \<Rightarrow> bool" where
  "response_contract client r es \<longleftrightarrow> cl_sent es = [] \<and>
     (case r of None \<Rightarrow> True
      | Some (code, client') \<Rightarrow> same_client client client' \<and>
          (code \<in> {-2, -3, -4, -5, -6} \<or> 0 < code) \<and>
          (0 < code \<longrightarrow> code \<le> int (packet_capacity client) \<and>
             cl_received es = frame (take (nat code) (packet client'))) \<and>
          (code = -5 \<longrightarrow> (\<exists>response. cl_received es = frame response \<and>
                packet_capacity client < length response \<and> length response \<le> 255)))"

lemma frame_of_header:
  "length d = unat (n :: u8) \<Longrightarrow> n # d = frame d"
  by (simp add: frame_def)

lemma bytes_contract_header:
  "bytes_contract 1 [] (Some (0, d)) es \<Longrightarrow> cl_sent es = [] \<and> cl_received es = [hd d]"
  by (cases "cl_received es") (auto simp: bytes_contract_def)

lemma drained_response:
  assumes header: "cl_sent es = []" "cl_received es = [n]"
    and large: "packet_capacity client < unat n"
    and drain: "drain_contract client (unat n) r es'"
  shows "response_contract client r (es @ es')"
proof -
  have "cl_received (es @ es') = frame (cl_received es')" if "length (cl_received es') = unat n"
    using header that by (simp add: frame_def)
  then show ?thesis
    using drain large header unat_u8_le [of n]
    by (auto simp: response_contract_def drain_contract_def split: option.splits)
qed

lemma u8_of_nat_unat: "of_nat (unat n) = (n :: u8)"
  by simp

lemma stored_response:
  assumes "cl_sent es = []" "cl_received es = [n]" "n \<noteq> 0"
    and "\<not> packet_capacity client < unat n" "client_wf client"
    and "bytes_contract (unat n) [] r es'"
  shows "response_contract client
    (case r of None \<Rightarrow> None
     | Some (code, d) \<Rightarrow> Some (if code = 0 then int (unat n) else code, put_packet client 0 d))
    (es @ es')"
  using assms unat_gt_0 [of n]
  by (auto simp: response_contract_def bytes_contract_def client_wf_def frame_def buf_write_def
      u8_of_nat_unat simp del: of_nat_unat split: option.splits)

lemma receive_response_contract:
  assumes "client_wf client" and "0 < packet_capacity client"
  shows "ensures (receive_response api fuel client epoch) (response_contract client)"
  unfolding receive_response_def Let_def
proof (intro io_rules ensures_receive_bytes_bind)
  fix r es y code d
  assume header: "bytes_contract 1 [] r es" "r = Some y" "y = (code, d)" "\<not> code \<noteq> 0"
  then have h: "cl_sent es = []" "cl_received es = [hd d]"
    using bytes_contract_header by auto
  {
    assume "packet_capacity client < unat (hd d)"
    then show "ensures (drain_response api fuel client (unat (hd d)) epoch)
        (\<lambda>b es'. response_contract client b (es @ es'))"
      by (intro ensures_mono [OF drain_response_contract [OF assms]] drained_response [OF h])
  next
    fix ra esa
    assume "hd d \<noteq> 0" "\<not> packet_capacity client < unat (hd d)" "bytes_contract (unat (hd d)) [] ra esa"
    then show "response_contract client
       (case ra of None \<Rightarrow> None
        | Some (r, da) \<Rightarrow> Some (if r = 0 then int (unat (hd d)) else r, put_packet client 0 da))
       (es @ esa @ [])"
      using stored_response [OF h _ _ assms(1)] by simp
  next
    assume "hd d = 0"
    then show "response_contract client (Some (SQUID_CLIENT_ERROR_PROTOCOL, client)) (es @ [])"
      using h by (simp add: response_contract_def)
  }
qed (auto simp: response_contract_def bytes_contract_def)

lemma request_frame:
  assumes "client_wf client" and "request_size \<le> packet_capacity client"
  shows "take (Suc request_size) (buf_write (packet client) 0 [of_nat request_size]) =
    frame (take request_size (drop 1 (packet client)))"
  using assms by (simp add: buf_write_def frame_def client_wf_def min_def)

lemma squid_client_exchange_contract:
  assumes "client_wf client"
  shows "ensures (squid_client_exchange api fuel client request_size)
    (exchange_contract client request_size)"
proof -
  have same: "same_client client (put_packet client 0 [b])" for b
    using assms by (simp add: client_wf_def)
  show ?thesis
    unfolding squid_client_exchange_def
    by (intro io_rules ensures_mono [OF receive_response_contract];
        auto simp: exchange_contract_def response_contract_def request_frame [OF assms] assms same
          same_client_wf [OF same assms] split: option.splits elim: same_client_trans [OF same])
qed

subsection \<open>An exchange with a cancelling callback ends\<close>

text \<open>
  A callback that cancels once \<open>limit\<close> calls have been made bounds every wait: a round of the
  loop makes a call or more, so \<open>limit + 1\<close> rounds are enough.
\<close>

definition cancels_after :: "nat \<Rightarrow> cl_api \<Rightarrow> bool" where
  "cancels_after limit api \<longleftrightarrow> (\<forall>h. limit \<le> length h \<longrightarrow> cl_idle api h)"

lemma wait_cancelled:
  assumes "has_idle client" and "cancels_after limit api"
    and "run_state (wait_for_progress api client epoch) s = (0, s')"
  shows "length (trace s) < limit" and "length (trace s) < length (trace s')"
  using assms
  by (auto simp: wait_for_progress_def cancels_after_def split: if_splits intro: leI
      dest: not_le_imp_less elim!: allE [where x = "trace s"])

lemma receive_bytes_returns:
  assumes idle: "has_idle client" and limit: "cancels_after limit api"
  shows "limit < length (trace s) + fuel \<Longrightarrow> 0 < fuel \<Longrightarrow>
    \<exists>r. fst (run_state (receive_bytes api fuel client wanted epoch acc) s) = Some r"
proof (induction fuel arbitrary: s acc)
  case (Suc fuel)
  let ?n = "wanted - length acc"
  obtain d s1 where recv: "run_state (client_recv api (client_fd client) ?n) s = (d, s1)"
    by (cases "run_state (client_recv api (client_fd client) ?n) s")
  then have longer: "length (trace s1) = Suc (length (trace s))"
    by (auto simp: client_recv_def)
  obtain w s2 where wait: "run_state (wait_for_progress api client epoch) s1 = (w, s2)"
    by (cases "run_state (wait_for_progress api client epoch) s1")
  have "\<exists>r. fst (run_state (receive_bytes api fuel client wanted epoch acc1) s2) = Some r"
    if "w = 0" for acc1
    using Suc.IH [of s2 acc1] Suc.prems longer wait_cancelled [OF idle limit wait [unfolded that]]
    by simp
  with recv wait show ?case
    by (auto simp: Let_def split: option.splits)
qed simp

lemma ensures_receive_bytes_returns:
  assumes "has_idle client" "cancels_after limit api" "limit < fuel"
  shows "ensures (receive_bytes api fuel client wanted epoch []) (\<lambda>r _. r \<noteq> None)"
  unfolding ensures_def
proof
  fix s
  show "\<exists>es. trace (snd (run_state (receive_bytes api fuel client wanted epoch []) s)) = trace s @ es \<and>
      fst (run_state (receive_bytes api fuel client wanted epoch []) s) \<noteq> None"
    using receive_bytes_contract [of "[]" wanted api fuel client epoch, unfolded ensures_def]
      receive_bytes_returns [OF assms(1,2), of s fuel wanted epoch "[]"] assms(3)
    by fastforce
qed

lemma drain_response_returns:
  assumes "has_idle client" "cancels_after limit api" "limit < fuel"
  shows "ensures (drain_response api fuel client remaining epoch) (\<lambda>r _. r \<noteq> None)"
  using assms
proof (induction api fuel client remaining epoch rule: drain_response.induct)
  case (1 api fuel client remaining epoch)
  show ?case
    by (subst drain_response.simps, unfold Let_def)
       (intro io_rules ensures_bind [OF ensures_receive_bytes_returns [OF "1.prems"]] "1.IH";
        use "1.prems" in simp)
qed

lemma squid_client_exchange_returns:
  assumes "has_idle client" "cancels_after limit api" "limit < fuel"
  shows "ensures (squid_client_exchange api fuel client request_size) (\<lambda>r _. r \<noteq> None)"
proof -
  have put: "has_idle (put_packet client 0 b)" for b
    using assms(1) by simp
  show ?thesis
    unfolding squid_client_exchange_def receive_response_def Let_def
    by (intro io_rules drain_response_returns [OF put assms(2,3)]
          ensures_bind [OF ensures_receive_bytes_returns [OF put assms(2,3)]]; auto)
qed

subsection \<open>An exchange with a server\<close>

text \<open>
  The peer as the server's runtime presents it to a client: the requests in the stream sent so
  far are answered in order by \<open>core\<close>, and the responses arrive in pieces whose sizes \<open>chunk\<close>
  chooses. The link is up and the callback does not cancel.
\<close>

definition peer_stream :: "(bytes \<Rightarrow> bytes option) \<Rightarrow> cl_event list \<Rightarrow> bytes" where
  "peer_stream core h =
     concat (map (\<lambda>q. case core q of None \<Rightarrow> [] | Some r \<Rightarrow> frame r) (fst (deframe (cl_sent h))))"

definition unread :: "(bytes \<Rightarrow> bytes option) \<Rightarrow> cl_event list \<Rightarrow> bytes" where
  "unread core h = drop (length (cl_received h)) (peer_stream core h)"

definition serving_api :: "(bytes \<Rightarrow> bytes option) \<Rightarrow> (cl_event list \<Rightarrow> nat) \<Rightarrow> cl_api" where
  "serving_api core chunk = \<lparr>cl_idle = (\<lambda>_. False), cl_link_is_up = (\<lambda>_. True),
     cl_link_epoch = (\<lambda>_. 0), cl_send = (\<lambda>_ _ _. True),
     cl_recv = (\<lambda>h fd n. Some (take (Suc (chunk h)) (unread core h)))\<rparr>"

lemma serving_wait:
  obtains s' where "run_state (wait_for_progress (serving_api core chunk) client 0) s = (0, s')"
    and "cl_received (trace s') = cl_received (trace s)" and "cl_sent (trace s') = cl_sent (trace s)"
  by (cases "has_idle client") (auto simp: wait_for_progress_def serving_api_def)

lemma unread_cong:
  "cl_received h = cl_received h' \<Longrightarrow> cl_sent h = cl_sent h' \<Longrightarrow> unread core h = unread core h'"
  by (simp add: unread_def peer_stream_def)

lemma unread_recv [simp]:
  "unread core (h @ [Cl_Recv fd n (Some d)]) = drop (length d) (unread core h)"
  by (simp add: unread_def peer_stream_def add.commute)

lemma serving_receive_bytes:
  assumes "wanted \<le> length acc + length (unread core (trace s))" and "length acc \<le> wanted"
    and "wanted \<le> length acc + fuel"
  shows "\<exists>s'. run_state (receive_bytes (serving_api core chunk) fuel client wanted 0 acc) s =
      (Some (0, acc @ take (wanted - length acc) (unread core (trace s))), s') \<and>
      unread core (trace s') = drop (wanted - length acc) (unread core (trace s)) \<and>
      cl_sent (trace s') = cl_sent (trace s) \<and>
      cl_received (trace s') = cl_received (trace s) @ take (wanted - length acc) (unread core (trace s))"
  using assms
proof (induction fuel arbitrary: s acc)
  case (Suc fuel)
  let ?n = "wanted - length acc" and ?left = "unread core (trace s)"
  define m where "m = min ?n (min (Suc (chunk (trace s))) (length ?left))"
  have "take (min ?n (Suc (chunk (trace s)))) ?left = take m ?left"
    by (auto simp: m_def min_def)
  then obtain s1 where recv: "run_state (client_recv (serving_api core chunk) (client_fd client) ?n) s =
      (Some (take m ?left), s1)"
      and s1: "trace s1 = trace s @ [Cl_Recv (client_fd client) ?n (Some (take m ?left))]"
    by (auto simp: client_recv_def serving_api_def)
  obtain s2 where wait: "run_state (wait_for_progress (serving_api core chunk) client 0) s1 = (0, s2)"
    and s2: "cl_received (trace s2) = cl_received (trace s1)" "cl_sent (trace s2) = cl_sent (trace s1)"
    by (rule serving_wait)
  have m: "length (take m ?left) = m" "m \<le> ?n"
    by (simp_all add: m_def)
  have left1: "unread core (trace s1) = drop m ?left" "cl_sent (trace s1) = cl_sent (trace s)"
    "cl_received (trace s1) = cl_received (trace s) @ take m ?left"
    using s1 m by simp_all
  have left2: "unread core (trace s2) = drop m ?left"
    using left1 unread_cong [OF s2] by simp
  show ?case
  proof (cases "length acc < wanted")
    case more: True
    then have "0 < m"
      using Suc.prems(1) by (auto simp: m_def)
    show ?thesis
    proof (cases "m = ?n")
      case True
      with more m recv left1 Suc.prems show ?thesis by (auto simp: Let_def)
    next
      case False
      have "?n = m + (?n - m)" using m by simp
      then have "take ?n ?left = take m ?left @ take (?n - m) (drop m ?left)"
        by (metis take_add)
      with Suc.IH [of "acc @ take m ?left" s2] Suc.prems m \<open>0 < m\<close> False recv wait left2 s2 left1 more
      show ?thesis by (auto simp: Let_def)
    qed
  qed (use Suc.prems in auto)
qed auto


text \<open>Between exchanges: every request is answered, and every answer is read.\<close>

definition in_step :: "(bytes \<Rightarrow> bytes option) \<Rightarrow> cl_event list \<Rightarrow> bool" where
  "in_step core h \<longleftrightarrow> snd (deframe (cl_sent h)) = [] \<and> cl_received h = peer_stream core h"

lemma after_send:
  assumes "in_step core h" and "request \<noteq> []" "length request \<le> 255"
    and "core request = Some reply"
    and "cl_sent h' = cl_sent h @ frame request"
  shows "snd (deframe (cl_sent h')) = []" and "peer_stream core h' = peer_stream core h @ frame reply"
proof -
  have "deframe (frame request) = ([request], [])"
    using deframe_frames [of "[request]" "[]"] assms(2,3) by simp
  then have "deframe (cl_sent h') = (fst (deframe (cl_sent h)) @ [request], [])"
    using assms(1,5) by (simp add: deframe_append in_step_def)
  then show "snd (deframe (cl_sent h')) = []" "peer_stream core h' = peer_stream core h @ frame reply"
    using assms(4) by (simp_all add: peer_stream_def)
qed

lemma serving_exchange:
  assumes wf: "client_wf client" "packet_capacity client \<le> 255"
    and request: "0 < request_size" "request_size \<le> packet_capacity client"
    and core: "core (take request_size (drop 1 (packet client))) = Some reply"
    and reply: "reply \<noteq> []" "length reply \<le> packet_capacity client"
    and step: "in_step core (trace s)" and fuel: "packet_capacity client \<le> fuel"
  shows "\<exists>s' old. run_state (squid_client_exchange (serving_api core chunk) fuel client request_size) s =
      (Some (int (length reply), put_packet old 0 reply), s') \<and>
      in_step core (trace s') \<and> same_client client old"
proof -
  have api: "cl_link_is_up (serving_api core chunk) h" "cl_link_epoch (serving_api core chunk) h = 0"
    "cl_send (serving_api core chunk) h fd bs" for h fd bs
    by (simp_all add: serving_api_def)
  let ?api = "serving_api core chunk" and ?request = "take request_size (drop 1 (packet client))"
  let ?client = "put_packet client 0 [of_nat request_size]"
  define s1 where "s1 = s\<lparr>trace := trace s @ [Cl_Link True, Cl_Epoch 0,
     Cl_Send (client_fd client) (frame ?request) True]\<rparr>"
  have start: "run_state (squid_client_exchange ?api fuel client request_size) s =
      run_state (receive_response ?api fuel ?client 0) s1"
    using wf request unfolding squid_client_exchange_def s1_def
    by (simp add: api request_frame Let_def)
  have len: "?request \<noteq> []" "length ?request \<le> 255"
    using wf request by (auto simp: client_wf_def)
  have sent: "cl_sent (trace s1) = cl_sent (trace s) @ frame ?request"
    "cl_received (trace s1) = cl_received (trace s)"
    by (simp_all add: s1_def)
  note after = after_send [of core "trace s" ?request reply "trace s1", OF step len core sent(1)]
  have unread: "unread core (trace s1) = frame reply"
    using after(2) sent(2) step by (simp add: unread_def in_step_def)
  let ?n = "of_nat (length reply) :: u8"
  have n: "unat ?n = length reply"
    using reply wf by (simp add: unat_of_nat)
  then have "?n \<noteq> 0"
    using reply by (metis length_0_conv unat_0)
  obtain s2 where header: "run_state (receive_bytes ?api fuel ?client 1 0 []) s1 = (Some (0, [?n]), s2)"
    and s2: "unread core (trace s2) = reply" "cl_sent (trace s2) = cl_sent (trace s1)"
      "cl_received (trace s2) = cl_received (trace s1) @ [?n]"
    using serving_receive_bytes [of 1 "[]" core s1 fuel chunk ?client] unread fuel request
    by (auto simp: frame_def)
  obtain s3 where body: "run_state (receive_bytes ?api fuel ?client (length reply) 0 []) s2 = (Some (0, reply), s3)"
    and s3: "cl_sent (trace s3) = cl_sent (trace s2)"
      "cl_received (trace s3) = cl_received (trace s2) @ reply"
    using serving_receive_bytes [of "length reply" "[]" core s2 fuel chunk ?client] s2 fuel reply
    by auto
  have run: "run_state (receive_response ?api fuel ?client 0) s1 =
      (Some (int (length reply), put_packet ?client 0 reply), s3)"
    unfolding receive_response_def using header body n \<open>?n \<noteq> 0\<close> reply(2)
    by (simp add: Let_def)
  have "peer_stream core (trace s3) = peer_stream core (trace s1)"
    using s2 s3 by (simp add: peer_stream_def)
  then have "in_step core (trace s3)"
    using after sent(2) s2 s3 step by (simp add: in_step_def frame_def)
  moreover have "same_client client ?client"
    using wf by (simp add: client_wf_def)
  ultimately show ?thesis
    using start run by auto
qed

subsection \<open>The properties of an exchange\<close>

text \<open>
  C6. An exchange keeps the two byte streams aligned. Whatever libsquid and the idle callback do,
  when an exchange returns a size, exactly one frame with the caller's request was sent, exactly
  one frame was received, its payload is what the workspace now holds, and it fits; when it
  reports an oversized response, that frame has been consumed to its last byte; no other field of
  the client changes, and only the documented error codes are returned.
\<close>

theorem client_exchange_aligned:
  assumes "client_wf client"
    and "run_state (squid_client_exchange api fuel client request_size) s = (Some (code, client'), s')"
  shows "\<exists>es. trace s' = trace s @ es \<and> same_client client client' \<and>
    (code \<in> {SQUID_CLIENT_ERROR_ARGUMENT, SQUID_CLIENT_ERROR_LINK, SQUID_CLIENT_ERROR_IO,
       SQUID_CLIENT_ERROR_PROTOCOL, SQUID_CLIENT_ERROR_OVERFLOW, SQUID_CLIENT_ERROR_CANCELLED} \<or>
     0 < code \<and> code \<le> int (packet_capacity client)) \<and>
    (0 < code \<longrightarrow> cl_sent es = frame (take request_size (drop 1 (packet client))) \<and>
       cl_received es = frame (take (nat code) (packet client'))) \<and>
    (code = SQUID_CLIENT_ERROR_OVERFLOW \<longrightarrow>
       cl_sent es = frame (take request_size (drop 1 (packet client))) \<and>
       (\<exists>response. cl_received es = frame response \<and> packet_capacity client < length response))"
proof -
  obtain es where es: "trace s' = trace s @ es"
    and "exchange_contract client request_size (Some (code, client')) es"
    using squid_client_exchange_contract [OF assms(1)] assms(2) by (rule ensuresE)
  then show ?thesis
    by (intro exI [of _ es]) (auto simp: exchange_contract_def)
qed

text \<open>An environment with a link that delivers the frame of a two byte response at once.\<close>

definition demo_link :: cl_api where
  "demo_link = \<lparr>cl_idle = (\<lambda>h. 12 \<le> length h), cl_link_is_up = (\<lambda>_. True), cl_link_epoch = (\<lambda>_. 7),
     cl_send = (\<lambda>_ _ _. True),
     cl_recv = (\<lambda>h _ n. Some (if n = 1 then [2] else if n = 2 then [0x81, 9] else []))\<rparr>"

definition demo_workspace :: squid_client where
  "demo_workspace = squid_client_init 3 [0, 1, 5, 0, 0] 4 True"

lemma demo_workspace_wf: "client_wf demo_workspace"
  by (simp add: demo_workspace_def squid_client_init_def client_wf_def)

lemma demo_exchange:
  "\<exists>s'. run_state (squid_client_exchange demo_link (Suc 0) demo_workspace 2) \<lparr>trace = [], c_errno = E_OK\<rparr> =
     (Some (2, demo_workspace\<lparr>packet := [0x81, 9, 5, 0, 0]\<rparr>), s')"
  by (simp add: squid_client_exchange_def receive_response_def client_recv_def demo_workspace_def
      squid_client_init_def demo_link_def put_packet_def buf_write_def Let_def)

theorem client_exchange_aligned_witness:
  "\<exists>es. cl_sent es = frame [1, 5] \<and> cl_received es = frame [0x81, 9]"
proof -
  obtain s' where run: "run_state (squid_client_exchange demo_link (Suc 0) demo_workspace 2)
      \<lparr>trace = [], c_errno = E_OK\<rparr> = (Some (2, demo_workspace\<lparr>packet := [0x81, 9, 5, 0, 0]\<rparr>), s')"
    using demo_exchange by blast
  show ?thesis
    using client_exchange_aligned [OF demo_workspace_wf run]
    by (auto simp: demo_workspace_def squid_client_init_def)
qed

text \<open>
  C23. An exchange ends when the idle callback cancels. If the callback returns non-zero once
  \<open>limit\<close> calls have been made, an exchange returns within \<open>limit + 1\<close> rounds of each of its
  waits, whatever the link and the peer do, even when not a single byte arrives.
\<close>

theorem client_exchange_ends:
  assumes "has_idle client" and "cancels_after limit api" and "limit < fuel"
  shows "\<exists>code client' s'.
    run_state (squid_client_exchange api fuel client request_size) s = (Some (code, client'), s')"
  using squid_client_exchange_returns [OF assms, of request_size]
  by (auto simp: ensures_def) (metis not_None_eq prod.collapse surj_pair)

theorem client_exchange_ends_witness:
  "\<exists>code client' s'. run_state (squid_client_exchange demo_link 13 demo_workspace 2)
     \<lparr>trace = [], c_errno = E_OK\<rparr> = (Some (code, client'), s')"
  by (rule client_exchange_ends [where limit = 12])
     (simp_all add: demo_workspace_def squid_client_init_def cancels_after_def demo_link_def)

end
