(* ===== verification/Time_Service.thy ===== *)
theory Time_Service
  imports Packet_Service
begin

text \<open>
  The time service, \<open>lib/time/time_core.c\<close>. The C library's clock, calendar and \<open>strftime\<close> are
  parameters, collected in \<open>time_api\<close>.
\<close>

record tm =
  tm_sec :: int
  tm_min :: int
  tm_hour :: int
  tm_mday :: int
  tm_mon :: int
  tm_year :: int
  tm_wday :: int
  tm_isdst :: int

record time_api =
  clock_time :: int
  gmtime_r :: "int \<Rightarrow> tm option"
  localtime_r :: "int \<Rightarrow> tm option"
  strftime_z :: "tm \<Rightarrow> bytes" \<comment> \<open>the text of \<open>%z\<close>\<close>

definition SQUID_TIME_PROTOCOL_VERSION :: u8 where "SQUID_TIME_PROTOCOL_VERSION = 1"
definition SQUID_TIME_OP_CAPABILITIES :: u8 where "SQUID_TIME_OP_CAPABILITIES = 0x00"
definition SQUID_TIME_OP_GET :: u8 where "SQUID_TIME_OP_GET = 0x01"
definition SQUID_TIME_RESPONSE_BIT :: u8 where "SQUID_TIME_RESPONSE_BIT = 0x80"
definition SQUID_TIME_STATUS_OK :: u8 where "SQUID_TIME_STATUS_OK = 0x00"
definition SQUID_TIME_STATUS_BAD_REQUEST :: u8 where "SQUID_TIME_STATUS_BAD_REQUEST = 0x01"
definition SQUID_TIME_STATUS_UNAVAILABLE :: u8 where "SQUID_TIME_STATUS_UNAVAILABLE = 0x02"
definition SQUID_TIME_MODE_UTC :: u8 where "SQUID_TIME_MODE_UTC = 0x00"
definition SQUID_TIME_MODE_LOCAL :: u8 where "SQUID_TIME_MODE_LOCAL = 0x01"
definition SQUID_TIME_FEATURE_UTC :: u8 where "SQUID_TIME_FEATURE_UTC = 0x01"
definition SQUID_TIME_FEATURE_LOCAL :: u8 where "SQUID_TIME_FEATURE_LOCAL = 0x02"
definition SQUID_TIME_FEATURE_UNIX :: u8 where "SQUID_TIME_FEATURE_UNIX = 0x04"
definition SQUID_TIME_WEEKDAY_MASK :: u8 where "SQUID_TIME_WEEKDAY_MASK = 0x07"
definition SQUID_TIME_DST_BIT :: u8 where "SQUID_TIME_DST_BIT = 0x80"
definition SQUID_TIME_UNIX_UNKNOWN :: u32 where "SQUID_TIME_UNIX_UNKNOWN = 0xFFFFFFFF"
definition SQUID_TIME_REPLY_SIZE :: nat where "SQUID_TIME_REPLY_SIZE = 16"

lemmas time_constants [simp] = SQUID_TIME_PROTOCOL_VERSION_def SQUID_TIME_OP_CAPABILITIES_def
  SQUID_TIME_OP_GET_def SQUID_TIME_RESPONSE_BIT_def SQUID_TIME_STATUS_OK_def
  SQUID_TIME_STATUS_BAD_REQUEST_def SQUID_TIME_STATUS_UNAVAILABLE_def SQUID_TIME_MODE_UTC_def
  SQUID_TIME_MODE_LOCAL_def SQUID_TIME_FEATURE_UTC_def SQUID_TIME_FEATURE_LOCAL_def
  SQUID_TIME_FEATURE_UNIX_def SQUID_TIME_WEEKDAY_MASK_def SQUID_TIME_DST_BIT_def
  SQUID_TIME_UNIX_UNKNOWN_def SQUID_TIME_REPLY_SIZE_def

definition write_i16 :: "int \<Rightarrow> bytes" where
  "write_i16 v = write_u16 (word_of_int v)"

definition time_write_status :: "u8 \<Rightarrow> u8 \<Rightarrow> nat \<Rightarrow> bytes option" where
  "time_write_status opcode status capacity =
     (if capacity < 2 then None else Some [opcode OR SQUID_TIME_RESPONSE_BIT, status])"

text \<open>The value of a decimal digit character, \<open>c - '0'\<close>.\<close>

definition digit_value :: "u8 \<Rightarrow> int" where
  "digit_value c = uint c - 48"

definition parse_utc_offset :: "time_api \<Rightarrow> tm \<Rightarrow> int option" where
  "parse_utc_offset api local_time =
     (let text = strftime_z api local_time in
      if length text \<noteq> 5 \<or> (text ! 0 \<noteq> of_char CHR ''+'' \<and> text ! 0 \<noteq> of_char CHR ''-'') \<or>
         \<not> isdigit (text ! 1) \<or> \<not> isdigit (text ! 2) \<or> \<not> isdigit (text ! 3) \<or> \<not> isdigit (text ! 4)
      then None
      else let sign = (if text ! 0 = of_char CHR ''-'' then -1 else 1);
               hours = digit_value (text ! 1) * 10 + digit_value (text ! 2);
               minutes = digit_value (text ! 3) * 10 + digit_value (text ! 4)
           in if hours > 23 \<or> minutes > 59 then None
              else let total = sign * (hours * 60 + minutes) in
                if total < - 32768 \<or> total > 32767 then None else Some total)"

definition time_handle_capabilities :: "u8 \<Rightarrow> nat \<Rightarrow> bytes option" where
  "time_handle_capabilities opcode capacity =
     (if capacity < 5 then None
      else Some [opcode OR SQUID_TIME_RESPONSE_BIT, SQUID_TIME_STATUS_OK,
        SQUID_TIME_PROTOCOL_VERSION,
        SQUID_TIME_FEATURE_UTC OR SQUID_TIME_FEATURE_LOCAL OR SQUID_TIME_FEATURE_UNIX,
        of_nat SQUID_TIME_REPLY_SIZE])"

text \<open>The reply of a successful \<open>GET\<close>.\<close>

definition time_reply :: "u8 \<Rightarrow> u8 \<Rightarrow> int \<Rightarrow> tm \<Rightarrow> int \<Rightarrow> bytes" where
  "time_reply opcode mode now t utc_offset =
     (let unix_time = (if 0 \<le> now \<and> now \<le> 0xFFFFFFFF then word_of_int now
                       else SQUID_TIME_UNIX_UNKNOWN);
          wday = word_of_int (tm_wday t) AND SQUID_TIME_WEEKDAY_MASK;
          weekday = (if mode = SQUID_TIME_MODE_LOCAL \<and> tm_isdst t > 0
                     then wday OR SQUID_TIME_DST_BIT else wday)
      in [opcode OR SQUID_TIME_RESPONSE_BIT, SQUID_TIME_STATUS_OK] @
         write_u16 (word_of_int (tm_year t + 1900)) @
         [word_of_int (tm_mon t + 1), word_of_int (tm_mday t), word_of_int (tm_hour t),
          word_of_int (tm_min t), word_of_int (tm_sec t), weekday] @
         write_i16 utc_offset @ write_u32 unix_time)"

definition time_handle_get :: "time_api \<Rightarrow> u8 \<Rightarrow> u8 \<Rightarrow> nat \<Rightarrow> bytes option" where
  "time_handle_get api opcode mode capacity =
     (let now = clock_time api;
          unavailable = time_write_status opcode SQUID_TIME_STATUS_UNAVAILABLE capacity in
      if capacity < SQUID_TIME_REPLY_SIZE then None
      else if now = -1 then unavailable
      else if mode = SQUID_TIME_MODE_UTC then
        (case gmtime_r api now of
           None \<Rightarrow> unavailable
         | Some t \<Rightarrow> Some (time_reply opcode mode now t 0))
      else
        (case localtime_r api now of
           None \<Rightarrow> unavailable
         | Some t \<Rightarrow>
             (case parse_utc_offset api t of
                None \<Rightarrow> unavailable
              | Some utc_offset \<Rightarrow> Some (time_reply opcode mode now t utc_offset))))"

definition handle_squid_time_request :: "time_api \<Rightarrow> bytes \<Rightarrow> nat \<Rightarrow> bytes option" where
  "handle_squid_time_request api request capacity =
     (if request = [] \<or> capacity < 2 then None
      else let opcode = request ! 0;
               bad_request = time_write_status opcode SQUID_TIME_STATUS_BAD_REQUEST capacity in
        if opcode = SQUID_TIME_OP_CAPABILITIES then
          (if length request \<noteq> 1 then bad_request else time_handle_capabilities opcode capacity)
        else if opcode = SQUID_TIME_OP_GET then
          (if length request \<noteq> 2 \<or>
              (request ! 1 \<noteq> SQUID_TIME_MODE_UTC \<and> request ! 1 \<noteq> SQUID_TIME_MODE_LOCAL)
           then bad_request
           else time_handle_get api opcode (request ! 1) capacity)
        else bad_request)"

definition handle_squid_time_packet :: "time_api \<Rightarrow> bytes \<Rightarrow> nat \<Rightarrow> bytes option" where
  "handle_squid_time_packet api = handle_packet_with (handle_squid_time_request api)"

lemma length_time_reply [simp]: "length (time_reply opcode mode now t off) = 16"
  by (simp add: time_reply_def write_i16_def Let_def)

lemma hd_time_reply [simp]: "hd (time_reply opcode mode now t off) = opcode OR 0x80"
  by (simp add: time_reply_def Let_def)

lemmas time_defs = handle_squid_time_request_def time_handle_get_def time_handle_capabilities_def
  time_write_status_def

interpretation time: packet_service "\<lambda>request capacity r.
  \<exists>api. r = handle_squid_time_packet api request capacity"
  by unfold_locales
     (auto simp: handle_squid_time_packet_def handle_packet_with_def time_defs Let_def
       response_bit_def hd_conv_nth split: if_splits option.splits)

lemma digit_value_range: "isdigit c \<Longrightarrow> 0 \<le> digit_value c \<and> digit_value c \<le> 9"
  by (simp add: isdigit_def digit_value_def word_le_def)

lemma parse_utc_offset_bounds:
  assumes "parse_utc_offset api t = Some off"
  shows "\<bar>off\<bar> \<le> 23 * 60 + 59"
proof -
  let ?text = "strftime_z api t"
  let ?hours = "digit_value (?text ! 1) * 10 + digit_value (?text ! 2)"
  let ?minutes = "digit_value (?text ! 3) * 10 + digit_value (?text ! 4)"
  have digits: "isdigit (?text ! 1)" "isdigit (?text ! 2)" "isdigit (?text ! 3)" "isdigit (?text ! 4)"
    and range: "?hours \<le> 23" "?minutes \<le> 59"
    and off: "off = ?hours * 60 + ?minutes \<or> off = - (?hours * 60 + ?minutes)"
    using assms by (auto simp: parse_utc_offset_def Let_def split: if_splits)
  have "0 \<le> ?hours" "0 \<le> ?minutes"
    using digits [THEN digit_value_range] by simp_all
  with range off show ?thesis by auto
qed

end
