(* ===== verification/Tcp_Proxy.thy ===== *)
theory Tcp_Proxy
  imports Packet_Service Config_Render Effects "HOL-Library.Multiset"
begin

text \<open>
  The TCP proxy, \<open>lib/tcp_proxy/tcp_proxy_core.c\<close> and \<open>tcp_proxy_plugin.c\<close>: one outgoing
  connection per plugin instance. The socket layer and the resolver are the oracle \<open>tcp_api\<close>.
  The retry loop around \<open>poll\<close> is driven by \<open>net_interrupts\<close>, the number of times the call is
  interrupted before it gives another result; a \<open>poll\<close> interrupted for ever is not modelled.
\<close>

definition SQUID_TCP_PROTOCOL_VERSION :: u8 where "SQUID_TCP_PROTOCOL_VERSION = 1"
definition SQUID_TCP_OP_CAPABILITIES :: u8 where "SQUID_TCP_OP_CAPABILITIES = 0x00"
definition SQUID_TCP_OP_CONNECT :: u8 where "SQUID_TCP_OP_CONNECT = 0x01"
definition SQUID_TCP_OP_WRITE :: u8 where "SQUID_TCP_OP_WRITE = 0x02"
definition SQUID_TCP_OP_READ :: u8 where "SQUID_TCP_OP_READ = 0x03"
definition SQUID_TCP_OP_CLOSE :: u8 where "SQUID_TCP_OP_CLOSE = 0x04"
definition SQUID_TCP_OP_STATUS :: u8 where "SQUID_TCP_OP_STATUS = 0x05"
definition SQUID_TCP_RESPONSE_BIT :: u8 where "SQUID_TCP_RESPONSE_BIT = 0x80"
definition SQUID_TCP_STATUS_OK :: u8 where "SQUID_TCP_STATUS_OK = 0x00"
definition SQUID_TCP_STATUS_BAD_REQUEST :: u8 where "SQUID_TCP_STATUS_BAD_REQUEST = 0x01"
definition SQUID_TCP_STATUS_NOT_CONNECTED :: u8 where "SQUID_TCP_STATUS_NOT_CONNECTED = 0x02"
definition SQUID_TCP_STATUS_DNS_FAILED :: u8 where "SQUID_TCP_STATUS_DNS_FAILED = 0x03"
definition SQUID_TCP_STATUS_CONNECT_FAILED :: u8 where "SQUID_TCP_STATUS_CONNECT_FAILED = 0x04"
definition SQUID_TCP_STATUS_IO_ERROR :: u8 where "SQUID_TCP_STATUS_IO_ERROR = 0x05"
definition SQUID_TCP_STATUS_TIMEOUT :: u8 where "SQUID_TCP_STATUS_TIMEOUT = 0x06"
definition SQUID_TCP_STATUS_DENIED :: u8 where "SQUID_TCP_STATUS_DENIED = 0x07"
definition SQUID_TCP_FEATURE_IPV4 :: u8 where "SQUID_TCP_FEATURE_IPV4 = 0x01"
definition SQUID_TCP_FEATURE_IPV6 :: u8 where "SQUID_TCP_FEATURE_IPV6 = 0x02"
definition SQUID_TCP_FEATURE_DNS :: u8 where "SQUID_TCP_FEATURE_DNS = 0x04"
definition SQUID_TCP_FAMILY_IPV4 :: u8 where "SQUID_TCP_FAMILY_IPV4 = 0x04"
definition SQUID_TCP_FAMILY_IPV6 :: u8 where "SQUID_TCP_FAMILY_IPV6 = 0x06"
definition SQUID_TCP_READ_EOF :: u8 where "SQUID_TCP_READ_EOF = 0x01"
definition SQUID_TCP_HOST_MAX :: nat where "SQUID_TCP_HOST_MAX = 240"
definition SQUID_TCP_READ_HEADER_SIZE :: nat where "SQUID_TCP_READ_HEADER_SIZE = 4"
definition SQUID_TCP_READ_WAIT_MAX_MS :: u16 where "SQUID_TCP_READ_WAIT_MAX_MS = 10000"
definition squid_tcp_default_connect_timeout_ms :: nat where
  "squid_tcp_default_connect_timeout_ms = 5000"
definition squid_tcp_default_write_timeout_ms :: nat where
  "squid_tcp_default_write_timeout_ms = 5000"
definition squid_tcp_timeout_max_ms :: nat where "squid_tcp_timeout_max_ms = 60000"
definition squid_tcp_allowlist_max :: nat where "squid_tcp_allowlist_max = 1024"

lemmas tcp_constants [simp] = SQUID_TCP_PROTOCOL_VERSION_def SQUID_TCP_OP_CAPABILITIES_def
  SQUID_TCP_OP_CONNECT_def SQUID_TCP_OP_WRITE_def SQUID_TCP_OP_READ_def SQUID_TCP_OP_CLOSE_def
  SQUID_TCP_OP_STATUS_def SQUID_TCP_RESPONSE_BIT_def SQUID_TCP_STATUS_OK_def
  SQUID_TCP_STATUS_BAD_REQUEST_def SQUID_TCP_STATUS_NOT_CONNECTED_def
  SQUID_TCP_STATUS_DNS_FAILED_def SQUID_TCP_STATUS_CONNECT_FAILED_def
  SQUID_TCP_STATUS_IO_ERROR_def SQUID_TCP_STATUS_TIMEOUT_def SQUID_TCP_STATUS_DENIED_def
  SQUID_TCP_FEATURE_IPV4_def SQUID_TCP_FEATURE_IPV6_def SQUID_TCP_FEATURE_DNS_def
  SQUID_TCP_FAMILY_IPV4_def SQUID_TCP_FAMILY_IPV6_def SQUID_TCP_READ_EOF_def
  SQUID_TCP_HOST_MAX_def SQUID_TCP_READ_HEADER_SIZE_def SQUID_TCP_READ_WAIT_MAX_MS_def
  squid_tcp_default_connect_timeout_ms_def squid_tcp_default_write_timeout_ms_def
  squid_tcp_timeout_max_ms_def squid_tcp_allowlist_max_def

subsection \<open>The socket layer\<close>

record addrinfo =
  ai_inet6 :: bool \<comment> \<open>\<open>ai_family == AF_INET6\<close>\<close>
  ai_addr :: bytes

datatype poll_direction = POLLIN | POLLOUT

datatype poll_result =
    Poll_Timeout
  | Poll_Ready bool \<comment> \<open>whether \<open>revents\<close> has \<open>POLLERR\<close> or \<open>POLLNVAL\<close>\<close>
  | Poll_Failed errno

datatype tcp_event =
    Getaddrinfo bytes bytes "addrinfo list option"
  | Socket addrinfo "errno + nat"
  | Fcntl_Get int "errno + nat"
  | Fcntl_Set int "errno + unit"
  | Connect int addrinfo "errno + unit"
  | Poll_Interrupted int poll_direction nat
  | Poll int poll_direction nat poll_result
  | Getsockopt int "errno + errno option"
  | Net_Send int bytes "errno + nat"
  | Net_Recv int nat "errno + bytes"
  | Net_Close int "errno + unit"

record tcp_api =
  net_getaddrinfo :: "tcp_event list \<Rightarrow> bytes \<Rightarrow> bytes \<Rightarrow> addrinfo list option"
  net_socket :: "tcp_event list \<Rightarrow> addrinfo \<Rightarrow> errno + nat"
  net_fcntl_get :: "tcp_event list \<Rightarrow> int \<Rightarrow> errno + nat"
  net_fcntl_set :: "tcp_event list \<Rightarrow> int \<Rightarrow> errno + unit"
  net_connect :: "tcp_event list \<Rightarrow> int \<Rightarrow> addrinfo \<Rightarrow> errno + unit"
  net_interrupts :: "tcp_event list \<Rightarrow> nat"
  net_poll :: "tcp_event list \<Rightarrow> int \<Rightarrow> poll_direction \<Rightarrow> nat \<Rightarrow> poll_result"
  net_getsockopt :: "tcp_event list \<Rightarrow> int \<Rightarrow> errno + errno option"
  net_send :: "tcp_event list \<Rightarrow> int \<Rightarrow> bytes \<Rightarrow> errno + nat"
  net_recv :: "tcp_event list \<Rightarrow> int \<Rightarrow> nat \<Rightarrow> errno + bytes"
  net_close :: "tcp_event list \<Rightarrow> int \<Rightarrow> errno + unit"

definition tcp_close :: "tcp_api \<Rightarrow> int \<Rightarrow> (tcp_event, unit option) io" where
  "tcp_close api fd = syscall (\<lambda>h. net_close api h fd) (Net_Close fd)"

text \<open>\<open>send\<close> takes, and \<open>recv\<close> delivers, at most the bytes asked for.\<close>

definition tcp_send :: "tcp_api \<Rightarrow> int \<Rightarrow> bytes \<Rightarrow> (tcp_event, nat option) io" where
  "tcp_send api fd data =
     syscall (\<lambda>h. map_sum id (min (length data)) (net_send api h fd data)) (Net_Send fd data)"

definition tcp_recv :: "tcp_api \<Rightarrow> int \<Rightarrow> nat \<Rightarrow> (tcp_event, bytes option) io" where
  "tcp_recv api fd n =
     syscall (\<lambda>h. map_sum id (take n) (net_recv api h fd n)) (Net_Recv fd n)"

subsection \<open>The context\<close>

record squid_tcp_context =
  socket_fd :: int
  connect_timeout_ms :: nat
  write_timeout_ms :: nat
  allowed_hosts :: bytes

definition tcp_write_status :: "u8 \<Rightarrow> u8 \<Rightarrow> nat \<Rightarrow> bytes option" where
  "tcp_write_status opcode status capacity =
     (if capacity < 2 then None else Some [opcode OR SQUID_TCP_RESPONSE_BIT, status])"

definition close_connection ::
  "tcp_api \<Rightarrow> squid_tcp_context \<Rightarrow> (tcp_event, squid_tcp_context) io" where
  "close_connection api context =
     (if socket_fd context \<ge> 0 then do {
        _ \<leftarrow> tcp_close api (socket_fd context);
        State_Monad.return (context\<lparr>socket_fd := -1\<rparr>) }
      else State_Monad.return context)"

definition init_squid_tcp_context :: "bytes option \<Rightarrow> nat \<Rightarrow> nat \<Rightarrow> squid_tcp_context" where
  "init_squid_tcp_context hosts connect_ms write_ms =
     (let connect_ms = (if connect_ms = 0 then squid_tcp_default_connect_timeout_ms else connect_ms);
          write_ms = (if write_ms = 0 then squid_tcp_default_write_timeout_ms else write_ms)
      in \<lparr>socket_fd = -1,
          connect_timeout_ms = (if connect_ms > squid_tcp_timeout_max_ms
            then squid_tcp_timeout_max_ms else connect_ms),
          write_timeout_ms = (if write_ms > squid_tcp_timeout_max_ms
            then squid_tcp_timeout_max_ms else write_ms),
          allowed_hosts = (case hosts of None \<Rightarrow> [] | Some text \<Rightarrow> take (squid_tcp_allowlist_max - 1) text)\<rparr>)"

definition free_squid_tcp_context ::
  "tcp_api \<Rightarrow> squid_tcp_context \<Rightarrow> (tcp_event, squid_tcp_context) io" where
  "free_squid_tcp_context api context = do {
     _ \<leftarrow> close_connection api context;
     State_Monad.return \<lparr>socket_fd = -1, connect_timeout_ms = 0, write_timeout_ms = 0,
       allowed_hosts = []\<rparr> }"

subsection \<open>Hosts\<close>

fun text_equals_case_insensitive :: "bytes \<Rightarrow> bytes \<Rightarrow> bool" where
  "text_equals_case_insensitive [] [] = True"
| "text_equals_case_insensitive (l # left) (r # right) =
     (tolower l = tolower r \<and> text_equals_case_insensitive left right)"
| "text_equals_case_insensitive _ _ = False"

definition comma :: u8 where "comma = 44"

text \<open>The loop of \<open>host_is_allowed\<close>, on the text from \<open>cursor\<close> on.\<close>

function host_in_list :: "bytes \<Rightarrow> bytes \<Rightarrow> bool" where
  "host_in_list cursor host =
     (if cursor = [] then False
      else let start = dropWhile isspace cursor;
               entry = trim_right (takeWhile (\<lambda>c. c \<noteq> comma) start);
               rest = dropWhile (\<lambda>c. c \<noteq> comma) start
           in if text_equals_case_insensitive entry host then True
              else host_in_list (drop 1 rest) host)"
  by pat_completeness auto
termination
proof (relation "measure (\<lambda>(cursor, _). length cursor)", goal_cases)
  case (2 cursor host start entry rest)
  have "length rest \<le> length start" "length start \<le> length cursor"
    using 2 by (simp_all add: length_dropWhile_le)
  with 2 show ?case by (cases cursor) auto
qed simp

declare host_in_list.simps [simp del]

definition host_is_allowed :: "squid_tcp_context \<Rightarrow> bytes \<Rightarrow> bool" where
  "host_is_allowed context host =
     (if allowed_hosts context = [] \<or> allowed_hosts context = ascii ''*'' then True
      else host_in_list (allowed_hosts context) host)"

definition host_is_valid :: "bytes \<Rightarrow> bool" where
  "host_is_valid host \<longleftrightarrow> host \<noteq> [] \<and> length host \<le> SQUID_TCP_HOST_MAX \<and>
     list_all (\<lambda>c. c \<noteq> 0 \<and> \<not> isspace c \<and> c \<noteq> of_char CHR ''/'' \<and> c \<noteq> 92) host"

subsection \<open>Sockets\<close>

definition set_nonblocking :: "tcp_api \<Rightarrow> int \<Rightarrow> (tcp_event, bool) io" where
  "set_nonblocking api fd = do {
     flags \<leftarrow> syscall (\<lambda>h. net_fcntl_get api h fd) (Fcntl_Get fd);
     case flags of
       None \<Rightarrow> State_Monad.return False
     | Some _ \<Rightarrow> do {
         result \<leftarrow> syscall (\<lambda>h. net_fcntl_set api h fd) (Fcntl_Set fd);
         State_Monad.return (result \<noteq> None) } }"

primrec poll_retry :: "tcp_api \<Rightarrow> int \<Rightarrow> poll_direction \<Rightarrow> nat \<Rightarrow> nat \<Rightarrow> (tcp_event, poll_result) io" where
  "poll_retry api fd direction timeout_ms 0 =
     query (\<lambda>h. net_poll api h fd direction timeout_ms) (Poll fd direction timeout_ms)"
| "poll_retry api fd direction timeout_ms (Suc n) = do {
     _ \<leftarrow> query (\<lambda>_. ()) (\<lambda>_. Poll_Interrupted fd direction timeout_ms);
     _ \<leftarrow> set_errno EINTR;
     poll_retry api fd direction timeout_ms n }"

text \<open>The result is \<open>1\<close>, \<open>0\<close> or \<open>-1\<close> as in C.\<close>

definition wait_for_socket ::
  "tcp_api \<Rightarrow> int \<Rightarrow> poll_direction \<Rightarrow> nat \<Rightarrow> (tcp_event, int) io" where
  "wait_for_socket api fd direction timeout_ms = do {
     n \<leftarrow> State (\<lambda>s. (net_interrupts api (trace s), s));
     result \<leftarrow> poll_retry api fd direction timeout_ms n;
     case result of
       Poll_Failed e \<Rightarrow> do { _ \<leftarrow> set_errno e; State_Monad.return (-1) }
     | Poll_Timeout \<Rightarrow> State_Monad.return 0
     | Poll_Ready error \<Rightarrow>
         (if error then do { _ \<leftarrow> set_errno EIO; State_Monad.return (-1) }
          else State_Monad.return 1) }"

text \<open>\<open>close(socket_fd); return -1;\<close>\<close>

definition abandon_socket :: "tcp_api \<Rightarrow> nat \<Rightarrow> (tcp_event, nat option) io" where
  "abandon_socket api fd = do { _ \<leftarrow> tcp_close api (int fd); State_Monad.return None }"

text \<open>The completion of a connection in progress.\<close>

definition finish_connect :: "tcp_api \<Rightarrow> nat \<Rightarrow> nat \<Rightarrow> (tcp_event, nat option) io" where
  "finish_connect api fd timeout_ms = do {
     result \<leftarrow> wait_for_socket api (int fd) POLLOUT timeout_ms;
     if result \<le> 0 then do {
       _ \<leftarrow> (if result = 0 then set_errno ETIMEDOUT else State_Monad.return ());
       abandon_socket api fd }
     else do {
       status \<leftarrow> syscall (\<lambda>h. net_getsockopt api h (int fd)) (Getsockopt (int fd));
       case status of
         None \<Rightarrow> abandon_socket api fd
       | Some (Some e) \<Rightarrow> do { _ \<leftarrow> set_errno e; abandon_socket api fd }
       | Some None \<Rightarrow> State_Monad.return (Some fd) } }"

definition connect_address :: "tcp_api \<Rightarrow> addrinfo \<Rightarrow> nat \<Rightarrow> (tcp_event, nat option) io" where
  "connect_address api address timeout_ms = do {
     socket \<leftarrow> syscall (\<lambda>h. net_socket api h address) (Socket address);
     case socket of
       None \<Rightarrow> State_Monad.return None
     | Some fd \<Rightarrow> do {
         ok \<leftarrow> set_nonblocking api (int fd);
         if \<not> ok then abandon_socket api fd
         else do {
           result \<leftarrow> syscall (\<lambda>h. net_connect api h (int fd) address) (Connect (int fd) address);
           case result of
             Some _ \<Rightarrow> State_Monad.return (Some fd)
           | None \<Rightarrow> do {
               e \<leftarrow> get_errno;
               if e \<noteq> EINPROGRESS then abandon_socket api fd
               else finish_connect api fd timeout_ms } } } }"

fun connect_any ::
  "tcp_api \<Rightarrow> nat \<Rightarrow> addrinfo list \<Rightarrow> (tcp_event, (nat \<times> u8) option) io" where
  "connect_any api timeout_ms [] = State_Monad.return None"
| "connect_any api timeout_ms (address # addresses) = do {
     connected \<leftarrow> connect_address api address timeout_ms;
     case connected of
       Some fd \<Rightarrow> State_Monad.return (Some (fd,
         if ai_inet6 address then SQUID_TCP_FAMILY_IPV6 else SQUID_TCP_FAMILY_IPV4))
     | None \<Rightarrow> connect_any api timeout_ms addresses }"

subsection \<open>Operations\<close>

text \<open>An operation returns its response and the context it leaves.\<close>

type_synonym tcp_result = "bytes option \<times> squid_tcp_context"

definition tcp_handle_capabilities :: "u8 \<Rightarrow> nat \<Rightarrow> bytes option" where
  "tcp_handle_capabilities opcode capacity =
     (if capacity < 7 then None
      else Some [opcode OR SQUID_TCP_RESPONSE_BIT, SQUID_TCP_STATUS_OK, SQUID_TCP_PROTOCOL_VERSION,
        SQUID_TCP_FEATURE_IPV4 OR SQUID_TCP_FEATURE_IPV6 OR SQUID_TCP_FEATURE_DNS,
        of_nat SQUID_TCP_HOST_MAX,
        if capacity > SQUID_TCP_READ_HEADER_SIZE
        then of_nat (capacity - SQUID_TCP_READ_HEADER_SIZE) else 0,
        if capacity > 2 then of_nat (capacity - 2) else 0])"

definition tcp_handle_connect ::
  "tcp_api \<Rightarrow> squid_tcp_context \<Rightarrow> u8 \<Rightarrow> bytes \<Rightarrow> nat \<Rightarrow> (tcp_event, tcp_result) io" where
  "tcp_handle_connect api context opcode request capacity =
     (let port = read_u16 (drop 1 request); host = drop 4 request;
          failed = (\<lambda>status. State_Monad.return (tcp_write_status opcode status capacity, context)) in
      if length request < 5 then failed SQUID_TCP_STATUS_BAD_REQUEST
      else if port = 0 \<or> unat (request ! 3) \<noteq> length request - 4 \<or> \<not> host_is_valid host
      then failed SQUID_TCP_STATUS_BAD_REQUEST
      else if \<not> host_is_allowed context host then failed SQUID_TCP_STATUS_DENIED
      else do {
        lookup \<leftarrow> query (\<lambda>h. net_getaddrinfo api h host (show_nat (unat port)))
          (Getaddrinfo host (show_nat (unat port)));
        case lookup of
          None \<Rightarrow> failed SQUID_TCP_STATUS_DNS_FAILED
        | Some addresses \<Rightarrow> do {
            connected \<leftarrow> connect_any api (connect_timeout_ms context) addresses;
            case connected of
              None \<Rightarrow> do {
                e \<leftarrow> get_errno;
                failed (if e = ETIMEDOUT then SQUID_TCP_STATUS_TIMEOUT
                        else SQUID_TCP_STATUS_CONNECT_FAILED) }
            | Some (fd, family) \<Rightarrow>
                (if capacity < 3 then do {
                   _ \<leftarrow> tcp_close api (int fd);
                   State_Monad.return (None, context) }
                 else do {
                   closed \<leftarrow> close_connection api context;
                   State_Monad.return
                     (Some [opcode OR SQUID_TCP_RESPONSE_BIT, SQUID_TCP_STATUS_OK, family],
                      closed\<lparr>socket_fd := int fd\<rparr>) }) } })"

text \<open>\<open>close_connection(context); return write_status(opcode, SQUID_TCP_STATUS_IO_ERROR, ...);\<close>\<close>

definition drop_connection ::
  "tcp_api \<Rightarrow> squid_tcp_context \<Rightarrow> u8 \<Rightarrow> nat \<Rightarrow> (tcp_event, tcp_result) io" where
  "drop_connection api context opcode capacity = do {
     closed \<leftarrow> close_connection api context;
     State_Monad.return (tcp_write_status opcode SQUID_TCP_STATUS_IO_ERROR capacity, closed) }"

definition tcp_handle_write ::
  "tcp_api \<Rightarrow> squid_tcp_context \<Rightarrow> u8 \<Rightarrow> bytes \<Rightarrow> nat \<Rightarrow> (tcp_event, tcp_result) io" where
  "tcp_handle_write api context opcode request capacity =
     (let failed = (\<lambda>status. State_Monad.return (tcp_write_status opcode status capacity, context)) in
      if length request < 3 \<or> unat (request ! 1) \<noteq> length request - 2 \<or> request ! 1 = 0
      then failed SQUID_TCP_STATUS_BAD_REQUEST
      else if socket_fd context < 0 then failed SQUID_TCP_STATUS_NOT_CONNECTED
      else do {
        ready \<leftarrow> wait_for_socket api (socket_fd context) POLLOUT (write_timeout_ms context);
        if ready = 0 then failed SQUID_TCP_STATUS_TIMEOUT
        else if ready < 0 then drop_connection api context opcode capacity
        else do {
          written \<leftarrow> tcp_send api (socket_fd context) (drop 2 request);
          case written of
            None \<Rightarrow> do {
              e \<leftarrow> get_errno;
              if e = EAGAIN then failed SQUID_TCP_STATUS_TIMEOUT
              else drop_connection api context opcode capacity }
          | Some n \<Rightarrow>
              (if n = 0 then drop_connection api context opcode capacity
               else State_Monad.return
                 (if capacity < 3 then None
                  else Some [opcode OR SQUID_TCP_RESPONSE_BIT, SQUID_TCP_STATUS_OK, of_nat n],
                  context)) } })"

definition read_room :: "u8 \<Rightarrow> nat \<Rightarrow> nat" where
  "read_room maximum_bytes capacity =
     (let data_capacity = capacity - SQUID_TCP_READ_HEADER_SIZE;
          data_capacity = (if maximum_bytes > 0 \<and> data_capacity > unat maximum_bytes
                           then unat maximum_bytes else data_capacity)
      in if data_capacity > 255 then 255 else data_capacity)"

definition tcp_read_reply :: "u8 \<Rightarrow> u8 \<Rightarrow> bytes \<Rightarrow> bytes" where
  "tcp_read_reply opcode flags data =
     [opcode OR SQUID_TCP_RESPONSE_BIT, SQUID_TCP_STATUS_OK, flags, of_nat (length data)] @ data"

definition tcp_handle_read ::
  "tcp_api \<Rightarrow> squid_tcp_context \<Rightarrow> u8 \<Rightarrow> bytes \<Rightarrow> nat \<Rightarrow> (tcp_event, tcp_result) io" where
  "tcp_handle_read api context opcode request capacity =
     (let failed = (\<lambda>status. State_Monad.return (tcp_write_status opcode status capacity, context));
          wait_ms = read_u16 (drop 1 request) in
      if length request \<noteq> 4 then failed SQUID_TCP_STATUS_BAD_REQUEST
      else if socket_fd context < 0 then failed SQUID_TCP_STATUS_NOT_CONNECTED
      else if capacity < SQUID_TCP_READ_HEADER_SIZE then State_Monad.return (None, context)
      else if wait_ms > SQUID_TCP_READ_WAIT_MAX_MS then failed SQUID_TCP_STATUS_BAD_REQUEST
      else do {
        ready \<leftarrow> wait_for_socket api (socket_fd context) POLLIN (unat wait_ms);
        if ready < 0 then drop_connection api context opcode capacity
        else if ready = 0 then State_Monad.return (Some (tcp_read_reply opcode 0 []), context)
        else do {
          received \<leftarrow> tcp_recv api (socket_fd context) (read_room (request ! 3) capacity);
          case received of
            None \<Rightarrow> do {
              e \<leftarrow> get_errno;
              if e = EAGAIN then State_Monad.return (Some (tcp_read_reply opcode 0 []), context)
              else drop_connection api context opcode capacity }
          | Some data \<Rightarrow>
              (if data = [] then do {
                 closed \<leftarrow> close_connection api context;
                 State_Monad.return (Some (tcp_read_reply opcode SQUID_TCP_READ_EOF []), closed) }
               else State_Monad.return (Some (tcp_read_reply opcode 0 data), context)) } })"

definition tcp_handle_status :: "squid_tcp_context \<Rightarrow> u8 \<Rightarrow> nat \<Rightarrow> bytes option" where
  "tcp_handle_status context opcode capacity =
     (if capacity < 3 then None
      else Some [opcode OR SQUID_TCP_RESPONSE_BIT, SQUID_TCP_STATUS_OK,
        if socket_fd context \<ge> 0 then 1 else 0])"

definition handle_squid_tcp_request ::
  "tcp_api \<Rightarrow> squid_tcp_context \<Rightarrow> bytes \<Rightarrow> nat \<Rightarrow> (tcp_event, tcp_result) io" where
  "handle_squid_tcp_request api context request capacity =
     (if request = [] \<or> capacity < 2 then State_Monad.return (None, context)
      else let opcode = request ! 0;
               bad_request = tcp_write_status opcode SQUID_TCP_STATUS_BAD_REQUEST capacity in
        if opcode = SQUID_TCP_OP_CAPABILITIES then State_Monad.return
          (if length request \<noteq> 1 then bad_request else tcp_handle_capabilities opcode capacity, context)
        else if opcode = SQUID_TCP_OP_CONNECT then
          tcp_handle_connect api context opcode request capacity
        else if opcode = SQUID_TCP_OP_WRITE then
          tcp_handle_write api context opcode request capacity
        else if opcode = SQUID_TCP_OP_READ then
          tcp_handle_read api context opcode request capacity
        else if opcode = SQUID_TCP_OP_CLOSE then
          (if length request \<noteq> 1 then State_Monad.return (bad_request, context)
           else do {
             closed \<leftarrow> close_connection api context;
             State_Monad.return (tcp_write_status opcode SQUID_TCP_STATUS_OK capacity, closed) })
        else if opcode = SQUID_TCP_OP_STATUS then State_Monad.return
          (if length request \<noteq> 1 then bad_request else tcp_handle_status context opcode capacity, context)
        else State_Monad.return (bad_request, context))"

subsection \<open>The plugin\<close>

record squid_tcp_plugin_state =
  tcp_context :: squid_tcp_context
  tcp_started :: bool

text \<open>
  \<open>strtoul (text, &after, 10)\<close> on a 64-bit \<open>unsigned long\<close>: the value, whether \<open>errno\<close> was set,
  and the text at \<open>after\<close>. A minus sign negates modulo \<open>2 ^ 64\<close>.
\<close>

definition strtoul :: "bytes \<Rightarrow> nat \<times> bool \<times> bytes" where
  "strtoul text =
     (let s = dropWhile isspace text;
          negative = (s \<noteq> [] \<and> hd s = of_char CHR ''-'');
          s' = (if s \<noteq> [] \<and> (hd s = of_char CHR ''-'' \<or> hd s = of_char CHR ''+'') then tl s else s);
          digits = takeWhile isdigit s';
          v = nat (digits_value 0 digits)
      in if digits = [] then (0, False, text)
         else if v > 2 ^ 64 - 1 then (2 ^ 64 - 1, True, dropWhile isdigit s')
         else (if negative then (2 ^ 64 - v) mod 2 ^ 64 else v, False, dropWhile isdigit s'))"

definition read_timeout_environment :: "bytes option \<Rightarrow> nat" where
  "read_timeout_environment v =
     (case v of
        None \<Rightarrow> 0
      | Some text \<Rightarrow>
          (if text = [] then 0
           else case strtoul text of (n, failed, after) \<Rightarrow>
             if failed \<or> after \<noteq> [] \<or> n > 2 ^ 32 - 1 then 0 else n))"

record tcp_environment =
  SQUID_TCP_ALLOWED_HOSTS :: "bytes option"
  SQUID_TCP_CONNECT_TIMEOUT_MS :: "bytes option"
  SQUID_TCP_WRITE_TIMEOUT_MS :: "bytes option"

definition start_squid_tcp_plugin ::
  "tcp_environment \<Rightarrow> squid_tcp_plugin_state \<Rightarrow> squid_tcp_plugin_state" where
  "start_squid_tcp_plugin environment state =
     (if tcp_started state then state
      else \<lparr>tcp_context = init_squid_tcp_context (SQUID_TCP_ALLOWED_HOSTS environment)
              (read_timeout_environment (SQUID_TCP_CONNECT_TIMEOUT_MS environment))
              (read_timeout_environment (SQUID_TCP_WRITE_TIMEOUT_MS environment)),
            tcp_started = True\<rparr>)"

definition stop_squid_tcp_plugin ::
  "tcp_api \<Rightarrow> squid_tcp_plugin_state \<Rightarrow> (tcp_event, squid_tcp_plugin_state) io" where
  "stop_squid_tcp_plugin api state =
     (if tcp_started state then do {
        context \<leftarrow> free_squid_tcp_context api (tcp_context state);
        State_Monad.return \<lparr>tcp_context = context, tcp_started = False\<rparr> }
      else State_Monad.return state)"

definition handle_squid_tcp_packet ::
  "tcp_api \<Rightarrow> squid_tcp_plugin_state \<Rightarrow> bytes \<Rightarrow> nat \<Rightarrow>
     (tcp_event, bytes option \<times> squid_tcp_plugin_state) io" where
  "handle_squid_tcp_packet api state request capacity =
     (if request = [] \<or> capacity = 0 \<or> \<not> tcp_started state then State_Monad.return (None, state)
      else do {
        (response, context) \<leftarrow> handle_squid_tcp_request api (tcp_context state) request capacity;
        State_Monad.return (response, state\<lparr>tcp_context := context\<rparr>) })"

end
