(* ===== verification/Client_Services.thy ===== *)
theory Client_Services
  imports Client_Core Time_Service Filesystem_Service Tcp_Proxy Retro_Protocol
begin

text \<open>
  The typed clients, \<open>lib/client/\<close>: \<open>time.c\<close>, \<open>echo.c\<close>, \<open>system.c\<close>, \<open>filesystem.c\<close>, \<open>tcp_proxy.c\<close>
  and \<open>retrovault.c\<close>. Each call checks its arguments, writes a request into the workspace, makes an
  exchange and decodes the response. The result is \<open>Inl code\<close> for a non-zero return value, else
  \<open>Inr v\<close> with the out-parameters \<open>v\<close>; as before, \<open>None\<close> is fuel exhaustion. A pointer into the
  workspace (the zero-copy results) is the bytes it points to. A C string argument is its text,
  \<open>None\<close> for a null pointer; the other pointers are not null.
\<close>

type_synonym 'v cl_outcome = "((int + 'v) \<times> squid_client) option"

definition conclude ::
  "(squid_client \<Rightarrow> nat \<Rightarrow> int + 'v) \<Rightarrow> (int \<times> squid_client \<times> nat) option \<Rightarrow> 'v cl_outcome" where
  "conclude decode = map_option (\<lambda>(code, client, response_size).
     (if code \<noteq> 0 then Inl code else decode client response_size, client))"

abbreviation bad_argument :: "squid_client \<Rightarrow> (cl_event, 'v cl_outcome) io" where
  "bad_argument client \<equiv> State_Monad.return (Some (Inl SQUID_CLIENT_ERROR_ARGUMENT, client))"

definition text_bytes :: "bytes option \<Rightarrow> bytes" where
  "text_bytes txt = (case txt of None \<Rightarrow> [] | Some t \<Rightarrow> t)"

text \<open>The bytes of the workspace from an index on.\<close>

abbreviation slice :: "squid_client \<Rightarrow> nat \<Rightarrow> nat \<Rightarrow> bytes" where
  "slice client i n \<equiv> take n (drop i (packet client))"

subsection \<open>Time, echo and system\<close>

record squid_client_time =
  time_year :: u16
  time_month :: u8
  time_day :: u8
  time_hour :: u8
  time_minute :: u8
  time_second :: u8
  time_weekday :: u8
  time_daylight_saving :: u8
  time_utc_offset_minutes :: int
  time_unix_seconds :: u32

definition decode_time :: "bytes \<Rightarrow> squid_client_time" where
  "decode_time response =
     \<lparr>time_year = squid_client_read_u16 (drop 2 response), time_month = response ! 4,
      time_day = response ! 5, time_hour = response ! 6, time_minute = response ! 7,
      time_second = response ! 8, time_weekday = response ! 9 AND SQUID_TIME_WEEKDAY_MASK,
      time_daylight_saving = (if response ! 9 AND SQUID_TIME_DST_BIT \<noteq> 0 then 1 else 0),
      time_utc_offset_minutes = sint (squid_client_read_u16 (drop 10 response)),
      time_unix_seconds = squid_client_read_u32 (drop 12 response)\<rparr>"

definition squid_client_time_get ::
  "cl_api \<Rightarrow> nat \<Rightarrow> squid_client \<Rightarrow> u8 \<Rightarrow> (cl_event, squid_client_time cl_outcome) io" where
  "squid_client_time_get api fuel client mode =
     (if (mode \<noteq> SQUID_TIME_MODE_UTC \<and> mode \<noteq> SQUID_TIME_MODE_LOCAL) \<or> packet_capacity client < 2
      then bad_argument client
      else do {
        r \<leftarrow> squid_client_response api fuel (put_packet client 1 [SQUID_TIME_OP_GET, mode]) 2
          SQUID_TIME_OP_GET SQUID_TIME_REPLY_SIZE;
        State_Monad.return (conclude (\<lambda>client response_size.
          if response_size \<noteq> SQUID_TIME_REPLY_SIZE then Inl SQUID_CLIENT_ERROR_PROTOCOL
          else Inr (decode_time (packet client))) r) })"

text \<open>Echo and system replies have no header: the exchange's result is the reply.\<close>

definition exchange_reply :: "cl_result \<Rightarrow> bytes cl_outcome" where
  "exchange_reply = map_option (\<lambda>(response_size, client).
     (if response_size < 0 then Inl response_size
      else Inr (take (nat response_size mod 256) (packet client)), client))"

definition squid_client_echo ::
  "cl_api \<Rightarrow> nat \<Rightarrow> squid_client \<Rightarrow> bytes \<Rightarrow> u8 \<Rightarrow> (cl_event, bytes cl_outcome) io" where
  "squid_client_echo api fuel client data n =
     (if n = 0 \<or> unat n > packet_capacity client then bad_argument client
      else do {
        r \<leftarrow> squid_client_exchange api fuel (put_packet client 1 (take (unat n) data)) (unat n);
        State_Monad.return (exchange_reply r) })"

definition squid_client_system_id ::
  "cl_api \<Rightarrow> nat \<Rightarrow> squid_client \<Rightarrow> (cl_event, bytes cl_outcome) io" where
  "squid_client_system_id api fuel client =
     (if packet_capacity client < 2 then bad_argument client
      else do {
        r \<leftarrow> squid_client_exchange api fuel (put_packet client 1 (ascii ''id'')) 2;
        State_Monad.return (exchange_reply r) })"

subsection \<open>Filesystem\<close>

record squid_client_fs_stat =
  cl_stat_type :: u8
  cl_stat_mode :: u16
  cl_stat_size :: u32
  cl_stat_modification_time :: u32

record squid_client_fs_list =
  fs_next_cursor :: u16
  fs_entries_left :: u8
  fs_next :: bytes \<comment> \<open>the bytes from \<open>next\<close> to \<open>end\<close>\<close>

record squid_client_fs_entry =
  fs_entry_type :: u8
  fs_entry_name :: bytes
  fs_entry_size :: u32

record squid_client_fs_read =
  fs_chunk_offset :: u32
  fs_chunk_total_size :: u32
  fs_chunk_data :: bytes

definition filesystem_path_size :: "bytes option \<Rightarrow> bool \<Rightarrow> int" where
  "filesystem_path_size path allow_empty =
     (let n = squid_client_text_size path SQUID_FS_PATH_MAX in
      if n < 0 \<or> (\<not> allow_empty \<and> n = 0) then SQUID_CLIENT_ERROR_ARGUMENT else n)"

definition filesystem_path_call ::
  "cl_api \<Rightarrow> nat \<Rightarrow> squid_client \<Rightarrow> u8 \<Rightarrow> bytes option \<Rightarrow> bool \<Rightarrow> nat \<Rightarrow>
     (cl_event, (int \<times> squid_client \<times> nat) option) io" where
  "filesystem_path_call api fuel client opcode path allow_empty minimum_response_size =
     (let path_size = filesystem_path_size path allow_empty;
          request_size = 2 + nat path_size in
      if path_size < 0 \<or> request_size > packet_capacity client
      then State_Monad.return (Some (SQUID_CLIENT_ERROR_ARGUMENT, client, 0))
      else squid_client_response api fuel
        (put_packet client 1 ([opcode, of_int path_size] @ text_bytes path))
        request_size opcode minimum_response_size)"

definition squid_client_fs_stat ::
  "cl_api \<Rightarrow> nat \<Rightarrow> squid_client \<Rightarrow> bytes option \<Rightarrow> (cl_event, squid_client_fs_stat cl_outcome) io" where
  "squid_client_fs_stat api fuel client path = do {
     r \<leftarrow> filesystem_path_call api fuel client SQUID_FS_OP_STAT path True 13;
     State_Monad.return (conclude (\<lambda>client response_size.
       if response_size \<noteq> 13 then Inl SQUID_CLIENT_ERROR_PROTOCOL
       else Inr \<lparr>cl_stat_type = packet client ! 2,
         cl_stat_mode = squid_client_read_u16 (drop 3 (packet client)),
         cl_stat_size = squid_client_read_u32 (drop 5 (packet client)),
         cl_stat_modification_time = squid_client_read_u32 (drop 9 (packet client))\<rparr>) r) }"

definition squid_client_fs_list ::
  "cl_api \<Rightarrow> nat \<Rightarrow> squid_client \<Rightarrow> bytes option \<Rightarrow> u16 \<Rightarrow>
     (cl_event, squid_client_fs_list cl_outcome) io" where
  "squid_client_fs_list api fuel client path cursor =
     (let path_size = filesystem_path_size path True; request_size = 4 + nat path_size in
      if path_size < 0 \<or> request_size > packet_capacity client then bad_argument client
      else do {
        r \<leftarrow> squid_client_response api fuel
          (put_packet client 1 ([SQUID_FS_OP_LIST] @ squid_client_write_u16 cursor @
             [of_int path_size] @ text_bytes path))
          request_size SQUID_FS_OP_LIST 5;
        State_Monad.return (conclude (\<lambda>client response_size.
          Inr \<lparr>fs_next_cursor = squid_client_read_u16 (drop 2 (packet client)),
            fs_entries_left = packet client ! 4,
            fs_next = slice client 5 (response_size - 5)\<rparr>) r) })"

text \<open>\<open>Inr None\<close> is the return value 0 (the end), \<open>Inr (Some _)\<close> is 1.\<close>

definition fs_list_step :: "u8 \<Rightarrow> bytes \<Rightarrow> int + (squid_client_fs_entry \<times> u8 \<times> bytes) option" where
  "fs_list_step entries_left current =
     (if entries_left = 0 then
        (if current = [] then Inr None else Inl SQUID_CLIENT_ERROR_PROTOCOL)
      else if length current < 6 then Inl SQUID_CLIENT_ERROR_PROTOCOL
      else let name_size = unat (current ! 1) in
        if length current < 6 + name_size then Inl SQUID_CLIENT_ERROR_PROTOCOL
        else Inr (Some
          (\<lparr>fs_entry_type = current ! 0, fs_entry_name = take name_size (drop 2 current),
            fs_entry_size = squid_client_read_u32 (drop (2 + name_size) current)\<rparr>,
           entries_left - 1, drop (6 + name_size) current)))"

definition squid_client_fs_list_next ::
  "squid_client_fs_list \<Rightarrow> int + (squid_client_fs_entry \<times> squid_client_fs_list) option" where
  "squid_client_fs_list_next page =
     (case fs_list_step (fs_entries_left page) (fs_next page) of
        Inl e \<Rightarrow> Inl e
      | Inr None \<Rightarrow> Inr None
      | Inr (Some (e, n, rest)) \<Rightarrow>
          Inr (Some (e, page\<lparr>fs_entries_left := n, fs_next := rest\<rparr>)))"

definition squid_client_fs_read ::
  "cl_api \<Rightarrow> nat \<Rightarrow> squid_client \<Rightarrow> bytes option \<Rightarrow> u32 \<Rightarrow> u8 \<Rightarrow>
     (cl_event, squid_client_fs_read cl_outcome) io" where
  "squid_client_fs_read api fuel client path offset maximum_bytes =
     (let path_size = filesystem_path_size path False; request_size = 7 + nat path_size in
      if path_size < 0 \<or> request_size > packet_capacity client then bad_argument client
      else do {
        r \<leftarrow> squid_client_response api fuel
          (put_packet client 1 ([SQUID_FS_OP_READ] @ squid_client_write_u32 offset @
             [maximum_bytes, of_int path_size] @ text_bytes path))
          request_size SQUID_FS_OP_READ 11;
        State_Monad.return (conclude (\<lambda>client response_size.
          let data_size = unat (packet client ! 10) in
          if response_size \<noteq> 11 + data_size then Inl SQUID_CLIENT_ERROR_PROTOCOL
          else Inr \<lparr>fs_chunk_offset = squid_client_read_u32 (drop 2 (packet client)),
            fs_chunk_total_size = squid_client_read_u32 (drop 6 (packet client)),
            fs_chunk_data = slice client 11 data_size\<rparr>) r) })"

text \<open>\<open>data\<close> is \<open>None\<close> for a null pointer; the result is \<open>*written\<close>.\<close>

definition squid_client_fs_write ::
  "cl_api \<Rightarrow> nat \<Rightarrow> squid_client \<Rightarrow> bytes option \<Rightarrow> u32 \<Rightarrow> u8 \<Rightarrow> bytes option \<Rightarrow> u8 \<Rightarrow>
     (cl_event, u8 cl_outcome) io" where
  "squid_client_fs_write api fuel client path offset flags data n =
     (let path_size = filesystem_path_size path False;
          request_size = 8 + nat path_size + unat n in
      if path_size < 0 \<or> (n > 0 \<and> data = None) \<or> request_size > packet_capacity client
      then bad_argument client
      else do {
        r \<leftarrow> squid_client_response api fuel
          (put_packet client 1 ([SQUID_FS_OP_WRITE] @ squid_client_write_u32 offset @
             [flags, of_int path_size] @ text_bytes path @ [n] @ take (unat n) (text_bytes data)))
          request_size SQUID_FS_OP_WRITE 7;
        State_Monad.return (conclude (\<lambda>client response_size.
          if response_size \<noteq> 7 \<or> packet client ! 6 > n \<or>
             squid_client_read_u32 (drop 2 (packet client)) \<noteq> offset
          then Inl SQUID_CLIENT_ERROR_PROTOCOL
          else Inr (packet client ! 6)) r) })"

text \<open>Responses that carry only a status.\<close>

definition bare_response :: "squid_client \<Rightarrow> nat \<Rightarrow> int + unit" where
  "bare_response client response_size =
     (if response_size = 2 then Inr () else Inl SQUID_CLIENT_ERROR_PROTOCOL)"

definition squid_client_fs_mkdir ::
  "cl_api \<Rightarrow> nat \<Rightarrow> squid_client \<Rightarrow> bytes option \<Rightarrow> (cl_event, unit cl_outcome) io" where
  "squid_client_fs_mkdir api fuel client path = do {
     r \<leftarrow> filesystem_path_call api fuel client SQUID_FS_OP_MKDIR path False 2;
     State_Monad.return (conclude bare_response r) }"

definition squid_client_fs_delete ::
  "cl_api \<Rightarrow> nat \<Rightarrow> squid_client \<Rightarrow> bytes option \<Rightarrow> (cl_event, unit cl_outcome) io" where
  "squid_client_fs_delete api fuel client path = do {
     r \<leftarrow> filesystem_path_call api fuel client SQUID_FS_OP_DELETE path False 2;
     State_Monad.return (conclude bare_response r) }"

definition squid_client_fs_rename ::
  "cl_api \<Rightarrow> nat \<Rightarrow> squid_client \<Rightarrow> bytes option \<Rightarrow> bytes option \<Rightarrow> (cl_event, unit cl_outcome) io" where
  "squid_client_fs_rename api fuel client old_path new_path =
     (let old_size = filesystem_path_size old_path False;
          new_size = filesystem_path_size new_path False;
          request_size = 3 + nat old_size + nat new_size in
      if old_size < 0 \<or> new_size < 0 \<or> request_size > packet_capacity client
      then bad_argument client
      else do {
        r \<leftarrow> squid_client_response api fuel
          (put_packet client 1 ([SQUID_FS_OP_RENAME, of_int old_size] @ text_bytes old_path @
             [of_int new_size] @ text_bytes new_path))
          request_size SQUID_FS_OP_RENAME 2;
        State_Monad.return (conclude bare_response r) })"

subsection \<open>TCP proxy\<close>

record squid_client_tcp_read =
  tcp_chunk_eof :: u8
  tcp_chunk_data :: bytes

definition squid_client_tcp_connect ::
  "cl_api \<Rightarrow> nat \<Rightarrow> squid_client \<Rightarrow> bytes option \<Rightarrow> u16 \<Rightarrow> (cl_event, u8 cl_outcome) io" where
  "squid_client_tcp_connect api fuel client host port =
     (let host_size = squid_client_text_size host SQUID_TCP_HOST_MAX;
          request_size = 4 + nat host_size in
      if host_size \<le> 0 \<or> port = 0 \<or> request_size > packet_capacity client
      then bad_argument client
      else do {
        r \<leftarrow> squid_client_response api fuel
          (put_packet client 1 ([SQUID_TCP_OP_CONNECT] @ squid_client_write_u16 port @
             [of_int host_size] @ text_bytes host))
          request_size SQUID_TCP_OP_CONNECT 3;
        State_Monad.return (conclude (\<lambda>client response_size.
          if response_size \<noteq> 3 \<or> (packet client ! 2 \<noteq> SQUID_TCP_FAMILY_IPV4 \<and>
             packet client ! 2 \<noteq> SQUID_TCP_FAMILY_IPV6)
          then Inl SQUID_CLIENT_ERROR_PROTOCOL
          else Inr (packet client ! 2)) r) })"

definition squid_client_tcp_write ::
  "cl_api \<Rightarrow> nat \<Rightarrow> squid_client \<Rightarrow> bytes \<Rightarrow> u8 \<Rightarrow> (cl_event, u8 cl_outcome) io" where
  "squid_client_tcp_write api fuel client data n =
     (let request_size = 2 + unat n in
      if n = 0 \<or> request_size > packet_capacity client then bad_argument client
      else do {
        r \<leftarrow> squid_client_response api fuel
          (put_packet client 1 ([SQUID_TCP_OP_WRITE, n] @ take (unat n) data))
          request_size SQUID_TCP_OP_WRITE 3;
        State_Monad.return (conclude (\<lambda>client response_size.
          if response_size \<noteq> 3 \<or> packet client ! 2 > n then Inl SQUID_CLIENT_ERROR_PROTOCOL
          else Inr (packet client ! 2)) r) })"

definition squid_client_tcp_read ::
  "cl_api \<Rightarrow> nat \<Rightarrow> squid_client \<Rightarrow> u16 \<Rightarrow> u8 \<Rightarrow> (cl_event, squid_client_tcp_read cl_outcome) io" where
  "squid_client_tcp_read api fuel client maximum_wait_ms maximum_bytes =
     (if maximum_wait_ms > SQUID_TCP_READ_WAIT_MAX_MS \<or> packet_capacity client < 4
      then bad_argument client
      else do {
        r \<leftarrow> squid_client_response api fuel
          (put_packet client 1 ([SQUID_TCP_OP_READ] @ squid_client_write_u16 maximum_wait_ms @
             [maximum_bytes]))
          4 SQUID_TCP_OP_READ 4;
        State_Monad.return (conclude (\<lambda>client response_size.
          let data_size = unat (packet client ! 3) in
          if response_size \<noteq> 4 + data_size \<or> packet client ! 2 AND NOT SQUID_TCP_READ_EOF \<noteq> 0
          then Inl SQUID_CLIENT_ERROR_PROTOCOL
          else Inr \<lparr>tcp_chunk_eof = (if packet client ! 2 AND SQUID_TCP_READ_EOF \<noteq> 0 then 1 else 0),
            tcp_chunk_data = slice client 4 data_size\<rparr>) r) })"

definition squid_client_tcp_close ::
  "cl_api \<Rightarrow> nat \<Rightarrow> squid_client \<Rightarrow> (cl_event, unit cl_outcome) io" where
  "squid_client_tcp_close api fuel client =
     (if packet_capacity client < 1 then bad_argument client
      else do {
        r \<leftarrow> squid_client_response api fuel (put_packet client 1 [SQUID_TCP_OP_CLOSE]) 1
          SQUID_TCP_OP_CLOSE 2;
        State_Monad.return (conclude bare_response r) })"

definition squid_client_tcp_status ::
  "cl_api \<Rightarrow> nat \<Rightarrow> squid_client \<Rightarrow> (cl_event, u8 cl_outcome) io" where
  "squid_client_tcp_status api fuel client =
     (if packet_capacity client < 1 then bad_argument client
      else do {
        r \<leftarrow> squid_client_response api fuel (put_packet client 1 [SQUID_TCP_OP_STATUS]) 1
          SQUID_TCP_OP_STATUS 3;
        State_Monad.return (conclude (\<lambda>client response_size.
          if response_size \<noteq> 3 \<or> packet client ! 2 > 1 then Inl SQUID_CLIENT_ERROR_PROTOCOL
          else Inr (packet client ! 2)) r) })"

subsection \<open>RetroVault\<close>

record squid_client_retro_list =
  retro_next_cursor :: u16
  retro_entries_left :: u8
  retro_next :: bytes

record squid_client_retro_entry =
  retro_entry_id :: bytes
  retro_entry_name :: bytes

record squid_client_retro_info =
  info_next_cursor :: u16
  info_values_left :: u8
  info_next :: bytes

record squid_client_retro_value =
  retro_value_type :: u8
  retro_value_bytes :: bytes

record squid_client_retro_download =
  retro_chunk_offset :: u32
  retro_chunk_total_size :: u32
  retro_chunk_data :: bytes

definition retro_text_size :: "bytes option \<Rightarrow> int" where
  "retro_text_size txt = squid_client_text_size txt 255"

definition retro_page_response ::
  "cl_api \<Rightarrow> nat \<Rightarrow> squid_client \<Rightarrow> nat \<Rightarrow> u8 \<Rightarrow> (cl_event, squid_client_retro_list cl_outcome) io" where
  "retro_page_response api fuel client request_size opcode = do {
     r \<leftarrow> squid_client_response api fuel client request_size opcode 5;
     State_Monad.return (conclude (\<lambda>client response_size.
       Inr \<lparr>retro_next_cursor = squid_client_read_u16 (drop 2 (packet client)),
         retro_entries_left = packet client ! 4,
         retro_next = slice client 5 (response_size - 5)\<rparr>) r) }"

text \<open>The optional model at the end of a \<open>LIST\<close> or \<open>SEARCH\<close> request.\<close>

definition model_suffix :: "int \<Rightarrow> bytes option \<Rightarrow> bytes" where
  "model_suffix model_size model =
     (if model_size > 0 then of_int model_size # text_bytes model else [])"

definition squid_client_retro_list ::
  "cl_api \<Rightarrow> nat \<Rightarrow> squid_client \<Rightarrow> bytes option \<Rightarrow> bytes option \<Rightarrow> u16 \<Rightarrow>
     (cl_event, squid_client_retro_list cl_outcome) io" where
  "squid_client_retro_list api fuel client platform model cursor =
     (let platform_size = retro_text_size platform;
          model_size = retro_text_size model;
          request_size = 4 + nat platform_size + (if model_size > 0 then 1 + nat model_size else 0) in
      if platform_size < 0 \<or> model_size < 0 \<or> request_size > packet_capacity client
      then bad_argument client
      else retro_page_response api fuel
        (put_packet client 1 ([RETRO_VAULT_OP_LIST] @ squid_client_write_u16 cursor @
           [of_int platform_size] @ text_bytes platform @ model_suffix model_size model))
        request_size RETRO_VAULT_OP_LIST)"

definition squid_client_retro_search ::
  "cl_api \<Rightarrow> nat \<Rightarrow> squid_client \<Rightarrow> bytes option \<Rightarrow> bytes option \<Rightarrow> bytes option \<Rightarrow> u16 \<Rightarrow>
     (cl_event, squid_client_retro_list cl_outcome) io" where
  "squid_client_retro_search api fuel client platform model sought cursor =
     (let platform_size = retro_text_size platform;
          model_size = retro_text_size model;
          query_size = retro_text_size sought;
          request_size = 5 + nat platform_size + nat query_size +
            (if model_size > 0 then 1 + nat model_size else 0) in
      if platform_size < 0 \<or> model_size < 0 \<or> query_size < 0 \<or>
         request_size > packet_capacity client
      then bad_argument client
      else retro_page_response api fuel
        (put_packet client 1 ([RETRO_VAULT_OP_SEARCH] @ squid_client_write_u16 cursor @
           [of_int platform_size] @ text_bytes platform @ [of_int query_size] @ text_bytes sought @
           model_suffix model_size model))
        request_size RETRO_VAULT_OP_SEARCH)"

definition retro_list_step ::
  "u8 \<Rightarrow> bytes \<Rightarrow> int + (squid_client_retro_entry \<times> u8 \<times> bytes) option" where
  "retro_list_step entries_left current =
     (if entries_left = 0 then
        (if current = [] then Inr None else Inl SQUID_CLIENT_ERROR_PROTOCOL)
      else if current = [] then Inl SQUID_CLIENT_ERROR_PROTOCOL
      else let id_size = unat (current ! 0) in
        if length current < 2 + id_size then Inl SQUID_CLIENT_ERROR_PROTOCOL
        else let name_size = unat (current ! (1 + id_size)) in
          if length current < 2 + id_size + name_size then Inl SQUID_CLIENT_ERROR_PROTOCOL
          else Inr (Some
            (\<lparr>retro_entry_id = take id_size (drop 1 current),
              retro_entry_name = take name_size (drop (2 + id_size) current)\<rparr>,
             entries_left - 1, drop (2 + id_size + name_size) current)))"

definition squid_client_retro_list_next ::
  "squid_client_retro_list \<Rightarrow> int + (squid_client_retro_entry \<times> squid_client_retro_list) option" where
  "squid_client_retro_list_next page =
     (case retro_list_step (retro_entries_left page) (retro_next page) of
        Inl e \<Rightarrow> Inl e
      | Inr None \<Rightarrow> Inr None
      | Inr (Some (e, n, rest)) \<Rightarrow>
          Inr (Some (e, page\<lparr>retro_entries_left := n, retro_next := rest\<rparr>)))"

definition squid_client_retro_info ::
  "cl_api \<Rightarrow> nat \<Rightarrow> squid_client \<Rightarrow> bytes option \<Rightarrow> u16 \<Rightarrow>
     (cl_event, squid_client_retro_info cl_outcome) io" where
  "squid_client_retro_info api fuel client package_id cursor =
     (let id_size = retro_text_size package_id; request_size = 4 + nat id_size in
      if id_size \<le> 0 \<or> request_size > packet_capacity client then bad_argument client
      else do {
        r \<leftarrow> squid_client_response api fuel
          (put_packet client 1 ([RETRO_VAULT_OP_INFO] @ squid_client_write_u16 cursor @
             [of_int id_size] @ text_bytes package_id))
          request_size RETRO_VAULT_OP_INFO 5;
        State_Monad.return (conclude (\<lambda>client response_size.
          Inr \<lparr>info_next_cursor = squid_client_read_u16 (drop 2 (packet client)),
            info_values_left = packet client ! 4,
            info_next = slice client 5 (response_size - 5)\<rparr>) r) })"

definition retro_info_step ::
  "u8 \<Rightarrow> bytes \<Rightarrow> int + (squid_client_retro_value \<times> u8 \<times> bytes) option" where
  "retro_info_step values_left current =
     (if values_left = 0 then
        (if current = [] then Inr None else Inl SQUID_CLIENT_ERROR_PROTOCOL)
      else if length current < 2 then Inl SQUID_CLIENT_ERROR_PROTOCOL
      else let value_size = unat (current ! 1) in
        if length current < 2 + value_size then Inl SQUID_CLIENT_ERROR_PROTOCOL
        else Inr (Some
          (\<lparr>retro_value_type = current ! 0, retro_value_bytes = take value_size (drop 2 current)\<rparr>,
           values_left - 1, drop (2 + value_size) current)))"

definition squid_client_retro_info_next ::
  "squid_client_retro_info \<Rightarrow> int + (squid_client_retro_value \<times> squid_client_retro_info) option" where
  "squid_client_retro_info_next page =
     (case retro_info_step (info_values_left page) (info_next page) of
        Inl e \<Rightarrow> Inl e
      | Inr None \<Rightarrow> Inr None
      | Inr (Some (v, n, rest)) \<Rightarrow>
          Inr (Some (v, page\<lparr>info_values_left := n, info_next := rest\<rparr>)))"

definition squid_client_retro_download ::
  "cl_api \<Rightarrow> nat \<Rightarrow> squid_client \<Rightarrow> bytes option \<Rightarrow> bytes option \<Rightarrow> u32 \<Rightarrow> u8 \<Rightarrow>
     (cl_event, squid_client_retro_download cl_outcome) io" where
  "squid_client_retro_download api fuel client package_id download_id offset maximum_bytes =
     (let package_size = retro_text_size package_id;
          download_size = retro_text_size download_id;
          request_size = 8 + nat package_size + nat download_size in
      if package_size \<le> 0 \<or> download_size \<le> 0 \<or> request_size > packet_capacity client
      then bad_argument client
      else do {
        r \<leftarrow> squid_client_response api fuel
          (put_packet client 1 ([RETRO_VAULT_OP_DOWNLOAD] @ squid_client_write_u32 offset @
             [maximum_bytes, of_int package_size] @ text_bytes package_id @
             [of_int download_size] @ text_bytes download_id))
          request_size RETRO_VAULT_OP_DOWNLOAD 11;
        State_Monad.return (conclude (\<lambda>client response_size.
          let data_size = unat (packet client ! 10) in
          if response_size \<noteq> 11 + data_size then Inl SQUID_CLIENT_ERROR_PROTOCOL
          else Inr \<lparr>retro_chunk_offset = squid_client_read_u32 (drop 2 (packet client)),
            retro_chunk_total_size = squid_client_read_u32 (drop 6 (packet client)),
            retro_chunk_data = slice client 11 data_size\<rparr>) r) })"

end
