(* ===== verification/Client_Properties.thy ===== *)
theory Client_Properties
  imports Client_Services
begin

text \<open>
  What the typed clients get right: the record pages they read are exactly the well-formed ones,
  and what a client decodes is what the service encoded, through the exchange of \<open>Client_Core\<close>.
\<close>


subsection \<open>The pages the clients read\<close>

lemma write_read_u32: "4 \<le> length bs \<Longrightarrow> write_u32 (read_u32 bs) = take 4 bs"
proof -
  assume len: "4 \<le> length bs"
  then have bs: "take 4 bs = [bs ! 0, bs ! 1, bs ! 2, bs ! 3]"
    by (intro nth_equalityI) (auto simp: nth_Cons numeral_2_eq_2 numeral_3_eq_3 split: nat.split)
  have "n < 8 \<Longrightarrow> n \<noteq> 24 + k \<and> n \<noteq> 16 + k \<and> n \<noteq> 8 + k" for n k :: nat
    by auto
  then show ?thesis
    unfolding bs write_u32_def read_u32_def
    by (simp, intro conjI bit_word_eqI) (auto simp: bit_simps dest: bit_imp_le_length)
qed

definition encode_fs_entry :: "squid_client_fs_entry \<Rightarrow> bytes" where
  "encode_fs_entry e = [fs_entry_type e, of_nat (length (fs_entry_name e))] @ fs_entry_name e @
     write_u32 (fs_entry_size e)"

definition encode_retro_entry :: "squid_client_retro_entry \<Rightarrow> bytes" where
  "encode_retro_entry e = [of_nat (length (retro_entry_id e))] @ retro_entry_id e @
     [of_nat (length (retro_entry_name e))] @ retro_entry_name e"

definition encode_retro_value :: "squid_client_retro_value \<Rightarrow> bytes" where
  "encode_retro_value v = [retro_value_type v, of_nat (length (retro_value_bytes v))] @
     retro_value_bytes v"

lemma u8_length: "length bs \<le> 255 \<Longrightarrow> unat (of_nat (length bs) :: u8) = length bs"
  by (simp add: unat_of_nat)

lemma cut3: "take n xs @ take m (drop n xs) @ drop (n + m) xs = xs"
  by (metis add.commute append_take_drop_id drop_drop)

lemma drop_6: "drop (6 + k) (x # y # xs) = drop (4 + k) xs"
proof -
  have "6 + k = Suc (Suc (4 + k))" by simp
  then show ?thesis by (simp only: drop_Suc_Cons)
qed

lemma fs_list_step_record:
  assumes "n \<noteq> 0"
  shows "fs_list_step n bs = Inr r \<longleftrightarrow> (\<exists>e rest. r = Some (e, n - 1, rest) \<and>
      length (fs_entry_name e) \<le> 255 \<and> bs = encode_fs_entry e @ rest)" (is "_ \<longleftrightarrow> ?page")
proof
  assume step: "fs_list_step n bs = Inr r"
  then obtain t k tail where bs: "bs = t # k # tail"
    using assms by (cases bs; cases "tl bs") (auto simp: fs_list_step_def split: if_splits)
  have len: "4 + unat k \<le> length tail"
    and r: "r = Some (\<lparr>fs_entry_type = t, fs_entry_name = take (unat k) tail,
      fs_entry_size = read_u32 (drop (unat k) tail)\<rparr>, n - 1, drop (4 + unat k) tail)"
    using step assms by (auto simp: fs_list_step_def bs Let_def drop_6 split: if_splits)
  show ?page
    using len unat_u8_le [of k] cut3 [of "unat k" tail 4]
    by (auto simp: r bs encode_fs_entry_def write_read_u32 min_def add.commute)
next
  assume ?page
  then show "fs_list_step n bs = Inr r"
    using assms by (auto simp: fs_list_step_def encode_fs_entry_def u8_length Let_def drop_6)
qed

lemma retro_list_step_record:
  assumes "n \<noteq> 0"
  shows "retro_list_step n bs = Inr r \<longleftrightarrow> (\<exists>e rest. r = Some (e, n - 1, rest) \<and>
      (length (retro_entry_id e) \<le> 255 \<and> length (retro_entry_name e) \<le> 255) \<and>
      bs = encode_retro_entry e @ rest)" (is "_ \<longleftrightarrow> ?page")
proof
  assume step: "retro_list_step n bs = Inr r"
  then obtain k tail where bs: "bs = k # tail"
    using assms by (cases bs) (auto simp: retro_list_step_def split: if_splits)
  have "1 + unat k \<le> length tail"
    using step assms by (auto simp: retro_list_step_def bs Let_def split: if_splits)
  then have drop: "drop (unat k) tail = tail ! unat k # drop (Suc (unat k)) tail"
    by (simp add: Cons_nth_drop_Suc)
  let ?m = "tail ! unat k" and ?rest = "drop (Suc (unat k)) tail"
  have len: "unat ?m \<le> length ?rest" and k: "unat k \<le> length tail"
    and r: "r = Some (\<lparr>retro_entry_id = take (unat k) tail, retro_entry_name = take (unat ?m) ?rest\<rparr>,
      n - 1, drop (unat ?m) ?rest)"
    using step assms by (auto simp: retro_list_step_def bs Let_def ac_simps split: if_splits)
  have "tail = take (unat k) tail @ ?m # take (unat ?m) ?rest @ drop (unat ?m) ?rest"
    using drop by (metis append_take_drop_id)
  then show ?page
    using len k unat_u8_le [of k] unat_u8_le [of ?m]
    by (auto simp: r bs encode_retro_entry_def min_def)
next
  assume ?page
  then show "retro_list_step n bs = Inr r"
    using assms by (auto simp: retro_list_step_def encode_retro_entry_def u8_length Let_def nth_append)
qed

lemma retro_info_step_record:
  assumes "n \<noteq> 0"
  shows "retro_info_step n bs = Inr r \<longleftrightarrow> (\<exists>e rest. r = Some (e, n - 1, rest) \<and>
      length (retro_value_bytes e) \<le> 255 \<and> bs = encode_retro_value e @ rest)" (is "_ \<longleftrightarrow> ?page")
proof
  assume step: "retro_info_step n bs = Inr r"
  then obtain t k tail where bs: "bs = t # k # tail"
    using assms by (cases bs; cases "tl bs") (auto simp: retro_info_step_def split: if_splits)
  have len: "unat k \<le> length tail"
    and r: "r = Some (\<lparr>retro_value_type = t, retro_value_bytes = take (unat k) tail\<rparr>,
      n - 1, drop (unat k) tail)"
    using step assms by (auto simp: retro_info_step_def bs Let_def split: if_splits)
  then show ?page
    using unat_u8_le [of k] by (auto simp: bs encode_retro_value_def min_def)
next
  assume ?page
  then show "retro_info_step n bs = Inr r"
    using assms by (auto simp: retro_info_step_def encode_retro_value_def u8_length Let_def)
qed

interpretation fs_page: record_page encode_fs_entry "\<lambda>e. length (fs_entry_name e) \<le> 255" fs_list_step
  by unfold_locales (auto simp: fs_list_step_def [of 0] fs_list_step_record)

interpretation retro_page: record_page encode_retro_entry
  "\<lambda>e. length (retro_entry_id e) \<le> 255 \<and> length (retro_entry_name e) \<le> 255" retro_list_step
  by unfold_locales (auto simp: retro_list_step_def [of 0] retro_list_step_record)

interpretation info_page: record_page encode_retro_value "\<lambda>e. length (retro_value_bytes e) \<le> 255"
  retro_info_step
  by unfold_locales (auto simp: retro_info_step_def [of 0] retro_info_step_record)

subsection \<open>Responses of a service\<close>

lemma nth_buf_write: "i < length bs \<Longrightarrow> buf_write buf 0 bs ! i = bs ! i"
  by (simp add: buf_write_def nth_append)

lemma take_buf_write_0: "n \<le> length bs \<Longrightarrow> take n (buf_write buf 0 bs) = take n bs"
  by (simp add: buf_write_def)

text \<open>
  A service that answers a request with an accepted status answers the client's call: the client
  finds the whole reply in its workspace and stays in step with the server.
\<close>

lemma serving_response:
  assumes wf: "client_wf client" "packet_capacity client \<le> 255"
    and request: "request \<noteq> []" "length request \<le> packet_capacity client" "n = length request"
    and core: "core request = Some reply"
    and reply: "2 \<le> length reply" "length reply \<le> packet_capacity client"
      "reply ! 0 = opcode OR response_bit" "reply ! 1 = 0" "minimum \<le> length reply"
    and step: "in_step core (trace s)" "packet_capacity client \<le> fuel"
  shows "\<exists>s' old. run_state (squid_client_response (serving_api core chunk) fuel
      (put_packet client 1 request) n opcode minimum) s =
      (Some (0, put_packet old 0 reply, length reply), s') \<and> in_step core (trace s') \<and>
      same_client client old"
proof -
  let ?client = "put_packet client 1 request"
  have same: "same_client client ?client"
    using wf request by (simp add: client_wf_def)
  have "take n (drop 1 (packet ?client)) = request"
    using wf request by (simp add: buf_write_def client_wf_def)
  then obtain s' old where
    run: "run_state (squid_client_exchange (serving_api core chunk) fuel ?client n) s =
      (Some (int (length reply), put_packet old 0 reply), s')" and
    s': "in_step core (trace s')" "same_client ?client old"
    using serving_exchange [of ?client n core reply s fuel chunk] assms same_client_wf [OF same]
    by fastforce
  have "0 < length reply" "1 < length reply"
    using reply(1) by linarith+
  then have "buf_write (packet old) 0 reply ! 0 = opcode OR response_bit"
    "buf_write (packet old) 0 reply ! 1 = 0"
    using reply(3,4) by (simp_all only: nth_buf_write)
  then show ?thesis
    using run s' reply(1,5) same_client_trans [OF same]
    by (auto simp: squid_client_response_def response_result_def)
qed

subsection \<open>Time\<close>

text \<open>What a client should report for the calendar time of the server.\<close>

definition reported_time :: "u8 \<Rightarrow> int \<Rightarrow> tm \<Rightarrow> int \<Rightarrow> squid_client_time" where
  "reported_time mode now t utc_offset =
     \<lparr>time_year = word_of_int (tm_year t + 1900), time_month = word_of_int (tm_mon t + 1),
      time_day = word_of_int (tm_mday t), time_hour = word_of_int (tm_hour t),
      time_minute = word_of_int (tm_min t), time_second = word_of_int (tm_sec t),
      time_weekday = word_of_int (tm_wday t),
      time_daylight_saving = (if mode = SQUID_TIME_MODE_LOCAL \<and> tm_isdst t > 0 then 1 else 0),
      time_utc_offset_minutes = utc_offset,
      time_unix_seconds = (if 0 \<le> now \<and> now < 2 ^ 32 then word_of_int now else 0xFFFFFFFF)\<rparr>"

lemma weekday_bits:
  assumes "0 \<le> w" "w \<le> 6"
  shows "(word_of_int w :: u8) AND 7 = word_of_int w"
    and "(word_of_int w OR 0x80 :: u8) AND 7 = word_of_int w"
    and "(word_of_int w :: u8) AND 0x80 = 0" "(word_of_int w OR 0x80 :: u8) AND 0x80 \<noteq> 0"
proof -
  have "w = 0 \<or> w = 1 \<or> w = 2 \<or> w = 3 \<or> w = 4 \<or> w = 5 \<or> w = 6"
    using assms by arith
  then show "(word_of_int w :: u8) AND 7 = word_of_int w"
    "(word_of_int w OR 0x80 :: u8) AND 7 = word_of_int w"
    "(word_of_int w :: u8) AND 0x80 = 0" "(word_of_int w OR 0x80 :: u8) AND 0x80 \<noteq> 0"
    by auto
qed

lemma sint_u16: "\<bar>off\<bar> \<le> 1439 \<Longrightarrow> sint (word_of_int off :: u16) = off"
  by (simp add: signed_of_int signed_take_bit_int_eq_self)

lemma decode_time_reply:
  assumes "0 \<le> tm_wday t" "tm_wday t \<le> 6" and "\<bar>off\<bar> \<le> 1439"
  shows "decode_time (time_reply opcode mode now t off @ rest) = reported_time mode now t off"
proof -
  let ?time = "time_reply opcode mode now t off @ rest"
  have "squid_client_read_u16 (drop 2 ?time) = word_of_int (tm_year t + 1900)"
    by (simp add: time_reply_def Let_def)
  moreover have "squid_client_read_u16 (drop 10 ?time) = word_of_int off"
    by (simp add: time_reply_def Let_def write_i16_def)
  moreover have "squid_client_read_u32 (drop 12 ?time) =
      (if 0 \<le> now \<and> now < 2 ^ 32 then word_of_int now else 0xFFFFFFFF)"
    by (simp add: time_reply_def Let_def write_i16_def)
  moreover have "map (\<lambda>i. ?time ! i) [4, 5, 6, 7, 8] = [word_of_int (tm_mon t + 1),
      word_of_int (tm_mday t), word_of_int (tm_hour t), word_of_int (tm_min t), word_of_int (tm_sec t)]"
    by (simp add: time_reply_def Let_def write_i16_def write_u16_def)
  moreover have "?time ! 9 = (if mode = SQUID_TIME_MODE_LOCAL \<and> tm_isdst t > 0
      then word_of_int (tm_wday t) OR 0x80 else word_of_int (tm_wday t))"
    using weekday_bits [OF assms(1,2)]
    by (simp add: time_reply_def Let_def write_i16_def write_u16_def)
  ultimately show ?thesis
    using weekday_bits [OF assms(1,2)] sint_u16 [OF assms(3)]
    by (simp add: decode_time_def reported_time_def)
qed

text \<open>
  C8. A client that asks for the time reports the server's time. Against a server whose time
  service answers through the runtime's framing, in whatever pieces the bytes arrive, the call
  returns the server's calendar fields, weekday, daylight saving flag, UTC offset and Unix time,
  for both modes, and leaves client and server in step for the next request.
\<close>

theorem client_reads_server_time:
  fixes core :: "bytes \<Rightarrow> bytes option"
  assumes client: "client_wf client" "16 \<le> packet_capacity client" "packet_capacity client \<le> 255"
    and server: "core = (\<lambda>request. handle_squid_time_packet host request server_packet_max)"
    and clock: "clock_time host = now" "now \<noteq> -1" "0 \<le> tm_wday t" "tm_wday t \<le> 6"
    and mode: "mode = SQUID_TIME_MODE_UTC \<and> gmtime_r host now = Some t \<and> utc_offset = 0 \<or>
      mode = SQUID_TIME_MODE_LOCAL \<and> localtime_r host now = Some t \<and>
        parse_utc_offset host t = Some utc_offset"
    and start: "in_step core (trace s)" "packet_capacity client \<le> fuel"
  shows "\<exists>client' s'. run_state (squid_client_time_get (serving_api core chunk) fuel client mode) s =
      (Some (Inr (reported_time mode now t utc_offset), client'), s') \<and> in_step core (trace s')"
proof -
  let ?reply = "time_reply SQUID_TIME_OP_GET mode now t utc_offset"
  have core: "core [SQUID_TIME_OP_GET, mode] = Some ?reply"
    using mode clock
    by (auto simp: server handle_squid_time_packet_def handle_packet_with_def
        handle_squid_time_request_def time_handle_get_def Let_def)
  have offset: "\<bar>utc_offset\<bar> \<le> 1439"
    using mode parse_utc_offset_bounds [of host t utc_offset] by auto
  have header: "?reply ! 0 = SQUID_TIME_OP_GET OR response_bit" "?reply ! 1 = 0"
    by (simp_all add: time_reply_def Let_def response_bit_def)
  obtain s' old where
    "run_state (squid_client_response (serving_api core chunk) fuel
       (put_packet client 1 [SQUID_TIME_OP_GET, mode]) 2 SQUID_TIME_OP_GET SQUID_TIME_REPLY_SIZE) s =
     (Some (0, put_packet old 0 ?reply, length ?reply), s')" "in_step core (trace s')"
    using serving_response [of client "[SQUID_TIME_OP_GET, mode]" 2 core ?reply SQUID_TIME_OP_GET
        SQUID_TIME_REPLY_SIZE s fuel chunk] client core header start by auto
  then show ?thesis
    using client mode decode_time_reply [OF clock(3,4) offset, of SQUID_TIME_OP_GET mode now]
    by (auto simp: squid_client_time_get_def conclude_def buf_write_def)
qed

definition demo_tm :: tm where
  "demo_tm = \<lparr>tm_sec = 5, tm_min = 4, tm_hour = 3, tm_mday = 2, tm_mon = 0, tm_year = 126, tm_wday = 5,
     tm_isdst = 1\<rparr>"

definition demo_host :: time_api where
  "demo_host = \<lparr>clock_time = 1767323045, gmtime_r = (\<lambda>_. None), localtime_r = (\<lambda>_. Some demo_tm),
     strftime_z = (\<lambda>_. ascii ''+0100'')\<rparr>"

definition demo_client :: squid_client where
  "demo_client = squid_client_init 3 (replicate 17 0) 16 True"

lemma demo_host_simps:
  "clock_time demo_host = 1767323045" "localtime_r demo_host now = Some demo_tm" "tm_wday demo_tm = 5"
  "parse_utc_offset demo_host demo_tm = Some 60"
  by (simp_all add: parse_utc_offset_def demo_host_def demo_tm_def Let_def ascii_Cons isdigit_def
      digit_value_def)

theorem client_reads_server_time_witness:
  "\<exists>client' s'. run_state (squid_client_time_get
      (serving_api (\<lambda>request. handle_squid_time_packet demo_host request server_packet_max) (\<lambda>_. 2))
      16 demo_client SQUID_TIME_MODE_LOCAL) \<lparr>trace = [], c_errno = E_OK\<rparr> =
      (Some (Inr (reported_time SQUID_TIME_MODE_LOCAL 1767323045 demo_tm 60), client'), s') \<and>
    in_step (\<lambda>request. handle_squid_time_packet demo_host request server_packet_max) (trace s')"
  by (rule client_reads_server_time [where host = demo_host])
     (simp_all add: demo_client_def squid_client_init_def client_wf_def demo_host_simps
       in_step_def peer_stream_def)

subsection \<open>Pages\<close>

text \<open>The loop every caller of a \<open>_next\<close> function writes, until it returns 0 or an error.\<close>

fun read_page :: "nat \<Rightarrow> ('p \<Rightarrow> int + ('e \<times> 'p) option) \<Rightarrow> 'p \<Rightarrow> 'e list option" where
  "read_page 0 following page = None"
| "read_page (Suc fuel) following page =
     (case following page of
        Inl e \<Rightarrow> None
      | Inr None \<Rightarrow> Some []
      | Inr (Some (e, page')) \<Rightarrow> map_option ((#) e) (read_page fuel following page'))"

lemma read_fs_page:
  "read_page fuel squid_client_fs_list_next page =
     page_records fuel fs_list_step (fs_entries_left page) (fs_next page)"
  by (induction fuel arbitrary: page)
     (auto simp: squid_client_fs_list_next_def split: sum.splits option.splits)

lemma read_retro_page:
  "read_page fuel squid_client_retro_list_next page =
     page_records fuel retro_list_step (retro_entries_left page) (retro_next page)"
  by (induction fuel arbitrary: page)
     (auto simp: squid_client_retro_list_next_def split: sum.splits option.splits)

lemma read_info_page:
  "read_page fuel squid_client_retro_info_next page =
     page_records fuel retro_info_step (info_values_left page) (info_next page)"
  by (induction fuel arbitrary: page)
     (auto simp: squid_client_retro_info_next_def split: sum.splits option.splits)

text \<open>
  C21. Reading a page record by record is an exact parser. For each of the three page formats and
  for arbitrary bytes, 256 calls of the \<open>_next\<close> function suffice, and they deliver the records
  \<open>es\<close> exactly when the page announces \<open>length es\<close> records and its bytes are the concatenation
  of their encodings, with nothing missing and nothing left over.
\<close>

theorem page_readers_exact:
  "(read_page 256 squid_client_fs_list_next fs = Some entries \<longleftrightarrow>
      length entries = unat (fs_entries_left fs) \<and>
      list_all (\<lambda>e. length (fs_entry_name e) \<le> 255) entries \<and>
      fs_next fs = concat (map encode_fs_entry entries)) \<and>
   (read_page 256 squid_client_retro_list_next retro = Some packages \<longleftrightarrow>
      length packages = unat (retro_entries_left retro) \<and>
      list_all (\<lambda>e. length (retro_entry_id e) \<le> 255 \<and> length (retro_entry_name e) \<le> 255) packages \<and>
      retro_next retro = concat (map encode_retro_entry packages)) \<and>
   (read_page 256 squid_client_retro_info_next info = Some vals \<longleftrightarrow>
      length vals = unat (info_values_left info) \<and>
      list_all (\<lambda>v. length (retro_value_bytes v) \<le> 255) vals \<and>
      info_next info = concat (map encode_retro_value vals))"
  unfolding read_fs_page read_retro_page read_info_page
  by (simp only: fs_page.page_records_iff [OF unat_u8] retro_page.page_records_iff [OF unat_u8]
      info_page.page_records_iff [OF unat_u8] simp_thms)

end
