(* ===== verification/Retro_Walk.thy ===== *)
theory Retro_Walk
  imports Retro_Safety Client_Properties
begin

text \<open>
  What a client sees of the catalogue: it asks for a page, reads its records with the functions of
  the client library, and goes on at the next cursor until there is none. The walk ends and
  delivers every record once, in order. The contract between the pages and the walk is the locale
  \<open>cursor_pages\<close>; the pages of LIST and SEARCH and those of INFO are its instances.
\<close>

subsection \<open>Walking over pages\<close>

text \<open>A page is the next cursor, if any, and the records; \<open>None\<close> is an error.\<close>

fun walk_pages :: "(nat \<Rightarrow> (nat option \<times> 'e list) option) \<Rightarrow> nat \<Rightarrow> nat \<Rightarrow> 'e list option" where
  "walk_pages page 0 cursor = None"
| "walk_pages page (Suc fuel) cursor =
     (case page cursor of
        None \<Rightarrow> None
      | Some (None, es) \<Rightarrow> Some es
      | Some (Some cursor', es) \<Rightarrow> map_option ((@) es) (walk_pages page fuel cursor'))"

locale cursor_pages =
  fixes page :: "nat \<Rightarrow> (nat option \<times> 'e list) option"
    and item :: "nat \<Rightarrow> 'e list"
    and total :: nat
  assumes page_law: "c < total \<or> c = 0 \<Longrightarrow> \<exists>k. c \<le> k \<and> k \<le> total \<and> (c < total \<longrightarrow> c < k) \<and>
      page c = Some (if k = total then None else Some k, concat (map item [c..<k]))"
begin

lemma walk_complete:
  "c < total \<or> c = 0 \<Longrightarrow> total - c < fuel \<Longrightarrow> walk_pages page fuel c = Some (concat (map item [c..<total]))"
proof (induction fuel arbitrary: c)
  case (Suc fuel)
  obtain k where k: "c \<le> k" "k \<le> total" "c < total \<longrightarrow> c < k"
    "page c = Some (if k = total then None else Some k, concat (map item [c..<k]))"
    using page_law [OF Suc.prems(1)] by blast
  show ?case
  proof (cases "k = total")
    case False
    then have "walk_pages page fuel k = Some (concat (map item [k..<total]))"
      using k Suc.prems by (intro Suc.IH) auto
    moreover have "[c..<total] = [c..<k] @ [k..<total]"
      using k upt_add_eq_append [of c k "total - k"] by simp
    ultimately show ?thesis
      using False k(4) by simp
  qed (simp add: k(4))
qed simp

end

text \<open>What a client makes of a response that carries a page.\<close>

definition read_page ::
  "(u8 \<Rightarrow> bytes \<Rightarrow> int + ('e \<times> u8 \<times> bytes) option) \<Rightarrow> bytes option \<Rightarrow> (nat option \<times> 'e list) option" where
  "read_page step response =
     (case response of
        None \<Rightarrow> None
      | Some reply \<Rightarrow>
          if length reply < 5 \<or> reply ! 1 \<noteq> RETRO_VAULT_STATUS_OK then None
          else let next_cursor = read_u16 (drop 2 reply) in
            map_option (Pair (if next_cursor = RETRO_VAULT_CURSOR_END then None else Some (unat next_cursor)))
              (page_records 256 step (reply ! 4) (drop 5 reply)))"

lemma read_page_reply:
  "read_page step (Some (page_reply opcode next_cursor n body)) =
     map_option (Pair (if next_cursor = RETRO_VAULT_CURSOR_END then None else Some (unat next_cursor)))
       (page_records 256 step n body)"
  by (simp add: read_page_def page_reply_def Let_def nth_append)

lemma cursor_of_nat:
  assumes "k < 65535"
  shows "unat (of_nat k :: u16) = k" and "(of_nat k :: u16) \<noteq> 0xFFFF"
proof -
  show k: "unat (of_nat k :: u16) = k"
    using assms by (simp add: unat_of_nat)
  show "(of_nat k :: u16) \<noteq> 0xFFFF"
    using assms k by auto
qed

subsection \<open>LIST and SEARCH\<close>

text \<open>
  What the catalogue shows of a package: nothing when its identifier does not fit an entry, and
  otherwise the identifier and as much of the name as fits.
\<close>

definition listed :: "retro_vault_package \<Rightarrow> squid_client_retro_entry list" where
  "listed p =
     (if length (package_id p) \<le> 247
      then [\<lparr>retro_entry_id = package_id p, retro_entry_name =
        take (cut_size (package_name p) (247 - length (package_id p))) (package_name p)\<rparr>]
      else [])"

lemma make_list_entry_listed: "make_list_entry p 249 = concat (map encode_retro_entry (listed p))"
  using cut_size_bounds [of "package_name p" "247 - length (package_id p)"]
  by (auto simp: make_list_entry_def listed_def encode_retro_entry_def Let_def min_def)

lemma encode_retro_entry_nonempty [simp]: "encode_retro_entry e \<noteq> []"
  by (simp add: encode_retro_entry_def)

lemma make_list_entry_Nil: "make_list_entry p 249 = [] \<longleftrightarrow> listed p = []"
  by (auto simp: make_list_entry_listed listed_def)

lemma length_concat_nonempty:
  "(\<And>e. f e \<noteq> []) \<Longrightarrow> length es \<le> length (concat (map f es))"
proof (induction es)
  case (Cons e es)
  then have "0 < length (f e)" "length es \<le> length (concat (map f es))" by simp_all
  then have "length es < length (f e) + length (concat (map f es))" by linarith
  then show ?case by simp
qed simp

lemma count_nonzero:
  assumes "es \<noteq> []" and "length es \<le> 255"
  shows "(of_nat (length es) :: u8) \<noteq> 0"
  using assms u8_length [of es] by (metis length_0_conv unat_0 length_map length_replicate)


text \<open>
  A page that already has the records \<open>es\<close> and goes on with the items \<open>ms\<close>, the first of which
  has index \<open>at\<close>, takes some of them and stops before the next, or at the end. An item has the
  records \<open>recs\<close>, and \<open>enc\<close> encodes a record.
\<close>

definition filled ::
  "('a \<Rightarrow> 'e list) \<Rightarrow> ('e \<Rightarrow> bytes) \<Rightarrow> nat \<Rightarrow> nat \<Rightarrow> 'a list \<Rightarrow> 'e list \<Rightarrow>
     (u16 \<times> u8 \<times> bytes) option \<Rightarrow> bool" where
  "filled recs enc room at ms es result \<longleftrightarrow>
     (\<exists>k es'. k \<le> length ms \<and> (ms \<noteq> [] \<longrightarrow> es = [] \<longrightarrow> 0 < k) \<and>
        es' = es @ concat (map recs (take k ms)) \<and> length (concat (map enc es')) \<le> room \<and>
        result = Some (if k = length ms then RETRO_VAULT_CURSOR_END else of_nat (at + k),
          of_nat (length es'), concat (map enc es')))"

lemma filled_end:
  "length (concat (map enc es)) \<le> room \<Longrightarrow>
     filled recs enc room at [] es (Some (0xFFFF, of_nat (length es), concat (map enc es)))"
  by (simp add: filled_def)

lemma filled_stop:
  "es \<noteq> [] \<Longrightarrow> length (concat (map enc es)) \<le> room \<Longrightarrow>
     filled recs enc room at (p # ms) es (Some (of_nat at, of_nat (length es), concat (map enc es)))"
  unfolding filled_def by (rule exI [of _ 0]) simp

lemma filled_next:
  assumes "filled recs enc room (Suc at) ms (es @ recs p) result"
  shows "filled recs enc room at (p # ms) es result"
proof -
  obtain k es' where k: "k \<le> length ms" "es' = (es @ recs p) @ concat (map recs (take k ms))"
    "length (concat (map enc es')) \<le> room"
    "result = Some (if k = length ms then RETRO_VAULT_CURSOR_END else of_nat (Suc at + k),
       of_nat (length es'), concat (map enc es'))"
    using assms unfolding filled_def by blast
  show ?thesis
    unfolding filled_def by (rule exI [of _ "Suc k"], rule exI [of _ es']) (use k in simp)
qed

text \<open>What a client reads from a page that was filled from an empty one.\<close>

lemma filled_page:
  assumes filled: "filled recs enc room c (drop c ms) [] result" and size: "length ms \<le> 65535" "c \<le> length ms"
    and page: "page = Option.bind result (\<lambda>(next_cursor, n, body). read_page step (Some (page_reply opcode next_cursor n body)))"
    and reads: "\<And>xs. set xs \<subseteq> set ms \<Longrightarrow> length (concat (map enc (concat (map recs xs)))) \<le> room \<Longrightarrow>
      page_records 256 step (of_nat (length (concat (map recs xs)))) (concat (map enc (concat (map recs xs)))) =
        Some (concat (map recs xs))"
  shows "\<exists>k. c \<le> k \<and> k \<le> length ms \<and> (c < length ms \<longrightarrow> c < k) \<and>
    page = Some (if k = length ms then None else Some k, concat (map (\<lambda>i. recs (ms ! i)) [c..<k]))"
proof -
  obtain k es where k: "k \<le> length ms - c" "drop c ms \<noteq> [] \<longrightarrow> 0 < k"
    "es = concat (map recs (take k (drop c ms)))" "length (concat (map enc es)) \<le> room"
    "result = Some (if k = length ms - c then RETRO_VAULT_CURSOR_END else of_nat (c + k), of_nat (length es),
         concat (map enc es))"
    using filled unfolding filled_def by auto
  have es: "es = concat (map (\<lambda>i. recs (ms ! i)) [c..<c + k])"
    unfolding k(3) by (rule arg_cong [of _ _ concat], rule nth_equalityI) (use k(1) size(2) in auto)
  have "page_records 256 step (of_nat (length es)) (concat (map enc es)) = Some es"
    using reads [of "take k (drop c ms)"] k(3,4) by (auto dest: in_set_takeD in_set_dropD)
  then have "page = Some (if k = length ms - c then None else Some (c + k), es)"
    using k(1,5) size cursor_of_nat [of "c + k"] unfolding page by (simp add: read_page_reply)
  then show ?thesis
    using k(1,2) size(2) es by (intro exI [of _ "c + k"]) auto
qed

lemma catalog_loop_filled:
  assumes room: "249 \<le> room" "room \<le> 255" and c: "c \<le> 65535"
  shows "i + length (filter matches ps) \<le> 65535 \<Longrightarrow>
    length (concat (map encode_retro_entry es)) \<le> room \<Longrightarrow>
    filled listed encode_retro_entry room (max i c) (drop (c - i) (filter matches ps)) es
      (catalog_loop matches (of_nat c) room ps (of_nat i) (of_nat (length es))
          (concat (map encode_retro_entry es)))"
proof (induction ps arbitrary: i es)
  case Nil
  then show ?case by (simp add: filled_end)
next
  case (Cons p ps)
  let ?body = "concat (map encode_retro_entry es)"
  show ?case
  proof (cases "matches p")
    case False
    with Cons show ?thesis by simp
  next
    case True
    then have i: "i < 65535" and more: "Suc i + length (filter matches ps) \<le> 65535"
      using Cons.prems(1) by simp_all
    have less: "(of_nat i :: u16) < of_nat c \<longleftrightarrow> i < c" and up: "of_nat i + 1 = (of_nat (Suc i) :: u16)"
      using i c by (simp_all add: word_less_nat_alt unat_of_nat)
    consider "i < c" | "c \<le> i" "listed p = []"
      | e where "c \<le> i" "listed p = [e]" "length (encode_retro_entry e) \<le> room - length ?body"
      | e where "c \<le> i" "listed p = [e]" "length (encode_retro_entry e) > room - length ?body"
      unfolding listed_def by (metis not_le_imp_less)
    then show ?thesis
    proof cases
      case 1
      then show ?thesis
        using Cons.IH [OF more Cons.prems(2)] True
        by (simp add: less up drop_Cons' max_def del: of_nat_Suc split: if_splits)
    next
      case 2
      then show ?thesis
        using Cons.IH [OF more Cons.prems(2)] True
        by (simp add: less up make_list_entry_Nil max_def filled_next del: of_nat_Suc)
    next
      case (3 e)
      then show ?thesis
        using Cons.IH [OF more, of "es @ [e]"] Cons.prems(2) True
        by (simp add: less up make_list_entry_listed max_def filled_next Let_def add.commute)
    next
      case (4 e)
      have "length (encode_retro_entry e) \<le> 249"
        using make_list_entry_le [of p 249] 4(2) by (simp add: make_list_entry_listed)
      then have es: "es \<noteq> []"
        using 4(3) room by auto
      have "length es \<le> length ?body"
        by (simp add: length_concat_nonempty)
      then have "(of_nat (length es) :: u8) \<noteq> 0"
        using es Cons.prems(2) room by (intro count_nonzero) auto
      with 4 es show ?thesis
        using Cons.prems(2) True by (simp add: less make_list_entry_listed filled_stop max_def Let_def)
    qed
  qed
qed

definition retro_list_page ::
  "u8 \<Rightarrow> retro_vault_package list \<Rightarrow> bytes \<Rightarrow> bytes \<Rightarrow> bytes \<Rightarrow> nat \<Rightarrow>
     (nat option \<times> squid_client_retro_entry list) option" where
  "retro_list_page opcode ps platform model sought cursor =
     read_page retro_list_step
       (write_catalog_page ps opcode (of_nat cursor) platform model sought server_packet_max)"

lemma listed_fits:
  "list_all (\<lambda>e. length (retro_entry_id e) \<le> 255 \<and> length (retro_entry_name e) \<le> 255) (concat (map listed ps))"
proof (induction ps)
  case (Cons p ps)
  with cut_size_bounds [of "package_name p" "247 - length (package_id p)"] show ?case
    by (auto simp: listed_def)
qed simp

lemma retro_list_page_law:
  assumes "length ms \<le> 65535" and ms: "ms = filter (\<lambda>p. package_matches p platform model sought) ps"
    and c: "c \<le> length ms"
  shows "\<exists>k. c \<le> k \<and> k \<le> length ms \<and> (c < length ms \<longrightarrow> c < k) \<and>
    retro_list_page opcode ps platform model sought c =
      Some (if k = length ms then None else Some k, concat (map (\<lambda>i. listed (ms ! i)) [c..<k]))"
proof (rule filled_page)
  show "filled listed encode_retro_entry 250 c (drop c ms) []
      (catalog_loop (\<lambda>p. package_matches p platform model sought) (of_nat c) 250 ps 0 0 [])"
    using catalog_loop_filled [of 250 c 0 "\<lambda>p. package_matches p platform model sought" ps "[]"] assms by simp
  show "retro_list_page opcode ps platform model sought c =
      Option.bind (catalog_loop (\<lambda>p. package_matches p platform model sought) (of_nat c) 250 ps 0 0 [])
        (\<lambda>(next_cursor, n, body). read_page retro_list_step (Some (page_reply opcode next_cursor n body)))"
    by (auto simp: retro_list_page_def write_catalog_page_def write_error_response_def read_page_def
        split: option.splits)
  show "page_records 256 retro_list_step (of_nat (length (concat (map listed xs))))
      (concat (map encode_retro_entry (concat (map listed xs)))) = Some (concat (map listed xs))"
    if "length (concat (map encode_retro_entry (concat (map listed xs)))) \<le> 250" for xs
    using listed_fits [of xs] that length_concat_nonempty [of encode_retro_entry "concat (map listed xs)"]
    by (subst retro_page.page_records_iff) (simp_all add: u8_length)
qed (use assms in auto)

interpretation list_pages: cursor_pages "retro_list_page opcode (take 65535 ps) platform model sought"
  "\<lambda>i. listed (filter (\<lambda>p. package_matches p platform model sought) (take 65535 ps) ! i)"
  "length (filter (\<lambda>p. package_matches p platform model sought) (take 65535 ps))"
  for opcode ps platform model sought
  by unfold_locales
     (rule retro_list_page_law, auto intro: le_trans [OF length_filter_le])

text \<open>
  C10. A client that asks for the catalogue page by page, with any filter, gets every matching
  package exactly once, in the order of the catalogue, for every catalogue the server accepts: the
  walk from cursor 0 ends after at most as many pages as there are packages, and its entries are
  those of the packages whose identifier fits an entry, with the identifier whole and the name cut
  to what is left of 249 bytes.
\<close>

theorem catalog_walk_complete:
  "case parse_catalog data of
     None \<Rightarrow> True
   | Some ps \<Rightarrow>
       walk_pages (retro_list_page opcode ps platform model sought) (length ps + 1) 0 =
         Some (concat (map listed (filter (\<lambda>p. package_matches p platform model sought) ps)))"
proof (cases "parse_catalog data")
  case (Some ps)
  let ?ms = "filter (\<lambda>p. package_matches p platform model sought) ps"
  have "take 65535 ps = ps"
    using parse_catalog_length [OF Some] by simp
  then have "walk_pages (retro_list_page opcode ps platform model sought) (length ps + 1) 0 =
      Some (concat (map (\<lambda>i. listed (?ms ! i)) [0..<length ?ms]))"
    using list_pages.walk_complete [of 0 platform model sought ps "length ps + 1" opcode]
      length_filter_le [of _ ps] by (simp add: le_imp_less_Suc)
  also have "map (\<lambda>i. listed (?ms ! i)) [0..<length ?ms] = map listed ?ms"
    by (rule nth_equalityI) simp_all
  finally show ?thesis
    by (simp add: Some)
qed simp

subsection \<open>INFO\<close>

text \<open>The values of a package, in the order of their cursors.\<close>

definition info_text :: "u8 \<Rightarrow> bytes \<Rightarrow> squid_client_retro_value" where
  "info_text type t = \<lparr>retro_value_type = type, retro_value_bytes = take (cut_size t 247) t\<rparr>"

definition counted :: "bytes \<Rightarrow> nat \<Rightarrow> bytes" where
  "counted t most = (let n = utf8_boundary t (min (length t) most) in of_nat n # take n t)"

definition info_download :: "retro_vault_download \<Rightarrow> squid_client_retro_value" where
  "info_download d = \<lparr>retro_value_type = RETRO_VAULT_INFO_DOWNLOAD,
     retro_value_bytes = counted (download_id d) 64 @ counted (download_label d) 96 @
       counted (download_format d) 32 @ write_u32 (aggregate_size d) @ [file_count d]\<rparr>"

definition info_values :: "retro_vault_package \<Rightarrow> squid_client_retro_value list" where
  "info_values p =
     [info_text RETRO_VAULT_INFO_ID (package_id p), info_text RETRO_VAULT_INFO_NAME (package_name p),
      info_text RETRO_VAULT_INFO_VENDOR (vendor p), info_text RETRO_VAULT_INFO_PLATFORM_ID (platform_id p),
      info_text RETRO_VAULT_INFO_PLATFORM_NAME (platform_name p), info_text RETRO_VAULT_INFO_VERSION (version p),
      \<lparr>retro_value_type = RETRO_VAULT_INFO_YEAR, retro_value_bytes = write_u16 (release_year p)\<rparr>,
      \<lparr>retro_value_type = RETRO_VAULT_INFO_RATING, retro_value_bytes = [rating p]\<rparr>,
      info_text RETRO_VAULT_INFO_DESCRIPTION (description p)] @ map info_download (downloads p)"

lemma length_info_values [simp]: "length (info_values p) = 9 + length (downloads p)"
  by (simp add: info_values_def)

lemma append_counted: "most < 255 \<Longrightarrow> most < capacity \<Longrightarrow> append_counted_text capacity t most = counted t most"
  by (auto simp: append_counted_text_def counted_def Let_def min_absorb1)

lemma length_counted: "length (counted t most) \<le> 1 + most" "counted t most \<noteq> []"
  using utf8_boundary_le [of t "min (length t) most"] by (auto simp: counted_def Let_def)

lemma make_string_tlv_value: "make_string_tlv ty t 249 = encode_retro_value (info_text ty t)"
  using cut_size_bounds [of t 247]
  by (simp add: make_string_tlv_def info_text_def encode_retro_value_def Let_def min_absorb2)

lemma make_download_tlv_value: "make_download_tlv d 249 = encode_retro_value (info_download d)"
proof -
  have len: "length (counted (download_id d) 64) \<le> 65" "length (counted (download_label d) 96) \<le> 97"
    using length_counted(1) [of "download_id d" 64] length_counted(1) [of "download_label d" 96] by simp_all
  then have "append_counted_text (249 - 2 - 5) (download_id d) 64 = counted (download_id d) 64"
    "append_counted_text (249 - (2 + length (counted (download_id d) 64)) - 5) (download_label d) 96 =
       counted (download_label d) 96"
    "append_counted_text (249 - (2 + length (counted (download_id d) 64) + length (counted (download_label d) 96)) - 5)
       (download_format d) 32 = counted (download_format d) 32"
    by (auto intro!: append_counted)
  then show ?thesis
    by (simp add: make_download_tlv_def length_counted(2) encode_retro_value_def info_download_def Let_def)
qed

lemma small_cases: "(i::nat) < 9 \<Longrightarrow> i = 0 \<or> i = 1 \<or> i = 2 \<or> i = 3 \<or> i = 4 \<or> i = 5 \<or> i = 6 \<or> i = 7 \<or> i = 8"
  by arith

lemma cursor_eq_iff: "i \<le> 65535 \<Longrightarrow> k \<le> 65535 \<Longrightarrow> (of_nat i :: u16) = of_nat k \<longleftrightarrow> i = k"
  by (simp add: word_unat_eq_iff unat_of_nat)

lemma make_info_record_value:
  assumes "i < 9 + length (downloads p)" and "i < 65535"
  shows "make_info_record p (of_nat i) 249 = encode_retro_value (info_values p ! i)"
proof (cases "i < 9")
  case True
  then show ?thesis
    by (auto dest!: small_cases simp: make_info_record_def info_values_def make_string_tlv_value
        encode_retro_value_def)
next
  case False
  have "(of_nat i :: u16) \<noteq> of_nat k" if "k < 9" for k
    using that False assms(2) cursor_eq_iff [of i k] by simp
  note distinct = this [of 0] this [of 1] this [of 2] this [of 3] this [of 4] this [of 5] this [of 6]
    this [of 7] this [of 8]
  obtain j where j: "i = 9 + j" "j < length (downloads p)"
    using False assms(1) le_Suc_ex [of 9 i] by auto
  have "drop 9 (info_values p) = map info_download (downloads p)"
    by (simp add: info_values_def)
  then have "info_values p ! i = info_download (downloads p ! j)"
    using j nth_drop [of 9 "info_values p" j] by simp
  moreover have "unat (of_nat i :: u16) - 9 = j"
    using cursor_of_nat(1) [OF assms(2)] j(1) by simp
  ultimately show ?thesis
    using distinct j(2) by (simp add: make_info_record_def make_download_tlv_value)
qed

lemma encode_retro_value_nonempty [simp]: "encode_retro_value v \<noteq> []"
  by (simp add: encode_retro_value_def)

lemma encode_value_le:
  assumes "i < length (info_values p)" and "length (info_values p) \<le> 65535"
  shows "length (encode_retro_value (info_values p ! i)) \<le> 249"
  using make_info_record_le [of p "of_nat i" 249] make_info_record_value [of i p] assms by simp

lemma cursor_unat: "k \<le> 65535 \<Longrightarrow> unat (of_nat k :: u16) = k"
  by (simp add: unat_of_nat)

lemma info_loop_filled:
  assumes room: "249 \<le> room" "room \<le> 255" and total: "length (info_values p) \<le> 65535"
  shows "i \<le> length (info_values p) \<Longrightarrow> length (concat (map encode_retro_value es)) \<le> room \<Longrightarrow>
    filled (\<lambda>v. [v]) encode_retro_value room i (drop i (info_values p)) es
      (case info_loop p room (of_nat i) (of_nat (length es)) (concat (map encode_retro_value es)) of
         Inl _ \<Rightarrow> None | Inr r \<Rightarrow> Some r)"
proof (induction "length (info_values p) - i" arbitrary: i es)
  case 0
  then have "i = length (info_values p)" by simp
  moreover have "unat (of_nat i :: u16) = i"
    by (rule cursor_unat) (use 0 total in linarith)
  ultimately show ?case
    using 0 by (subst info_loop.simps) (simp add: filled_end)
next
  case (Suc n)
  let ?v = "info_values p ! i" and ?body = "concat (map encode_retro_value es)"
  have i: "i < length (info_values p)" "i < 65535"
    using Suc.hyps(2) total by simp_all
  have less: "unat (of_nat i :: u16) = i" and up: "of_nat i + 1 = (of_nat (Suc i) :: u16)"
    using i(2) by (simp_all add: unat_of_nat)
  have rec: "make_info_record p (of_nat i) 249 = encode_retro_value ?v"
    using i by (intro make_info_record_value) simp_all
  have drop: "drop i (info_values p) = ?v # drop (Suc i) (info_values p)"
    using i(1) by (simp add: Cons_nth_drop_Suc)
  show ?case
  proof (cases "length (encode_retro_value ?v) \<le> room - length ?body")
    case True
    then have "filled (\<lambda>v. [v]) encode_retro_value room (Suc i) (drop (Suc i) (info_values p)) (es @ [?v])
      (case info_loop p room (of_nat (Suc i)) (of_nat (length (es @ [?v])))
          (concat (map encode_retro_value (es @ [?v]))) of Inl _ \<Rightarrow> None | Inr r \<Rightarrow> Some r)"
      using Suc.hyps(2) Suc.prems i(1) by (intro Suc.hyps(1)) simp_all
    then show ?thesis
      using True i(1) unfolding drop
      by (subst info_loop.simps) (auto intro!: filled_next simp: less up rec Let_def add.commute)
  next
    case False
    then have es: "es \<noteq> []"
      using encode_value_le [OF i(1) total] room by auto
    have "length es \<le> length ?body"
      by (simp add: length_concat_nonempty)
    then have "(of_nat (length es) :: u8) \<noteq> 0"
      using es Suc.prems(2) room by (intro count_nonzero) auto
    then show ?thesis
      using False i(1) Suc.prems(2) es unfolding drop
      by (subst info_loop.simps) (simp add: less rec filled_stop Let_def)
  qed
qed

definition retro_info_page ::
  "retro_vault_package \<Rightarrow> nat \<Rightarrow> (nat option \<times> squid_client_retro_value list) option" where
  "retro_info_page p cursor =
     read_page retro_info_step (write_info_page RETRO_VAULT_OP_INFO p (of_nat cursor) server_packet_max)"

lemma retro_info_page_law:
  assumes "length (info_values p) \<le> 65535" and c: "c \<le> length (info_values p)"
  shows "\<exists>k. c \<le> k \<and> k \<le> length (info_values p) \<and> (c < length (info_values p) \<longrightarrow> c < k) \<and>
    retro_info_page p c = Some (if k = length (info_values p) then None else Some k,
      concat (map (\<lambda>i. [info_values p ! i]) [c..<k]))"
proof (rule filled_page)
  let ?result = "case info_loop p 250 (of_nat c) 0 [] of Inl _ \<Rightarrow> None | Inr r \<Rightarrow> Some r"
  show "filled (\<lambda>v. [v]) encode_retro_value 250 c (drop c (info_values p)) [] ?result"
    using info_loop_filled [of 250 p c "[]"] assms by simp
  have "unat (of_nat c :: u16) = c"
    by (rule cursor_unat) (use assms in linarith)
  then show "retro_info_page p c = Option.bind ?result
      (\<lambda>(next_cursor, n, body). read_page retro_info_step
        (Some (page_reply RETRO_VAULT_OP_INFO next_cursor n body)))"
    using c by (auto simp: retro_info_page_def write_info_page_def write_error_response_def read_page_def
        split: sum.splits)
  show "page_records 256 retro_info_step (of_nat (length (concat (map (\<lambda>v. [v]) xs))))
      (concat (map encode_retro_value (concat (map (\<lambda>v. [v]) xs)))) = Some (concat (map (\<lambda>v. [v]) xs))"
    if "set xs \<subseteq> set (info_values p)" "length (concat (map encode_retro_value (concat (map (\<lambda>v. [v]) xs)))) \<le> 250" for xs
  proof -
    have "length (retro_value_bytes v) \<le> 255" if "v \<in> set (info_values p)" for v
      using that encode_value_le [OF _ assms(1)]
      by (auto simp: in_set_conv_nth encode_retro_value_def intro: le_trans [of _ 247])
    with that show ?thesis
      using length_concat_nonempty [of encode_retro_value xs]
      by (subst info_page.page_records_iff) (auto simp: u8_length list_all_iff)
  qed
qed (use assms in auto)

text \<open>Packages with at most 65526 downloads, all of whose cursors fit 16 bits.\<close>

definition few_downloads :: "retro_vault_package \<Rightarrow> retro_vault_package" where
  "few_downloads p = p\<lparr>downloads := take 65526 (downloads p)\<rparr>"

interpretation info_pages: cursor_pages "retro_info_page (few_downloads p)"
  "\<lambda>i. [info_values (few_downloads p) ! i]" "length (info_values (few_downloads p))" for p
  by unfold_locales (rule retro_info_page_law, auto simp: few_downloads_def)

text \<open>
  C18. A client that asks for the description of a package page by page gets every field exactly
  once, in order: identifier, name, vendor, platform, version, year, rating, description and then
  every download with its name, label, format, size and number of files. Texts are whole up to 247
  bytes (in a download 64, 96 and 32) and cut at a character otherwise. The package has at most
  65526 downloads, as many as the cursors of the protocol can address.
\<close>

theorem info_walk_complete:
  assumes "length (downloads p) \<le> 65526"
  shows "walk_pages (retro_info_page p) (length (downloads p) + 10) 0 = Some (info_values p)"
proof -
  have p: "few_downloads p = p"
    using assms by (simp add: few_downloads_def)
  have "walk_pages (retro_info_page p) (length (downloads p) + 10) 0 =
      Some (concat (map (\<lambda>i. [info_values p ! i]) [0..<length (info_values p)]))"
    using info_pages.walk_complete [of 0 p "length (downloads p) + 10"] unfolding p by simp
  also have "concat (map (\<lambda>i. [info_values p ! i]) [0..<length (info_values p)]) = info_values p"
    using map_nth [of "info_values p"] by (simp del: length_info_values)
  finally show ?thesis .
qed

definition demo_package :: retro_vault_package where
  "demo_package = \<lparr>package_id = ascii ''chess'', package_name = ascii ''Chess'', vendor = [],
     platform_id = ascii ''idp'', platform_name = [], model_id = [], model_name = [], version = [],
     description = [], release_year = 1984, rating = 3,
     downloads = [\<lparr>download_id = ascii ''disk'', download_label = ascii ''Disk'', download_format = ascii ''img'',
       aggregate_size = 5, file_count = 1\<rparr>]\<rparr>"

theorem info_walk_complete_witness:
  "length (downloads demo_package) = 1 \<and>
     walk_pages (retro_info_page demo_package) 11 0 = Some (info_values demo_package)"
  using info_walk_complete [of demo_package] by (simp add: demo_package_def)

subsection \<open>DOWNLOAD\<close>

text \<open>
  What \<open>squid_client_retro_download\<close> makes of a response: offset, size of the file, and the bytes.
\<close>

definition read_chunk :: "bytes option \<Rightarrow> squid_client_retro_download option" where
  "read_chunk response =
     (case response of
        None \<Rightarrow> None
      | Some reply \<Rightarrow>
          if length reply < 11 \<or> reply ! 1 \<noteq> RETRO_VAULT_STATUS_OK \<or> length reply \<noteq> 11 + unat (reply ! 10)
          then None
          else Some \<lparr>retro_chunk_offset = read_u32 (drop 2 reply),
            retro_chunk_total_size = read_u32 (drop 6 reply), retro_chunk_data = drop 11 reply\<rparr>)"

text \<open>The loop of a client that asks for chunk after chunk, from an offset on.\<close>

fun download_walk :: "u8 \<Rightarrow> bytes \<Rightarrow> nat \<Rightarrow> u32 \<Rightarrow> bytes option" where
  "download_walk maximum data 0 offset = None"
| "download_walk maximum data (Suc fuel) offset =
     (case read_chunk (download_reply RETRO_VAULT_OP_DOWNLOAD offset maximum data server_packet_max) of
        None \<Rightarrow> None
      | Some chunk \<Rightarrow>
          if retro_chunk_offset chunk \<noteq> offset then None
          else let n = length (retro_chunk_data chunk) in
            if unat offset + n \<ge> unat (retro_chunk_total_size chunk) then Some (retro_chunk_data chunk)
            else map_option ((@) (retro_chunk_data chunk)) (download_walk maximum data fuel (offset + of_nat n)))"

text \<open>A chunk: how long it is, and what a client reads from it.\<close>

lemma download_chunk:
  assumes "length data \<le> 0xFFFFFFFF" and "unat offset \<le> length data"
  obtains n where "n \<le> length data - unat offset" and "unat offset < length data \<longrightarrow> 0 < n"
    and "read_chunk (download_reply RETRO_VAULT_OP_DOWNLOAD offset maximum data server_packet_max) =
      Some \<lparr>retro_chunk_offset = offset, retro_chunk_total_size = of_nat (length data),
        retro_chunk_data = take n (drop (unat offset) data)\<rparr>"
proof -
  define n where "n = (let room = (if maximum > 0 \<and> 244 > unat maximum then unat maximum else 244 :: nat) in
    if room > length data - unat offset then length data - unat offset else room)"
  have pos: "0 < unat maximum" if "maximum > 0"
    using that by (simp add: word_less_nat_alt)
  have n: "n \<le> length data - unat offset" "n \<le> 244" "unat offset < length data \<longrightarrow> 0 < n"
    using pos by (auto simp: n_def Let_def)
  have "download_reply RETRO_VAULT_OP_DOWNLOAD offset maximum data server_packet_max =
      Some ([RETRO_VAULT_OP_DOWNLOAD OR RETRO_VAULT_RESPONSE_BIT, RETRO_VAULT_STATUS_OK] @ write_u32 offset @
        write_u32 (of_nat (length data)) @ [of_nat n] @ take n (drop (unat offset) data))"
    using assms by (simp add: download_reply_def n_def Let_def)
  then have "read_chunk (download_reply RETRO_VAULT_OP_DOWNLOAD offset maximum data server_packet_max) =
      Some \<lparr>retro_chunk_offset = offset, retro_chunk_total_size = of_nat (length data),
        retro_chunk_data = take n (drop (unat offset) data)\<rparr>"
    using n by (simp add: read_chunk_def nth_append unat_of_nat drop_Cons')
  with n show ?thesis
    by (intro that) auto
qed

lemma download_walk_drop:
  assumes size: "length data \<le> 0xFFFFFFFF"
  shows "unat offset \<le> length data \<Longrightarrow> length data - unat offset < fuel \<Longrightarrow>
    download_walk maximum data fuel offset = Some (drop (unat offset) data)"
proof (induction fuel arbitrary: offset)
  case (Suc fuel)
  obtain n where n: "n \<le> length data - unat offset" "unat offset < length data \<longrightarrow> 0 < n"
    and chunk: "read_chunk (download_reply RETRO_VAULT_OP_DOWNLOAD offset maximum data server_packet_max) =
      Some \<lparr>retro_chunk_offset = offset, retro_chunk_total_size = of_nat (length data),
        retro_chunk_data = take n (drop (unat offset) data)\<rparr>"
    by (rule download_chunk [OF size Suc.prems(1)])
  have total: "unat (of_nat (length data) :: u32) = length data"
    using size by (simp add: unat_of_nat)
  have len: "length (take n (drop (unat offset) data)) = n"
    using n(1) by simp
  show ?case
  proof (cases "length data \<le> unat offset + n")
    case True
    then show ?thesis
      unfolding download_walk.simps chunk using n(1) by (simp add: total Let_def min_def)
  next
    case False
    have "unat (offset + of_nat n) = unat offset + n"
      using False size by (simp add: unat_word_ariths unat_of_nat)
    then have "download_walk maximum data fuel (offset + of_nat n) = Some (drop (unat offset + n) data)"
      using False n Suc.prems by (subst Suc.IH) auto
    then show ?thesis
      using False append_take_drop_id [of n "drop (unat offset) data"] len
      unfolding download_walk.simps chunk by (simp add: total Let_def add.commute)
  qed
qed simp

text \<open>
  C17. Whatever the plugin has served, a client that reads the cached download chunk by chunk, with
  any limit on the size of a chunk, gets exactly the bytes of the file: every chunk states the offset
  that was asked for and the size of the file, and the loop ends.
\<close>

theorem download_reassembled:
  "ensures (retro_life api packets)
     (\<lambda>(served, _) _. let data = buffer_data (download_data (rv_context served)) in
        download_walk maximum data (length data + 1) 0 = Some data)"
  by (rule ensures_mono [OF retro_life_ensures])
     (auto simp: wf_retro_context_def retro_vault_download_limit_def Let_def download_walk_drop
       simp del: download_walk.simps)

end
