(* ===== verification/Filesystem_Walk.thy ===== *)
theory Filesystem_Walk
  imports Filesystem_Safety Retro_Walk
begin

text \<open>
  What a client sees of a directory: it asks the filesystem plugin for a page, reads the records
  with the function of the client library, and goes on at the next cursor until there is none. Over
  a directory below the exported root that does not change in between, the walk ends and delivers
  every entry once, in the order of the directory stream; the root itself is the exception, as
  \<open>root_is_listed_once\<close> shows. The pages are an instance of the contract \<open>cursor_pages\<close>.
  Likewise a client that reads a file chunk by chunk gets its bytes.
\<close>

subsection \<open>The loop of LIST without its calls\<close>

definition visible_name :: "bytes \<Rightarrow> bool" where
  "visible_name name \<longleftrightarrow> name \<noteq> [dot] \<and> name \<noteq> [dot, dot]"

definition fs_entry_of :: "(bytes \<Rightarrow> fs_stat) \<Rightarrow> bytes \<Rightarrow> squid_client_fs_entry" where
  "fs_entry_of info name =
     \<lparr>fs_entry_type = file_type_from_mode (st_mode (info name)), fs_entry_name = name,
      fs_entry_size = file_size_from_stat (info name)\<rparr>"

lemma list_record_entry: "list_record name (info name) = encode_fs_entry (fs_entry_of info name)"
  by (simp add: list_record_def encode_fs_entry_def fs_entry_of_def)

lemma length_encode_fs_entry [simp]:
  "length (encode_fs_entry (fs_entry_of info name)) = 6 + length name"
  by (simp flip: list_record_entry)

fun list_scan :: "(bytes \<Rightarrow> fs_stat) \<Rightarrow> u16 \<Rightarrow> bytes list \<Rightarrow> list_state \<Rightarrow> list_state" where
  "list_scan info cursor [] st = st"
| "list_scan info cursor (name # names) st =
     (if \<not> visible_name name then list_scan info cursor names st
      else if entry_index st < cursor then
        list_scan info cursor names (st\<lparr>entry_index := entry_index st + 1\<rparr>)
      else if 6 + length name > 250 - length (page_output st) then
        st\<lparr>stopped_at := Some (entry_index st)\<rparr>
      else list_scan info cursor names
        (st\<lparr>page_output := page_output st @ encode_fs_entry (fs_entry_of info name),
            entry_count := entry_count st + 1, entry_index := entry_index st + 1\<rparr>))"

definition scan_state :: "nat \<Rightarrow> squid_client_fs_entry list \<Rightarrow> list_state" where
  "scan_state i es = \<lparr>entry_index = of_nat i, entry_count = of_nat (length es),
     page_output = concat (map encode_fs_entry es), stopped_at = None\<rparr>"

definition scan_page :: "list_state \<Rightarrow> u16 \<times> u8 \<times> bytes" where
  "scan_page st = (case stopped_at st of None \<Rightarrow> SQUID_FS_CURSOR_END | Some c \<Rightarrow> c,
     entry_count st, page_output st)"

lemma scan_state_simps [simp]:
  "entry_index (scan_state i es) = of_nat i" "entry_count (scan_state i es) = of_nat (length es)"
  "page_output (scan_state i es) = concat (map encode_fs_entry es)" "stopped_at (scan_state i es) = None"
  by (simp_all add: scan_state_def)

lemma scan_state_skip: "(scan_state i es)\<lparr>entry_index := of_nat i + 1\<rparr> = scan_state (Suc i) es"
  by (simp add: scan_state_def add.commute)

lemma scan_state_take:
  "(scan_state i es)\<lparr>page_output := concat (map encode_fs_entry es) @ encode_fs_entry e,
     entry_count := of_nat (length es) + 1, entry_index := of_nat i + 1\<rparr> = scan_state (Suc i) (es @ [e])"
  by (simp add: scan_state_def add.commute)

lemma encode_fs_entry_nonempty [simp]: "encode_fs_entry e \<noteq> []"
  by (simp add: encode_fs_entry_def)

lemma list_scan_filled:
  assumes c: "c \<le> 65535" and short: "\<And>name. name \<in> set names \<Longrightarrow> visible_name name \<Longrightarrow> length name \<le> 243"
  shows "i + length (filter visible_name names) \<le> 65535 \<Longrightarrow>
    length (concat (map encode_fs_entry es)) \<le> 250 \<Longrightarrow>
    filled (\<lambda>name. [fs_entry_of info name]) encode_fs_entry 250 (max i c)
      (drop (c - i) (filter visible_name names)) es
      (Some (scan_page (list_scan info (of_nat c) names (scan_state i es))))"
  using short
proof (induction names arbitrary: i es)
  case Nil
  then show ?case by (simp add: filled_end scan_page_def scan_state_def)
next
  case (Cons name names)
  let ?body = "concat (map encode_fs_entry es)" and ?e = "fs_entry_of info name"
  note short = Cons.prems(3)
  have IH: "filled (\<lambda>name. [fs_entry_of info name]) encode_fs_entry 250 (max j c)
      (drop (c - j) (filter visible_name names)) es'
      (Some (scan_page (list_scan info (of_nat c) names (scan_state j es'))))"
    if "j + length (filter visible_name names) \<le> 65535" "length (concat (map encode_fs_entry es')) \<le> 250" for j es'
    using that short by (intro Cons.IH) auto
  show ?case
  proof (cases "visible_name name")
    case False
    with Cons.prems IH [of i es] show ?thesis by simp
  next
    case True
    then have i: "i < 65535" and more: "Suc i + length (filter visible_name names) \<le> 65535"
      and name: "length name \<le> 243"
      using Cons.prems(1) short by simp_all
    have less: "(of_nat i :: u16) < of_nat c \<longleftrightarrow> i < c"
      using i c by (simp add: word_less_nat_alt unat_of_nat)
    consider "i < c" | "c \<le> i" "6 + length name \<le> 250 - length ?body" | "c \<le> i" "6 + length name > 250 - length ?body"
      by linarith
    then show ?thesis
    proof cases
      case 1
      then show ?thesis
        using IH [OF more Cons.prems(2)] True
        by (simp add: scan_state_skip less drop_Cons' max_def split: if_splits)
    next
      case 2
      have "length (concat (map encode_fs_entry (es @ [?e]))) \<le> 250"
        using 2(2) Cons.prems(2) by simp
      from IH [OF more this] 2 True show ?thesis
        by (simp add: scan_state_take less max_def filled_next)
    next
      case 3
      then have es: "es \<noteq> []"
        using name by auto
      with 3 True show ?thesis
        using Cons.prems(2) by (simp add: scan_page_def less filled_stop max_def)
    qed
  qed
qed


subsection \<open>The handler over a directory that does not change\<close>

text \<open>The directories on a path, and what it names, can be opened.\<close>

definition opens_path :: "fs_api \<Rightarrow> bytes \<Rightarrow> bool" where
  "opens_path api path \<longleftrightarrow>
     (\<forall>h fd. \<exists>fd'. sys_dup api h fd = Inr fd') \<and>
     (\<forall>h fd component flags. component \<in> set (split_path [] path) \<longrightarrow>
        (\<exists>fd'. sys_openat api h fd component flags = Inr fd'))"

lemma split_path_leaf:
  assumes "components_are_valid [] path" and "path \<noteq> []"
  shows "split_path [] path = split_path [] (path_parent path) @ [path_leaf path]"
proof -
  have leaf: "split_path [] (path_leaf path) = [path_leaf path]"
    using valid_path_parts(1) [OF assms] by (simp add: split_path_no_slash safe_name_def component_is_valid_def)
  from path_leaf_suffix [of path] show ?thesis
  proof
    assume eq: "path = path_leaf path"
    then have "path_parent path = []" by (simp add: path_parent_def)
    with eq leaf show ?thesis by simp
  next
    assume "path = path_parent path @ slash # path_leaf path"
    with leaf split_path_append_slash [of "[]" "path_parent path" "path_leaf path"] show ?thesis by simp
  qed
qed

text \<open>
  A descriptor that \<open>openat\<close> has just returned for a name; since then only the directory it was
  looked up in has been closed.
\<close>

definition just_opened :: "bytes \<Rightarrow> fs_event list \<Rightarrow> int \<Rightarrow> bool" where
  "just_opened name h fd =
     (case rev h of
        Close d _ # Openat d' name' _ r # _ \<Rightarrow> d = d' \<and> name' = name \<and> r = Inr fd
      | _ \<Rightarrow> False)"

lemma just_opened_append [simp]:
  "just_opened name (h @ [Openat d name' flags r, Close d r']) fd \<longleftrightarrow> name' = name \<and> r = Inr fd"
  by (simp add: just_opened_def)

text \<open>
  The directory at a path can be opened, a stream on a descriptor that has just been opened for it
  delivers all its names and ends without an error, and every name has its information. Nothing is
  said of a stream on a duplicate of another descriptor, which shares its position.
\<close>

definition serves_directory :: "fs_api \<Rightarrow> bytes \<Rightarrow> bytes list \<Rightarrow> (bytes \<Rightarrow> fs_stat) \<Rightarrow> bool" where
  "serves_directory api path names info \<longleftrightarrow> opens_path api path \<and>
     (\<forall>h fd. just_opened (path_leaf path) h fd \<longrightarrow> sys_fdopendir api h fd = Inr (names, None)) \<and>
     (\<forall>h fd name. name \<in> set names \<longrightarrow>
        sys_fstatat api h fd name [AT_SYMLINK_NOFOLLOW] = Inr (info name))"

lemma run_open_components:
  assumes "\<And>h fd component flags. component \<in> set components \<Longrightarrow> \<exists>fd'. sys_openat api h fd component flags = Inr fd'"
  shows "\<exists>fd' s'. run_state (open_components api fd components) s = (Some fd', s') \<and>
    (components \<noteq> [] \<longrightarrow> just_opened (last components) (trace s') fd')"
  using assms
proof (induction components arbitrary: fd s)
  case (Cons component components)
  let ?flags = "[O_RDONLY, O_DIRECTORY, O_CLOEXEC, O_NOFOLLOW]"
  obtain fd1 where "sys_openat api (trace s) fd component ?flags = Inr fd1"
    using Cons.prems [of component "trace s" fd ?flags] by auto
  then have opened: "run_state (call_openat api fd component ?flags) s =
      (Some fd1, s\<lparr>trace := trace s @ [Openat fd component ?flags (Inr fd1)]\<rparr>)"
    by (simp add: call_openat_def)
  obtain x s2 c where closed: "run_state (fs_close api fd)
      (s\<lparr>trace := trace s @ [Openat fd component ?flags (Inr fd1)]\<rparr>) = (x, s2)"
    "trace s2 = trace s @ [Openat fd component ?flags (Inr fd1), Close fd c]"
    by (cases "sys_close api (trace s @ [Openat fd component ?flags (Inr fd1)]) fd")
       (auto simp: fs_close_def)
  obtain fd' s' where "run_state (open_components api fd1 components) s2 = (Some fd', s')"
    "components \<noteq> [] \<longrightarrow> just_opened (last components) (trace s') fd'"
    using Cons.IH [of fd1 s2] Cons.prems by auto
  with opened closed show ?case
    by (cases "components = []") auto
qed simp

lemma run_open_directory_path:
  assumes "opens_path api path" and "0 \<le> root_fd context"
  shows "\<exists>fd s'. run_state (open_directory_path api context path) s = (Some fd, s') \<and>
    (split_path [] path \<noteq> [] \<longrightarrow> just_opened (last (split_path [] path)) (trace s') fd)"
proof -
  obtain fd1 s1 where "run_state (open_root_copy api context) s = (Some fd1, s1)"
  proof -
    obtain fd1 where "sys_dup api (trace s) (root_fd context) = Inr fd1"
      using assms(1) unfolding opens_path_def by blast
    then show thesis
      using assms(2) by (intro that) (simp add: open_root_copy_def call_dup_def)
  qed
  moreover obtain fd s' where "run_state (open_components api fd1 (split_path [] path)) s1 = (Some fd, s')"
    "split_path [] path \<noteq> [] \<longrightarrow> just_opened (last (split_path [] path)) (trace s') fd"
    using assms(1) run_open_components [of "split_path [] path" api fd1 s1]
    unfolding opens_path_def by blast
  ultimately show ?thesis
    by (auto simp: open_directory_path_def)
qed

lemma run_list_entries:
  assumes "\<And>h name. name \<in> set names \<Longrightarrow> sys_fstatat api h fd name [AT_SYMLINK_NOFOLLOW] = Inr (info name)"
    and "\<And>name. name \<in> set names \<Longrightarrow> visible_name name \<Longrightarrow> length name \<le> 243"
    and "length (concat (map encode_fs_entry es)) \<le> 250"
  shows "\<exists>s'. run_state (list_entries api fd opcode 255 cursor names (scan_state i es)) s =
    (Inr (list_scan info cursor names (scan_state i es)), s') \<and> c_errno s' = c_errno s"
  using assms
proof (induction names arbitrary: i es s)
  case (Cons name names)
  let ?body = "concat (map encode_fs_entry es)" and ?e = "fs_entry_of info name"
  have IH: "\<exists>s'. run_state (list_entries api fd opcode 255 cursor names (scan_state j es')) s1 =
      (Inr (list_scan info cursor names (scan_state j es')), s') \<and> c_errno s' = c_errno s1"
    if "length (concat (map encode_fs_entry es')) \<le> 250" for j es' s1
    using that Cons.prems by (intro Cons.IH) auto
  have stat: "sys_fstatat api h fd name [AT_SYMLINK_NOFOLLOW] = Inr (info name)" for h
    using Cons.prems(1) by simp
  consider "\<not> visible_name name" | "visible_name name" "of_nat i < cursor"
    | "visible_name name" "\<not> of_nat i < cursor" "6 + length name \<le> 250 - length ?body"
    | "visible_name name" "\<not> of_nat i < cursor" "6 + length name > 250 - length ?body"
    by linarith
  then show ?case
  proof cases
    case 1
    with IH [OF Cons.prems(3), of i s] show ?thesis
      by (auto simp: visible_name_def)
  next
    case 2
    with IH [OF Cons.prems(3), of "Suc i" s] show ?thesis
      by (auto simp: visible_name_def scan_state_skip simp del: of_nat_Suc)
  next
    case 3
    have name: "length name \<le> 243"
      using Cons.prems(2) 3(1) by simp
    have fits: "length (concat (map encode_fs_entry (es @ [?e]))) \<le> 250"
      using 3(3) Cons.prems(3) by simp
    let ?s1 = "s\<lparr>trace := trace s @ [Fstatat fd name [AT_SYMLINK_NOFOLLOW] (Inr (info name))]\<rparr>"
    show ?thesis
      using IH [OF fits, of "Suc i" ?s1] 3 name
      by (simp add: visible_name_def call_fstatat_def stat list_record_entry scan_state_take)
  next
    case 4
    have name: "length name \<le> 243"
      using Cons.prems(2) 4(1) by simp
    have "length es \<le> length ?body"
      by (simp add: length_concat_nonempty)
    then have "(of_nat (length es) :: u8) \<noteq> 0"
      using 4(3) name Cons.prems(3) by (intro count_nonzero) auto
    then show ?thesis
      using 4 name by (simp add: visible_name_def call_fstatat_def stat)
  qed
qed simp


lemma list_start_scan: "list_start = scan_state 0 []"
  by (simp add: list_start_def scan_state_def)

lemma run_list_directory:
  assumes dir: "sys_fdopendir api (trace s) fd = Inr (names, None)"
    and stat: "\<And>h name. name \<in> set names \<Longrightarrow> sys_fstatat api h fd name [AT_SYMLINK_NOFOLLOW] = Inr (info name)"
    and short: "\<And>name. name \<in> set names \<Longrightarrow> visible_name name \<Longrightarrow> length name \<le> 243"
  shows "fst (run_state (list_directory api fd opcode 255 cursor) s) =
    Some (list_reply opcode (list_scan info cursor names list_start))"
proof -
  let ?s1 = "s\<lparr>trace := trace s @ [Fdopendir fd (Inr (names, None))], c_errno := E_OK\<rparr>"
  obtain s' where "run_state (list_entries api fd opcode 255 cursor names list_start) ?s1 =
      (Inr (list_scan info cursor names list_start), s')" and "c_errno s' = E_OK"
    using run_list_entries [OF stat short, where es = "[]" and opcode = opcode and cursor = cursor and i = 0 and s = ?s1]
    unfolding list_start_scan by auto
  then show ?thesis
    by (simp add: list_directory_def call_fdopendir_def dir split_beta split: option.splits)
qed

text \<open>The request that \<open>squid_client_fs_list\<close> sends.\<close>

definition list_request :: "bytes \<Rightarrow> u16 \<Rightarrow> bytes" where
  "list_request path cursor = [SQUID_FS_OP_LIST] @ write_u16 cursor @ [of_nat (length path)] @ path"

lemma run_handle_list:
  assumes served: "serves_directory api path names info"
    and short: "\<And>name. name \<in> set names \<Longrightarrow> visible_name name \<Longrightarrow> length name \<le> 243"
    and path: "path_is_valid path False = Some path" and cursor: "cursor \<noteq> SQUID_FS_CURSOR_END"
    and state: "squid_fs_plugin_state.started state" "0 \<le> root_fd (fs_context state)"
  shows "fst (run_state (handle_squid_fs_packet api state (list_request path cursor) 255) s) =
    Some (list_reply SQUID_FS_OP_LIST (list_scan info cursor names list_start))"
proof -
  have valid: "components_are_valid [] path" "path \<noteq> []" "length path \<le> 240" "path_is_valid path True = Some path"
    using path by (auto simp: path_is_valid_def split: if_splits)
  note leaf = split_path_leaf [OF valid(1,2)]
  have "opens_path api path"
    using served by (simp add: serves_directory_def)
  from run_open_directory_path [OF this state(2), of s]
  obtain fd s' where opened: "run_state (open_directory_path api (fs_context state) path) s = (Some fd, s')"
    and fresh: "just_opened (path_leaf path) (trace s') fd"
    unfolding leaf by auto
  have listed: "fst (run_state (list_directory api fd SQUID_FS_OP_LIST 255 cursor) s') =
      Some (list_reply SQUID_FS_OP_LIST (list_scan info cursor names list_start))"
    by (rule run_list_directory [OF _ _ short]) (use served fresh in \<open>auto simp: serves_directory_def\<close>)
  have "read_path_request (list_request path cursor) 3 True = Some path"
    using valid(3,4) by (simp add: read_path_request_def list_request_def write_u16_def unat_of_nat)
  moreover have "read_u16 (drop 1 (list_request path cursor)) = cursor" "list_request path cursor ! 0 = SQUID_FS_OP_LIST"
    "4 \<le> length (list_request path cursor)"
    by (simp_all add: list_request_def)
  ultimately show ?thesis
    using cursor state opened listed
    by (auto simp: handle_squid_fs_packet_def handle_squid_fs_request_def fs_handle_list_def Let_def)
qed

subsection \<open>The walk\<close>

fun fs_list_walk ::
  "fs_api \<Rightarrow> squid_fs_plugin_state \<Rightarrow> bytes \<Rightarrow> nat \<Rightarrow> nat \<Rightarrow>
     (fs_event, squid_client_fs_entry list option) io" where
  "fs_list_walk api state path 0 cursor = State_Monad.return None"
| "fs_list_walk api state path (Suc fuel) cursor = do {
     reply \<leftarrow> handle_squid_fs_packet api state (list_request path (of_nat cursor)) server_packet_max;
     case read_page fs_list_step reply of
       None \<Rightarrow> State_Monad.return None
     | Some (None, es) \<Rightarrow> State_Monad.return (Some es)
     | Some (Some cursor', es) \<Rightarrow> do {
         rest \<leftarrow> fs_list_walk api state path fuel cursor';
         State_Monad.return (map_option ((@) es) rest) } }"

definition fs_list_page :: "(bytes \<Rightarrow> fs_stat) \<Rightarrow> bytes list \<Rightarrow> nat \<Rightarrow> (nat option \<times> squid_client_fs_entry list) option" where
  "fs_list_page info names c =
     read_page fs_list_step (Some (list_reply SQUID_FS_OP_LIST (list_scan info (of_nat c) names list_start)))"

lemma fs_list_pages:
  assumes size: "length (filter visible_name names) \<le> 65535"
    and short: "\<And>name. name \<in> set names \<Longrightarrow> visible_name name \<Longrightarrow> length name \<le> 243"
  shows "cursor_pages (fs_list_page info names) (\<lambda>i. [fs_entry_of info (filter visible_name names ! i)])
    (length (filter visible_name names))"
proof (unfold_locales, rule filled_page)
  fix c assume c: "c < length (filter visible_name names) \<or> c = 0"
  then show "c \<le> length (filter visible_name names)" by auto
  let ?result = "Some (scan_page (list_scan info (of_nat c) names list_start))"
  show "filled (\<lambda>name. [fs_entry_of info name]) encode_fs_entry 250 c (drop c (filter visible_name names)) [] ?result"
    using list_scan_filled [of c names 0 "[]" info] c size short by (auto simp: list_start_scan)
  show "fs_list_page info names c = Option.bind ?result
      (\<lambda>(next_cursor, n, body). read_page fs_list_step (Some (page_reply SQUID_FS_OP_LIST next_cursor n body)))"
    by (simp add: fs_list_page_def scan_page_def list_reply_def page_reply_def)
  fix xs assume xs: "set xs \<subseteq> set (filter visible_name names)"
    and room: "length (concat (map encode_fs_entry (concat (map (\<lambda>name. [fs_entry_of info name]) xs)))) \<le> 250"
  have few: "length xs \<le> 250"
    using room length_concat_nonempty [of encode_fs_entry "map (fs_entry_of info) xs"]
    by (simp add: concat_map_singleton)
  have "length e \<le> 243" if "e \<in> set xs" for e
    using that xs by (intro short) auto
  then have names: "list_all (\<lambda>e. length (fs_entry_name e) \<le> 255) (map (fs_entry_of info) xs)"
    by (force simp: list_all_iff fs_entry_of_def)
  have "page_records 256 fs_list_step (of_nat (length (map (fs_entry_of info) xs)))
      (concat (map encode_fs_entry (map (fs_entry_of info) xs))) = Some (map (fs_entry_of info) xs)"
    using few names by (subst fs_page.page_records_iff) (simp_all add: unat_of_nat)
  then show "page_records 256 fs_list_step (of_nat (length (concat (map (\<lambda>name. [fs_entry_of info name]) xs))))
      (concat (map encode_fs_entry (concat (map (\<lambda>name. [fs_entry_of info name]) xs)))) =
      Some (concat (map (\<lambda>name. [fs_entry_of info name]) xs))"
    by (simp add: concat_map_singleton)
qed (rule size)

lemma fs_list_walk_pages:
  assumes pages: "cursor_pages (fs_list_page info names) item n" and size: "n \<le> 65535"
    and replies: "\<And>c s. c < 65535 \<Longrightarrow> fst (run_state (handle_squid_fs_packet api state (list_request path (of_nat c)) 255) s) =
      Some (list_reply SQUID_FS_OP_LIST (list_scan info (of_nat c) names list_start))"
  shows "c < n \<or> c = 0 \<Longrightarrow>
    fst (run_state (fs_list_walk api state path fuel c) s) = walk_pages (fs_list_page info names) fuel c"
proof (induction fuel arbitrary: c s)
  case (Suc fuel)
  then have c: "c < 65535"
    using size by auto
  obtain s1 where reply: "run_state (handle_squid_fs_packet api state (list_request path (of_nat c)) 255) s =
      (Some (list_reply SQUID_FS_OP_LIST (list_scan info (of_nat c) names list_start)), s1)"
    using replies [OF c, of s] by (metis prod.collapse)
  obtain k where k: "k \<le> n" "fs_list_page info names c =
      Some (if k = n then None else Some k, concat (map item [c..<k]))"
    using cursor_pages.page_law [OF pages Suc.prems] by blast
  note read = k(2) [unfolded fs_list_page_def]
  show ?case
  proof (cases "k = n")
    case True
    with k reply read show ?thesis
      by simp
  next
    case False
    obtain rest s2 where walk: "run_state (fs_list_walk api state path fuel k) s1 = (rest, s2)"
      by (cases "run_state (fs_list_walk api state path fuel k) s1")
    then have "rest = walk_pages (fs_list_page info names) fuel k"
      using Suc.IH [of k s1] False k(1) by simp
    with False k reply read walk show ?thesis
      by simp
  qed
qed simp

text \<open>
  C11. A client that lists a directory page by page gets every entry exactly once: over a directory
  below the exported root that does not change, that can be opened and holds at most 65535 entries
  with names of at most 243 bytes, the walk from cursor 0 ends after at most one page more than there are names, and its
  entries are, in the order of the directory stream, all names but the two dot entries, each with
  its type and size.
\<close>

theorem fs_list_walk_complete:
  assumes "serves_directory api path names info"
    and "path_is_valid path False = Some path"
    and "squid_fs_plugin_state.started state" and "0 \<le> root_fd (fs_context state)"
    and "length (filter visible_name names) \<le> 65535"
    and "\<forall>name\<in>set names. visible_name name \<longrightarrow> length name \<le> 243"
  shows "fst (run_state (fs_list_walk api state path (length names + 1) 0) s) =
    Some (map (fs_entry_of info) (filter visible_name names))"
proof -
  let ?ms = "filter visible_name names"
  have short: "\<And>name. name \<in> set names \<Longrightarrow> visible_name name \<Longrightarrow> length name \<le> 243"
    using assms(6) by blast
  note pages = fs_list_pages [OF assms(5) short, where info = info]
  have "fst (run_state (handle_squid_fs_packet api state (list_request path (of_nat c)) 255) s') =
      Some (list_reply SQUID_FS_OP_LIST (list_scan info (of_nat c) names list_start))" if "c < 65535" for c s'
    using cursor_of_nat(2) [OF that] assms short by (intro run_handle_list) auto
  then have "fst (run_state (fs_list_walk api state path (length names + 1) 0) s) =
      walk_pages (fs_list_page info names) (length names + 1) 0"
    by (intro fs_list_walk_pages [OF pages assms(5)]) simp_all
  also have "\<dots> = Some (concat (map (\<lambda>i. [fs_entry_of info (?ms ! i)]) [0..<length ?ms]))"
    by (rule cursor_pages.walk_complete [OF pages]) (simp_all add: le_imp_less_Suc)
  also have "concat (map (\<lambda>i. [fs_entry_of info (?ms ! i)]) [0..<length ?ms]) = map (fs_entry_of info) ?ms"
    by (rule nth_equalityI) (simp_all add: concat_map_singleton)
  finally show ?thesis .
qed


definition demo_fs_state :: squid_fs_plugin_state where
  "demo_fs_state = \<lparr>fs_context = \<lparr>root_fd = 3, read_only = False\<rparr>, started = True\<rparr>"

theorem fs_list_walk_complete_witness:
  "fst (run_state (fs_list_walk demo_fs_api demo_fs_state (ascii ''dir'') 4 0) \<lparr>trace = [], c_errno = E_OK\<rparr>) =
     Some [\<lparr>fs_entry_type = 1, fs_entry_name = ascii ''a.txt'', fs_entry_size = 5\<rparr>,
       \<lparr>fs_entry_type = 1, fs_entry_name = ascii ''b'', fs_entry_size = 5\<rparr>]"
proof -
  let ?names = "[ascii ''.'', ascii ''a.txt'', ascii ''b'']"
  let ?info = "\<lambda>_ :: bytes. \<lparr>st_mode = 0x81A4, st_size = 5, st_mtime = 1000\<rparr> :: fs_stat"
  have served: "serves_directory demo_fs_api (ascii ''dir'') ?names ?info"
    by (simp add: serves_directory_def opens_path_def demo_fs_api_def)
  have path: "path_is_valid (ascii ''dir'') False = Some (ascii ''dir'')"
    by code_simp
  have fuel: "length ?names + 1 = 4"
    by simp
  have visible: "filter visible_name ?names = [ascii ''a.txt'', ascii ''b'']"
    by code_simp
  have "fst (run_state (fs_list_walk demo_fs_api demo_fs_state (ascii ''dir'') (length ?names + 1) 0)
      \<lparr>trace = [], c_errno = E_OK\<rparr>) = Some (map (fs_entry_of ?info) (filter visible_name ?names))"
    by (rule fs_list_walk_complete [OF served path])
       (simp_all only: visible, simp_all add: demo_fs_state_def ascii_def)
  also have "map (fs_entry_of ?info) (filter visible_name ?names) =
     [\<lparr>fs_entry_type = 1, fs_entry_name = ascii ''a.txt'', fs_entry_size = 5\<rparr>,
       \<lparr>fs_entry_type = 1, fs_entry_name = ascii ''b'', fs_entry_size = 5\<rparr>]"
    unfolding visible by code_simp
  finally show ?thesis
    unfolding fuel .
qed


subsection \<open>The root\<close>

text \<open>
  For the exported root there is no such theorem. Nothing is opened for a LIST of the empty path:
  the stream is made on a duplicate of \<open>root_fd\<close>, and a duplicate shares the position of the
  original, which the code never sets back. A kernel that goes on where the last stream has read to,
  the end for a directory that fits one buffer of \<open>readdir\<close>, delivers nothing to the next stream:
  after its first page the root looks empty, at every cursor.
\<close>

fun streams :: "fs_event \<Rightarrow> bool" where
  "streams (Fdopendir _ _) = True"
| "streams _ = False"

definition root_position_shared :: "fs_api \<Rightarrow> bool" where
  "root_position_shared api \<longleftrightarrow> (\<forall>h fd. \<exists>fd'. sys_dup api h fd = Inr fd') \<and>
     (\<forall>h fd. list_ex streams h \<longrightarrow> sys_fdopendir api h fd = Inr ([], None))"

theorem root_is_listed_once:
  assumes shared: "root_position_shared api" and listed: "list_ex streams (trace s)"
    and cursor: "cursor \<noteq> SQUID_FS_CURSOR_END"
    and state: "squid_fs_plugin_state.started state" "0 \<le> root_fd (fs_context state)"
  shows "fst (run_state (handle_squid_fs_packet api state (list_request [] cursor) 255) s) =
    Some (list_reply SQUID_FS_OP_LIST list_start)"
proof -
  obtain fd where "sys_dup api (trace s) (root_fd (fs_context state)) = Inr fd"
    using shared unfolding root_position_shared_def by blast
  then have opened: "run_state (open_directory_path api (fs_context state) []) s =
      (Some fd, s\<lparr>trace := trace s @ [Dup (root_fd (fs_context state)) (Inr fd)]\<rparr>)"
    using state(2) by (simp add: open_directory_path_def open_root_copy_def call_dup_def)
  let ?s = "s\<lparr>trace := trace s @ [Dup (root_fd (fs_context state)) (Inr fd)]\<rparr>"
  have "sys_fdopendir api (trace ?s) fd = Inr ([], None)"
    using shared listed by (simp add: root_position_shared_def)
  then have "fst (run_state (list_directory api fd SQUID_FS_OP_LIST 255 cursor) ?s) =
      Some (list_reply SQUID_FS_OP_LIST (list_scan (\<lambda>_. undefined) cursor [] list_start))"
    by (rule run_list_directory) simp_all
  moreover have "read_path_request (list_request [] cursor) 3 True = Some []"
    by (simp add: read_path_request_def list_request_def path_is_valid_def write_u16_def)
  moreover have "read_u16 (drop 1 (list_request [] cursor)) = cursor" "list_request [] cursor ! 0 = SQUID_FS_OP_LIST"
    "4 \<le> length (list_request [] cursor)"
    by (simp_all add: list_request_def)
  ultimately show ?thesis
    using cursor state opened
    by (auto simp: handle_squid_fs_packet_def handle_squid_fs_request_def fs_handle_list_def Let_def)
qed

subsection \<open>Reading a file\<close>

text \<open>
  The file at a path can be opened, is a regular file with these bytes, and a read delivers some of
  the bytes at its offset, at least one when there are any.
\<close>

definition serves_file :: "fs_api \<Rightarrow> bytes \<Rightarrow> bytes \<Rightarrow> bool" where
  "serves_file api path data \<longleftrightarrow> opens_path api path \<and>
     (\<forall>h fd. \<exists>information. sys_fstat api h fd = Inr information \<and>
        S_ISREG (st_mode information) \<and> st_size information = int (length data)) \<and>
     (\<forall>h fd n offset. \<exists>k. sys_pread api h fd n offset = Inr (take k (drop (unat offset) data)) \<and>
        k \<le> n \<and> (0 < n \<longrightarrow> 0 < k))"

lemma run_open_leaf:
  assumes served: "opens_path api path" and root: "0 \<le> root_fd context"
    and path: "path_is_valid path False = Some path"
  shows "\<exists>fd s'. run_state (open_leaf api context opcode capacity path flags) s = (Inr fd, s')"
proof -
  have "path \<noteq> []" "components_are_valid [] path"
    using path by (auto simp: path_is_valid_def split: if_splits)
  then have parts: "split_path [] path = split_path [] (path_parent path) @ [path_leaf path]"
    by (intro split_path_leaf)
  then have "opens_path api (path_parent path)"
    using served by (auto simp: opens_path_def)
  then obtain fd1 s1 where "run_state (open_directory_path api context (path_parent path)) s = (Some fd1, s1)"
    using run_open_directory_path [OF _ root, of api "path_parent path" s] by auto
  moreover obtain fd where "sys_openat api (trace s1) fd1 (path_leaf path) flags = Inr fd"
    using served parts unfolding opens_path_def by (metis in_set_conv_decomp)
  ultimately show ?thesis
    using \<open>path \<noteq> []\<close> by (auto simp: open_leaf_def open_parent_directory_def call_openat_def split_beta)
qed

definition chunk_reply :: "u32 \<Rightarrow> bytes \<Rightarrow> nat \<Rightarrow> bytes" where
  "chunk_reply offset data n = [SQUID_FS_OP_READ OR SQUID_FS_RESPONSE_BIT, SQUID_FS_STATUS_OK] @
     write_u32 offset @ write_u32 (of_nat (length data)) @ [of_nat n] @ take n (drop (unat offset) data)"

lemma run_read_file:
  assumes served: "serves_file api path data" and size: "length data \<le> 0xFFFFFFFF" "unat offset \<le> length data"
  shows "\<exists>n. n \<le> length data - unat offset \<and> n \<le> 244 \<and> (unat offset < length data \<longrightarrow> 0 < n) \<and>
    fst (run_state (read_file api fd SQUID_FS_OP_READ offset maximum 255) s) = Some (chunk_reply offset data n)"
proof -
  obtain information where info: "sys_fstat api (trace s) fd = Inr information"
    "S_ISREG (st_mode information)" "st_size information = int (length data)"
    using served unfolding serves_file_def by blast
  let ?s1 = "s\<lparr>trace := trace s @ [Fstat fd (Inr information)]\<rparr>"
  define m where "m = read_chunk_size information offset maximum 255"
  have pos: "0 < unat maximum" if "maximum > 0"
    using that by (simp add: word_less_nat_alt)
  have m: "m \<le> length data - unat offset" "m \<le> 244" "unat offset < length data \<longrightarrow> 0 < m"
    using pos unfolding m_def read_chunk_size_def info(3) Let_def by (simp_all split: if_splits)
  obtain k where k: "sys_pread api (trace ?s1) fd m offset = Inr (take k (drop (unat offset) data))"
    "k \<le> m" "0 < m \<longrightarrow> 0 < k"
    using served unfolding serves_file_def by blast
  have "uint offset \<le> int (length data)"
    by (simp only: uint_nat of_nat_le_iff size(2))
  then have "read_refusal information offset = None"
    using info(2,3) size(1) by (simp add: read_refusal_def S_ISREG_def S_ISDIR_def)
  moreover have "length (take k (drop (unat offset) data)) = k" "min m k = k"
    using k(2) m(1) by simp_all
  ultimately have "fst (run_state (read_file api fd SQUID_FS_OP_READ offset maximum 255) s) =
      Some (chunk_reply offset data k)"
    using k(1) info by (simp add: read_file_def call_fstat_def call_pread_def chunk_reply_def split_beta
        del: length_take length_drop flip: m_def)
  then show ?thesis
    using k m by (intro exI [of _ k]) auto
qed


text \<open>The request of \<open>squid_client_fs_read\<close>, what it makes of the response, and a client's loop.\<close>

definition read_request :: "bytes \<Rightarrow> u32 \<Rightarrow> u8 \<Rightarrow> bytes" where
  "read_request path offset maximum =
     [SQUID_FS_OP_READ] @ write_u32 offset @ [maximum, of_nat (length path)] @ path"

lemma run_handle_read:
  assumes served: "serves_file api path data" and size: "length data \<le> 0xFFFFFFFF" "unat offset \<le> length data"
    and path: "path_is_valid path False = Some path"
    and state: "squid_fs_plugin_state.started state" "0 \<le> root_fd (fs_context state)"
  shows "\<exists>n. n \<le> length data - unat offset \<and> n \<le> 244 \<and> (unat offset < length data \<longrightarrow> 0 < n) \<and>
    fst (run_state (handle_squid_fs_packet api state (read_request path offset maximum) 255) s) =
      Some (chunk_reply offset data n)"
proof -
  let ?flags = "[O_RDONLY, O_CLOEXEC, O_NOFOLLOW]"
  have "opens_path api path"
    using served by (simp add: serves_file_def)
  then obtain fd s' where "run_state (open_leaf api (fs_context state) SQUID_FS_OP_READ 255 path ?flags) s = (Inr fd, s')"
    using run_open_leaf [OF _ state(2) path, of api SQUID_FS_OP_READ 255 ?flags s] by auto
  moreover have "length path \<le> 240"
    using path by (auto simp: path_is_valid_def split: if_splits)
  then have "read_path_request (read_request path offset maximum) 6 False = Some path"
    using path by (simp add: read_path_request_def read_request_def nth_append unat_of_nat)
  moreover have "read_u32 (drop 1 (read_request path offset maximum)) = offset"
    "read_request path offset maximum ! 0 = SQUID_FS_OP_READ" "read_request path offset maximum ! 5 = maximum"
    "7 \<le> length (read_request path offset maximum)"
    by (simp_all add: read_request_def nth_append)
  moreover note run_read_file [OF served size, of fd maximum s']
  ultimately show ?thesis
    using state by (auto simp: handle_squid_fs_packet_def handle_squid_fs_request_def fs_handle_read_def Let_def)
qed

definition fs_read_chunk :: "bytes option \<Rightarrow> squid_client_fs_read option" where
  "fs_read_chunk response =
     (case response of
        None \<Rightarrow> None
      | Some reply \<Rightarrow>
          if length reply < 11 \<or> reply ! 1 \<noteq> SQUID_FS_STATUS_OK \<or> length reply \<noteq> 11 + unat (reply ! 10)
          then None
          else Some \<lparr>fs_chunk_offset = read_u32 (drop 2 reply),
            fs_chunk_total_size = read_u32 (drop 6 reply), fs_chunk_data = drop 11 reply\<rparr>)"

fun fs_read_walk ::
  "fs_api \<Rightarrow> squid_fs_plugin_state \<Rightarrow> bytes \<Rightarrow> u8 \<Rightarrow> nat \<Rightarrow> u32 \<Rightarrow> (fs_event, bytes option) io" where
  "fs_read_walk api state path maximum 0 offset = State_Monad.return None"
| "fs_read_walk api state path maximum (Suc fuel) offset = do {
     reply \<leftarrow> handle_squid_fs_packet api state (read_request path offset maximum) server_packet_max;
     case fs_read_chunk reply of
       None \<Rightarrow> State_Monad.return None
     | Some chunk \<Rightarrow>
         if fs_chunk_offset chunk \<noteq> offset then State_Monad.return None
         else let n = length (fs_chunk_data chunk) in
           if unat offset + n \<ge> unat (fs_chunk_total_size chunk)
           then State_Monad.return (Some (fs_chunk_data chunk))
           else do {
             rest \<leftarrow> fs_read_walk api state path maximum fuel (offset + of_nat n);
             State_Monad.return (map_option ((@) (fs_chunk_data chunk)) rest) } }"

lemma fs_read_chunk_reply:
  assumes "n \<le> length data - unat offset" and "n \<le> 244"
  shows "fs_read_chunk (Some (chunk_reply offset data n)) =
    Some \<lparr>fs_chunk_offset = offset, fs_chunk_total_size = of_nat (length data),
      fs_chunk_data = take n (drop (unat offset) data)\<rparr>"
  using assms by (simp add: fs_read_chunk_def chunk_reply_def nth_append unat_of_nat drop_Cons')


lemma run_fs_read_walk:
  assumes size: "length data \<le> 0xFFFFFFFF"
    and served: "serves_file api path data" "path_is_valid path False = Some path"
      "squid_fs_plugin_state.started state" "0 \<le> root_fd (fs_context state)"
  shows "unat offset \<le> length data \<Longrightarrow> length data - unat offset < fuel \<Longrightarrow>
    fst (run_state (fs_read_walk api state path maximum fuel offset) s) = Some (drop (unat offset) data)"
proof (induction fuel arbitrary: offset s)
  case (Suc fuel)
  obtain n s1 where n: "n \<le> length data - unat offset" "n \<le> 244" "unat offset < length data \<longrightarrow> 0 < n"
    and reply: "run_state (handle_squid_fs_packet api state (read_request path offset maximum) 255) s =
      (Some (chunk_reply offset data n), s1)"
    using run_handle_read [OF served(1) size Suc.prems(1) served(2-4), of maximum s] by (metis prod.collapse)
  note chunk = fs_read_chunk_reply [OF n(1,2)]
  have total: "unat (of_nat (length data) :: u32) = length data"
    using size by (simp add: unat_of_nat)
  have len: "length (take n (drop (unat offset) data)) = n"
    using n(1) by simp
  show ?case
  proof (cases "length data \<le> unat offset + n")
    case True
    then show ?thesis
      using n(1) len by (simp add: reply chunk total)
  next
    case False
    have next_offset: "unat (offset + of_nat n) = unat offset + n"
      using False size by (simp add: unat_word_ariths unat_of_nat)
    obtain rest s2 where rest: "run_state (fs_read_walk api state path maximum fuel (offset + of_nat n)) s1 = (rest, s2)"
      by (cases "run_state (fs_read_walk api state path maximum fuel (offset + of_nat n)) s1")
    then have "rest = Some (drop (unat offset + n) data)"
      using Suc.IH [of "offset + of_nat n" s1] False n Suc.prems next_offset by simp
    with rest show ?thesis
      using False append_take_drop_id [of n "drop (unat offset) data"] len
      by (simp add: reply chunk total add.commute del: append_take_drop_id)
  qed
qed simp

text \<open>
  C20. A client that reads a file chunk by chunk, with any limit on the size of a chunk, gets exactly
  the bytes of the file, from any offset on: over a regular file of less than 4 GiB that does not
  change, the loop ends even when every read of the kernel is short, and every chunk states the
  offset that was asked for and the size of the file.
\<close>

theorem fs_read_walk_complete:
  assumes "serves_file api path data" and "length data \<le> 0xFFFFFFFF"
    and "path_is_valid path False = Some path"
    and "squid_fs_plugin_state.started state" and "0 \<le> root_fd (fs_context state)"
    and "unat offset \<le> length data"
  shows "fst (run_state (fs_read_walk api state path maximum (length data + 1) offset) s) =
    Some (drop (unat offset) data)"
  using assms by (intro run_fs_read_walk) simp_all

text \<open>A kernel that delivers two bytes at a time.\<close>

definition slow_fs_api :: fs_api where
  "slow_fs_api = demo_fs_api\<lparr>sys_pread :=
     \<lambda>_ _ n offset. Inr (take (min 2 n) (drop (unat offset) (ascii ''hello'')))\<rparr>"

theorem fs_read_walk_complete_witness:
  "fst (run_state (fs_read_walk slow_fs_api demo_fs_state (ascii ''dir'') 3 (length (ascii ''hello'') + 1) 1)
      \<lparr>trace = [], c_errno = E_OK\<rparr>) = Some (ascii ''ello'')"
proof -
  have served: "serves_file slow_fs_api (ascii ''dir'') (ascii ''hello'')"
    unfolding serves_file_def
  proof (intro conjI allI)
    show "opens_path slow_fs_api (ascii ''dir'')"
      by (simp add: opens_path_def slow_fs_api_def demo_fs_api_def)
    show "\<exists>information. sys_fstat slow_fs_api h fd = Inr information \<and>
        S_ISREG (st_mode information) \<and> st_size information = int (length (ascii ''hello''))" for h fd
      by (simp add: slow_fs_api_def demo_fs_api_def S_ISREG_def S_IFMT_def ascii_def)
    show "\<exists>k. sys_pread slow_fs_api h fd n offset = Inr (take k (drop (unat offset) (ascii ''hello''))) \<and>
        k \<le> n \<and> (0 < n \<longrightarrow> 0 < k)" for h fd n offset
      by (rule exI [of _ "min 2 n"]) (simp add: slow_fs_api_def)
  qed
  have path: "path_is_valid (ascii ''dir'') False = Some (ascii ''dir'')"
    by code_simp
  have "fst (run_state (fs_read_walk slow_fs_api demo_fs_state (ascii ''dir'') 3 (length (ascii ''hello'') + 1) 1)
      \<lparr>trace = [], c_errno = E_OK\<rparr>) = Some (drop (unat (1 :: u32)) (ascii ''hello''))"
    by (rule fs_read_walk_complete [OF served _ path]) (simp_all add: ascii_def demo_fs_state_def)
  also have "drop (unat (1 :: u32)) (ascii ''hello'') = ascii ''ello''"
    by (simp add: ascii_def)
  finally show ?thesis .
qed

end
