(* ===== verification/Tcp_Safety.thy ===== *)
theory Tcp_Safety
  imports Tcp_Proxy
begin

text \<open>
  Properties of the TCP proxy: at most one connection is held and every other socket is closed,
  no host is contacted that the allow-list does not permit, every wait is bounded, and the
  responses have the protocol's shape.
\<close>

subsection \<open>Observations\<close>

fun opens_socket :: "tcp_event \<Rightarrow> int multiset" where
  "opens_socket (Socket _ (Inr fd)) = {#int fd#}"
| "opens_socket _ = {#}"

fun closes_socket :: "tcp_event \<Rightarrow> int multiset" where
  "closes_socket (Net_Close fd _) = {#fd#}"
| "closes_socket _ = {#}"

definition tcp_opened :: "tcp_event list \<Rightarrow> int multiset" where
  "tcp_opened es = sum_list (map opens_socket es)"

definition tcp_closed :: "tcp_event list \<Rightarrow> int multiset" where
  "tcp_closed es = sum_list (map closes_socket es)"

definition tcp_held :: "squid_tcp_context \<Rightarrow> int multiset" where
  "tcp_held context = (if socket_fd context \<ge> 0 then {#socket_fd context#} else {#})"

fun contacts :: "tcp_event \<Rightarrow> bool" where
  "contacts (Getaddrinfo _ _ _) \<longleftrightarrow> True"
| "contacts (Socket _ _) \<longleftrightarrow> True"
| "contacts (Connect _ _ _) \<longleftrightarrow> True"
| "contacts _ \<longleftrightarrow> False"

fun wait_bound :: "nat \<Rightarrow> tcp_event \<Rightarrow> bool" where
  "wait_bound limit (Poll _ _ timeout_ms _) \<longleftrightarrow> timeout_ms \<le> limit"
| "wait_bound limit (Poll_Interrupted _ _ timeout_ms) \<longleftrightarrow> timeout_ms \<le> limit"
| "wait_bound limit _ \<longleftrightarrow> True"

definition waits_bounded :: "nat \<Rightarrow> tcp_event list \<Rightarrow> bool" where
  "waits_bounded limit es \<longleftrightarrow> list_all (wait_bound limit) es"

definition uncontacted :: "tcp_event list \<Rightarrow> bool" where
  "uncontacted es \<longleftrightarrow> list_all (\<lambda>e. \<not> contacts e) es"

lemma tcp_observe_simps [simp]:
  "tcp_opened [] = {#}" "tcp_opened (e # es) = opens_socket e + tcp_opened es"
  "tcp_opened (es @ es') = tcp_opened es + tcp_opened es'"
  "tcp_closed [] = {#}" "tcp_closed (e # es) = closes_socket e + tcp_closed es"
  "tcp_closed (es @ es') = tcp_closed es + tcp_closed es'"
  "waits_bounded limit []" "waits_bounded limit (e # es) \<longleftrightarrow> wait_bound limit e \<and> waits_bounded limit es"
  "waits_bounded limit (es @ es') \<longleftrightarrow> waits_bounded limit es \<and> waits_bounded limit es'"
  "uncontacted []" "uncontacted (e # es) \<longleftrightarrow> \<not> contacts e \<and> uncontacted es"
  "uncontacted (es @ es') \<longleftrightarrow> uncontacted es \<and> uncontacted es'"
  by (simp_all add: tcp_opened_def tcp_closed_def waits_bounded_def uncontacted_def)

text \<open>
  The addresses that a lookup of \<open>host\<close> and \<open>service\<close> has given so far, and the connected socket, are
  all that a request may use: no other name is looked up, a socket is created for and connected to
  one of those addresses only, and data goes over the socket only.
\<close>

fun resolved :: "addrinfo set \<Rightarrow> tcp_event \<Rightarrow> addrinfo set" where
  "resolved A (Getaddrinfo _ _ (Some addresses)) = A \<union> set addresses"
| "resolved A _ = A"

fun may_reach :: "bytes \<Rightarrow> bytes \<Rightarrow> int \<Rightarrow> addrinfo set \<Rightarrow> tcp_event \<Rightarrow> bool" where
  "may_reach host service fd A (Getaddrinfo host' service' _) \<longleftrightarrow> host' = host \<and> service' = service"
| "may_reach host service fd A (Socket address _) \<longleftrightarrow> address \<in> A"
| "may_reach host service fd A (Connect _ address _) \<longleftrightarrow> address \<in> A"
| "may_reach host service fd A (Net_Send fd' _ _) \<longleftrightarrow> fd' = fd"
| "may_reach host service fd A (Net_Recv fd' _ _) \<longleftrightarrow> fd' = fd"
| "may_reach host service fd A _ \<longleftrightarrow> True"

fun reaches_only :: "bytes \<Rightarrow> bytes \<Rightarrow> int \<Rightarrow> addrinfo set \<Rightarrow> tcp_event list \<Rightarrow> bool" where
  "reaches_only host service fd A [] \<longleftrightarrow> True"
| "reaches_only host service fd A (e # es) \<longleftrightarrow>
     may_reach host service fd A e \<and> reaches_only host service fd (resolved A e) es"

lemma reaches_only_append [simp]:
  "reaches_only host service fd A (es @ es') \<longleftrightarrow>
     reaches_only host service fd A es \<and> reaches_only host service fd (foldl resolved A es) es'"
  by (induction es arbitrary: A) simp_all

lemma resolved_mono: "A \<subseteq> foldl resolved A es"
proof (induction es arbitrary: A)
  case (Cons e es)
  have "A \<subseteq> resolved A e" by (cases "(A, e)" rule: resolved.cases) auto
  with Cons show ?case by fastforce
qed simp

lemma reaches_only_mono:
  "reaches_only host service fd A es \<Longrightarrow> A \<subseteq> B \<Longrightarrow> reaches_only host service fd B es"
proof (induction es arbitrary: A B)
  case (Cons e es)
  have "may_reach host service fd B e"
    using Cons.prems by (cases e) auto
  moreover have "resolved A e \<subseteq> resolved B e"
    using Cons.prems(2) by (cases "(A, e)" rule: resolved.cases) auto
  ultimately show ?case
    using Cons by auto
qed simp

subsection \<open>Waiting\<close>

definition just_waits :: "nat \<Rightarrow> tcp_event list \<Rightarrow> bool" where
  "just_waits limit es \<longleftrightarrow> tcp_opened es = {#} \<and> tcp_closed es = {#} \<and> waits_bounded limit es \<and>
     uncontacted es \<and> (\<forall>host service fd A. reaches_only host service fd A es)"

lemma poll_retry_waits:
  "timeout_ms \<le> limit \<Longrightarrow>
     ensures (poll_retry api fd direction timeout_ms n) (\<lambda>_ es. just_waits limit es)"
proof (induction n)
  case 0
  then show ?case by (auto intro!: io_rules simp: just_waits_def)
next
  case (Suc n)
  show ?case
    unfolding poll_retry.simps
    by (intro io_rules ensures_mono [OF Suc.IH [OF Suc.prems]]) (use Suc.prems in \<open>simp add: just_waits_def\<close>)
qed

lemma wait_for_socket_waits:
  assumes "timeout_ms \<le> limit"
  shows "ensures (wait_for_socket api fd direction timeout_ms) (\<lambda>_ es. just_waits limit es)"
  unfolding wait_for_socket_def
proof (intro io_rules, rule ensures_bind [OF poll_retry_waits [OF assms]])
  fix r es assume "just_waits limit es"
  then show "ensures (case r of Poll_Failed e \<Rightarrow> do { _ \<leftarrow> set_errno e; State_Monad.return (-1) }
     | Poll_Timeout \<Rightarrow> State_Monad.return 0
     | Poll_Ready error \<Rightarrow>
         (if error then do { _ \<leftarrow> set_errno EIO; State_Monad.return (-1) }
          else State_Monad.return (1 :: int))) (\<lambda>_ es'. just_waits limit (es @ es'))"
    by (cases r) (auto intro!: io_rules)
qed

subsection \<open>Connecting\<close>

definition connecting ::
  "nat \<Rightarrow> addrinfo set \<Rightarrow> int multiset \<Rightarrow> nat option \<Rightarrow> tcp_event list \<Rightarrow> bool" where
  "connecting limit A held r es \<longleftrightarrow> waits_bounded limit es \<and>
     (\<forall>host service fd. reaches_only host service fd A es) \<and>
     tcp_opened es + held = tcp_closed es + (case r of None \<Rightarrow> {#} | Some fd \<Rightarrow> {#int fd#})"

lemma finish_connect_contract:
  assumes "timeout_ms \<le> limit"
  shows "ensures (finish_connect api fd timeout_ms) (connecting limit A {#int fd#})"
  unfolding finish_connect_def abandon_socket_def tcp_close_def
  by (intro io_rules ensures_bind [OF wait_for_socket_waits [OF assms]])
     (auto simp: connecting_def just_waits_def)

lemma connect_address_contract:
  assumes "timeout_ms \<le> limit"
  shows "ensures (connect_address api address timeout_ms) (connecting limit {address} {#})"
proof -
  have rest: "ensures (finish_connect api fd timeout_ms) (\<lambda>r es.
      connecting limit {address} {#} r (Socket address s # Fcntl_Get (int fd) a # Fcntl_Set (int fd) b #
        Connect (int fd) address c # es))" if "answer s = Some fd" for fd a b c s
    by (rule ensures_mono [OF finish_connect_contract [OF assms]])
       (use that in \<open>auto simp: connecting_def\<close>)
  show ?thesis
    unfolding connect_address_def set_nonblocking_def abandon_socket_def tcp_close_def
    by (intro io_rules rest) (auto simp: connecting_def)
qed

lemma connecting_append:
  assumes "connecting limit A held None es" and "connecting limit B {#} r es'" and "B \<subseteq> A"
  shows "connecting limit A held r (es @ es')"
proof -
  have "B \<subseteq> foldl resolved A es"
    using assms(3) resolved_mono [of A es] by blast
  then have "reaches_only host service fd (foldl resolved A es) es'" for host service fd
    using assms(2) unfolding connecting_def by (blast intro: reaches_only_mono)
  with assms show ?thesis
    by (auto simp: connecting_def)
qed

lemma connecting_mono: "connecting limit A held r es \<Longrightarrow> A \<subseteq> B \<Longrightarrow> connecting limit B held r es"
  unfolding connecting_def by (blast intro: reaches_only_mono)

lemma connect_any_contract:
  assumes "timeout_ms \<le> limit"
  shows "ensures (connect_any api timeout_ms addresses)
    (\<lambda>r es. connecting limit (set addresses) {#} (map_option fst r) es)"
proof (induction addresses)
  case Nil
  then show ?case by (auto intro!: io_rules simp: connecting_def)
next
  case (Cons address addresses)
  have rest: "ensures (connect_any api timeout_ms addresses)
      (\<lambda>r es'. connecting limit (set (address # addresses)) {#} (map_option fst r) (es @ es'))"
    if "connecting limit {address} {#} None es" for es
    by (rule ensures_mono [OF Cons.IH], rule connecting_append [OF connecting_mono [OF that]]) auto
  show ?case
    unfolding connect_any.simps
    by (intro io_rules ensures_bind [OF connect_address_contract [OF assms]] rest)
       (auto intro: connecting_mono)
qed

subsection \<open>The contract of a request\<close>

text \<open>No wait of a request is longer than the configured timeouts, or ten seconds for READ.\<close>

definition wait_limit :: "squid_tcp_context \<Rightarrow> nat" where
  "wait_limit context = max (connect_timeout_ms context)
     (max (write_timeout_ms context) (unat SQUID_TCP_READ_WAIT_MAX_MS))"

lemma wait_limit_init:
  "wait_limit (init_squid_tcp_context hosts connect_ms write_ms) \<le> squid_tcp_timeout_max_ms"
  by (simp add: wait_limit_def init_squid_tcp_context_def Let_def)

text \<open>The host and the service a CONNECT request names.\<close>

definition request_host :: "bytes \<Rightarrow> bytes" where
  "request_host request = drop 4 request"

definition request_service :: "bytes \<Rightarrow> bytes" where
  "request_service request = show_nat (unat (read_u16 (drop 1 request)))"

definition tcp_response_ok :: "u8 \<Rightarrow> nat \<Rightarrow> bytes option \<Rightarrow> bool" where
  "tcp_response_ok opcode capacity r \<longleftrightarrow>
     (\<forall>reply. r = Some reply \<longrightarrow> 2 \<le> length reply \<and> length reply \<le> capacity \<and>
        hd reply = opcode OR SQUID_TCP_RESPONSE_BIT)"

definition same_settings :: "squid_tcp_context \<Rightarrow> squid_tcp_context \<Rightarrow> bool" where
  "same_settings context context' \<longleftrightarrow> connect_timeout_ms context' = connect_timeout_ms context \<and>
     write_timeout_ms context' = write_timeout_ms context \<and>
     allowed_hosts context' = allowed_hosts context"

definition tcp_settled ::
  "squid_tcp_context \<Rightarrow> bytes \<Rightarrow> u8 \<Rightarrow> nat \<Rightarrow> tcp_result \<Rightarrow> tcp_event list \<Rightarrow> bool" where
  "tcp_settled context request opcode capacity r es \<longleftrightarrow>
     tcp_opened es + tcp_held context = tcp_closed es + tcp_held (snd r) \<and>
     waits_bounded (wait_limit context) es \<and>
     tcp_response_ok opcode capacity (fst r) \<and>
     same_settings context (snd r) \<and>
     reaches_only (request_host request) (request_service request) (socket_fd context) {} es \<and>
     (uncontacted es \<or> opcode = SQUID_TCP_OP_CONNECT \<and> host_is_valid (request_host request) \<and>
        host_is_allowed context (request_host request))"

lemmas tcp_settled_defs = tcp_settled_def same_settings_def tcp_held_def tcp_response_ok_def tcp_write_status_def
  just_waits_def

lemma tcp_handle_connect_settled:
  assumes "opcode = SQUID_TCP_OP_CONNECT"
  shows "ensures (tcp_handle_connect api context opcode request capacity)
    (tcp_settled context request opcode capacity)"
proof -
  have limit: "connect_timeout_ms context \<le> wait_limit context"
    by (simp add: wait_limit_def)
  show ?thesis
    unfolding tcp_handle_connect_def Let_def tcp_close_def close_connection_def
    by (intro io_rules ensures_bind [OF connect_any_contract [OF limit]])
       (use assms in \<open>auto simp: tcp_settled_defs connecting_def request_host_def request_service_def\<close>)
qed

text \<open>A stretch that waits and moves data over the connection.\<close>

definition on_connection :: "squid_tcp_context \<Rightarrow> tcp_event list \<Rightarrow> bool" where
  "on_connection context es \<longleftrightarrow> tcp_opened es = {#} \<and> tcp_closed es = {#} \<and>
     waits_bounded (wait_limit context) es \<and> uncontacted es \<and>
     (\<forall>host service A. reaches_only host service (socket_fd context) A es)"

lemma just_waits_on_connection: "just_waits (wait_limit context) es \<Longrightarrow> on_connection context es"
  by (simp add: just_waits_def on_connection_def)

lemma drop_connection_settled:
  assumes "on_connection context es"
  shows "ensures (drop_connection api context opcode capacity)
    (\<lambda>r es'. tcp_settled context request opcode capacity r (es @ es'))"
  unfolding drop_connection_def close_connection_def tcp_close_def
  by (intro io_rules) (use assms in \<open>auto simp: tcp_settled_defs on_connection_def\<close>)

lemma tcp_handle_write_settled:
  "ensures (tcp_handle_write api context opcode request capacity)
    (tcp_settled context request opcode capacity)"
proof -
  have limit: "write_timeout_ms context \<le> wait_limit context"
    by (simp add: wait_limit_def)
  have lost: "ensures (drop_connection api context opcode capacity)
      (\<lambda>r es'. tcp_settled context request opcode capacity r (es @ Net_Send (socket_fd context) d x # es'))"
    if "just_waits (wait_limit context) es" for es d x
    using drop_connection_settled [of "context" "es @ [Net_Send (socket_fd context) d x]"] that
    by (simp add: just_waits_def on_connection_def)
  show ?thesis
    unfolding tcp_handle_write_def Let_def tcp_send_def
    by (intro io_rules ensures_bind [OF wait_for_socket_waits [OF limit]] lost drop_connection_settled [OF just_waits_on_connection])
       (auto simp: tcp_settled_defs)
qed

lemma ensures_tcp_recv_bind:
  "(\<And>r. (\<And>x. r = Inr x \<Longrightarrow> length x \<le> n) \<Longrightarrow>
      ensures (f (answer r)) (\<lambda>b es. Q b (Net_Recv fd n r # es))) \<Longrightarrow>
   ensures (State_Monad.bind (tcp_recv api fd n) f) Q"
  unfolding tcp_recv_def
  by (rule ensures_syscall_sat_bind [where P = "\<lambda>r. \<forall>x. r = Inr x \<longrightarrow> length x \<le> n"])
     (auto simp: map_sum_eq_Inr)

lemma read_room_le: "read_room m capacity \<le> capacity - 4"
  by (simp add: read_room_def Let_def)

lemma tcp_handle_read_settled:
  "ensures (tcp_handle_read api context opcode request capacity)
    (tcp_settled context request opcode capacity)"
proof -
  have lost: "ensures (drop_connection api context opcode capacity)
      (\<lambda>r es'. tcp_settled context request opcode capacity r (es @ Net_Recv (socket_fd context) n x # es'))"
    if "just_waits (wait_limit context) es" for es n x
    using drop_connection_settled [of "context" "es @ [Net_Recv (socket_fd context) n x]"] that
    by (simp add: just_waits_def on_connection_def)
  have limit: "unat w \<le> wait_limit context" if "\<not> w > SQUID_TCP_READ_WAIT_MAX_MS" for w
    using that by (simp add: wait_limit_def word_less_nat_alt)
  show ?thesis
    unfolding tcp_handle_read_def Let_def close_connection_def tcp_close_def
    by (intro io_rules ensures_bind [OF wait_for_socket_waits [OF limit]] ensures_tcp_recv_bind
          lost drop_connection_settled [OF just_waits_on_connection])
       (auto simp: tcp_settled_defs tcp_read_reply_def dest: le_trans [OF _ read_room_le])
qed

lemma handle_squid_tcp_request_settled:
  "ensures (handle_squid_tcp_request api context request capacity)
    (\<lambda>r es. tcp_settled context request (request ! 0) capacity r es \<and>
       (fst r \<noteq> None \<longrightarrow> request \<noteq> []))"
  unfolding handle_squid_tcp_request_def Let_def close_connection_def tcp_close_def
  by (intro io_rules ensures_mono [OF tcp_handle_connect_settled]
        ensures_mono [OF tcp_handle_write_settled] ensures_mono [OF tcp_handle_read_settled])
     (auto simp: tcp_settled_defs tcp_handle_capabilities_def tcp_handle_status_def)

lemma handle_squid_tcp_packet_settled:
  "ensures (handle_squid_tcp_packet api state request capacity)
    (\<lambda>r es. tcp_settled (tcp_context state) request (request ! 0) capacity
       (fst r, tcp_context (snd r)) es \<and> tcp_started (snd r) = tcp_started state \<and>
       (fst r \<noteq> None \<longrightarrow> request \<noteq> []))"
  unfolding handle_squid_tcp_packet_def
  by (intro io_rules ensures_bind [OF handle_squid_tcp_request_settled])
     (auto simp: tcp_settled_defs)

interpretation tcp: packet_service "\<lambda>request capacity r.
  \<exists>api state s. fst (fst (run_state (handle_squid_tcp_packet api state request capacity) s)) = r"
proof unfold_locales
  fix request capacity reply
  assume "\<exists>api state s.
    fst (fst (run_state (handle_squid_tcp_packet api state request capacity) s)) = Some reply"
  then obtain api state s state' s' where
    run: "run_state (handle_squid_tcp_packet api state request capacity) s = ((Some reply, state'), s')"
    by (metis prod.collapse)
  obtain es where "tcp_settled (tcp_context state) request (request ! 0) capacity
      (Some reply, tcp_context state') es" and "request \<noteq> []"
    by (rule ensuresE [OF handle_squid_tcp_packet_settled run]) (simp, blast)
  then show "request \<noteq> [] \<and> 2 \<le> length reply \<and> length reply \<le> capacity \<and>
      hd reply = hd request OR response_bit"
    by (simp add: tcp_settled_def tcp_response_ok_def response_bit_def hd_conv_nth)
qed

subsection \<open>The life of the plugin\<close>

fun tcp_serve ::
  "tcp_api \<Rightarrow> squid_tcp_plugin_state \<Rightarrow> (bytes \<times> nat) list \<Rightarrow> (tcp_event, squid_tcp_plugin_state) io" where
  "tcp_serve api state [] = State_Monad.return state"
| "tcp_serve api state ((request, capacity) # packets) = do {
     (_, state) \<leftarrow> handle_squid_tcp_packet api state request capacity;
     tcp_serve api state packets }"

definition tcp_life ::
  "tcp_api \<Rightarrow> tcp_environment \<Rightarrow> squid_tcp_plugin_state \<Rightarrow> (bytes \<times> nat) list \<Rightarrow>
     (tcp_event, squid_tcp_plugin_state) io" where
  "tcp_life api environment state packets = do {
     state \<leftarrow> tcp_serve api (start_squid_tcp_plugin environment state) packets;
     stop_squid_tcp_plugin api state }"

definition tcp_serving :: "squid_tcp_plugin_state \<Rightarrow> squid_tcp_plugin_state \<Rightarrow> tcp_event list \<Rightarrow> bool" where
  "tcp_serving state state' es \<longleftrightarrow>
     tcp_opened es + tcp_held (tcp_context state) = tcp_closed es + tcp_held (tcp_context state') \<and>
     waits_bounded (wait_limit (tcp_context state)) es \<and>
     wait_limit (tcp_context state') = wait_limit (tcp_context state) \<and>
     tcp_started state' = tcp_started state"

lemma tcp_packet_serving:
  "ensures (handle_squid_tcp_packet api state request capacity) (\<lambda>r es. tcp_serving state (snd r) es)"
  by (rule ensures_mono [OF handle_squid_tcp_packet_settled])
     (auto simp: tcp_settled_def tcp_serving_def same_settings_def wait_limit_def)

lemma tcp_serve_serving: "ensures (tcp_serve api state packets) (tcp_serving state)"
proof (induction packets arbitrary: state)
  case Nil
  then show ?case by (auto intro!: io_rules simp: tcp_serving_def)
next
  case (Cons packet packets)
  obtain request capacity where packet: "packet = (request, capacity)" by (cases packet)
  have rest: "ensures (tcp_serve api state1 packets) (\<lambda>state2 es'. tcp_serving state state2 (es @ es'))"
    if "tcp_serving state state1 es" for state1 es
    by (rule ensures_mono [OF Cons.IH]) (use that in \<open>auto simp: tcp_serving_def intro: ledger_trans\<close>)
  show ?case
    unfolding packet tcp_serve.simps
    by (rule ensures_bind [OF tcp_packet_serving], intro ensures_prod rest) auto
qed

subsection \<open>Data\<close>

fun taken_by :: "tcp_event \<Rightarrow> bytes" where
  "taken_by (Net_Send _ d (Inr n)) = take n d"
| "taken_by _ = []"

fun delivered_by :: "tcp_event \<Rightarrow> bytes" where
  "delivered_by (Net_Recv _ _ (Inr d)) = d"
| "delivered_by _ = []"

definition outbound :: "tcp_event list \<Rightarrow> bytes" where
  "outbound es = concat (map taken_by es)"

definition inbound :: "tcp_event list \<Rightarrow> bytes" where
  "inbound es = concat (map delivered_by es)"

lemma stream_simps [simp]:
  "outbound [] = []" "outbound (e # es) = taken_by e @ outbound es"
  "outbound (es @ es') = outbound es @ outbound es'"
  "inbound [] = []" "inbound (e # es) = delivered_by e @ inbound es"
  "inbound (es @ es') = inbound es @ inbound es'"
  by (simp_all add: outbound_def inbound_def)

text \<open>What a response tells the client about the connection's byte streams.\<close>

definition reported_outbound :: "bytes \<Rightarrow> bytes option \<Rightarrow> bytes" where
  "reported_outbound request r =
     (case r of None \<Rightarrow> []
      | Some reply \<Rightarrow> if request ! 0 = SQUID_TCP_OP_WRITE \<and> length reply = 3
          then take (unat (reply ! 2)) (drop 2 request) else [])"

definition reported_inbound :: "bytes \<Rightarrow> bytes option \<Rightarrow> bytes" where
  "reported_inbound request r =
     (case r of None \<Rightarrow> []
      | Some reply \<Rightarrow> if request ! 0 = SQUID_TCP_OP_READ then drop 4 reply else [])"

definition no_data :: "tcp_event list \<Rightarrow> bool" where
  "no_data es \<longleftrightarrow> outbound es = [] \<and> inbound es = []"

lemma poll_retry_no_data: "ensures (poll_retry api fd direction t n) (\<lambda>_ es. no_data es)"
proof (induction n)
  case 0
  then show ?case by (auto intro!: io_rules simp: no_data_def)
next
  case (Suc n)
  show ?case
    unfolding poll_retry.simps
    by (intro io_rules ensures_mono [OF Suc.IH]) (simp add: no_data_def)
qed

lemma wait_for_socket_no_data: "ensures (wait_for_socket api fd direction t) (\<lambda>_ es. no_data es)"
  unfolding wait_for_socket_def
proof (intro io_rules, rule ensures_bind [OF poll_retry_no_data])
  fix r es assume "no_data es"
  then show "ensures (case r of Poll_Failed e \<Rightarrow> do { _ \<leftarrow> set_errno e; State_Monad.return (-1) }
     | Poll_Timeout \<Rightarrow> State_Monad.return 0
     | Poll_Ready error \<Rightarrow>
         (if error then do { _ \<leftarrow> set_errno EIO; State_Monad.return (-1) }
          else State_Monad.return (1 :: int))) (\<lambda>_ es'. no_data (es @ es'))"
    by (cases r) (auto intro!: io_rules)
qed

lemma connect_no_data: "ensures (connect_any api t addresses) (\<lambda>_ es. no_data es)"
proof (induction addresses)
  case Nil
  then show ?case by (auto intro!: io_rules simp: no_data_def)
next
  case (Cons address addresses)
  have fin: "ensures (finish_connect api fd t) (\<lambda>_ es. no_data (es0 @ es))" if "no_data es0" for fd es0
    unfolding finish_connect_def abandon_socket_def tcp_close_def
    by (intro io_rules ensures_bind [OF wait_for_socket_no_data]) (use that in \<open>auto simp: no_data_def\<close>)
  have one: "ensures (connect_address api address t) (\<lambda>_ es. no_data es)"
    unfolding connect_address_def set_nonblocking_def abandon_socket_def tcp_close_def
    by (intro io_rules ensures_mono [OF fin [of "[]"]]) (auto simp: no_data_def)
  show ?case
    unfolding connect_any.simps
    by (intro io_rules ensures_bind [OF one] ensures_mono [OF Cons.IH]) (auto simp: no_data_def)
qed

definition data_ok :: "bytes \<Rightarrow> bytes option \<Rightarrow> tcp_event list \<Rightarrow> bool" where
  "data_ok request r es \<longleftrightarrow> outbound es = reported_outbound request r \<and>
     inbound es = reported_inbound request r"

lemmas data_ok_defs = data_ok_def reported_outbound_def reported_inbound_def no_data_def
  tcp_write_status_def

lemma ensures_tcp_send_bind:
  "(\<And>r. (\<And>n. r = Inr n \<Longrightarrow> n \<le> length d) \<Longrightarrow>
      ensures (f (answer r)) (\<lambda>b es. Q b (Net_Send fd d r # es))) \<Longrightarrow>
   ensures (State_Monad.bind (tcp_send api fd d) f) Q"
  unfolding tcp_send_def
  by (rule ensures_syscall_sat_bind [where P = "\<lambda>r. \<forall>n. r = Inr n \<longrightarrow> n \<le> length d"])
     (auto simp: map_sum_eq_Inr)

lemma tcp_handle_write_data:
  assumes "3 \<le> capacity" and "request \<noteq> []" "request ! 0 = SQUID_TCP_OP_WRITE"
  shows "ensures (tcp_handle_write api context opcode request capacity)
    (\<lambda>r es. data_ok request (fst r) es)"
proof -
  have small: "length request - 2 \<le> 255" if "unat (request ! 1) = length request - 2"
    using that unat_u8_le [of "request ! 1"] by simp
  show ?thesis
    unfolding tcp_handle_write_def Let_def drop_connection_def close_connection_def tcp_close_def
    by (intro io_rules ensures_bind [OF wait_for_socket_no_data] ensures_tcp_send_bind)
       (use assms small in \<open>auto simp: data_ok_defs unat_of_nat nth_Cons'\<close>)
qed

lemma tcp_handle_read_data:
  assumes "request \<noteq> []" "request ! 0 = SQUID_TCP_OP_READ"
  shows "ensures (tcp_handle_read api context opcode request capacity)
    (\<lambda>r es. data_ok request (fst r) es)"
  unfolding tcp_handle_read_def Let_def drop_connection_def close_connection_def tcp_close_def
  by (intro io_rules ensures_bind [OF wait_for_socket_no_data] ensures_tcp_recv_bind)
     (use assms in \<open>auto simp: data_ok_defs tcp_read_reply_def\<close>)

lemma tcp_handle_connect_data:
  assumes "request \<noteq> []" "request ! 0 = SQUID_TCP_OP_CONNECT"
  shows "ensures (tcp_handle_connect api context opcode request capacity)
    (\<lambda>r es. data_ok request (fst r) es)"
  unfolding tcp_handle_connect_def Let_def close_connection_def tcp_close_def
  by (intro io_rules ensures_bind [OF connect_no_data])
     (use assms in \<open>auto simp: data_ok_defs\<close>)

subsection \<open>Properties\<close>

text \<open>
  C14. The life of the plugin. From its start, through any sequence of request packets, whatever
  the network does, to its stop: every socket that was opened has been closed, exactly once, no
  single wait was longer than a minute, and the plugin ends without a connection.
\<close>

theorem tcp_life_closes_sockets:
  "ensures (tcp_life api environment \<lparr>tcp_context = context, tcp_started = False\<rparr> packets)
     (\<lambda>state es. tcp_opened es = tcp_closed es \<and> waits_bounded squid_tcp_timeout_max_ms es \<and>
        socket_fd (tcp_context state) = -1)"
proof -
  define start where "start = start_squid_tcp_plugin environment
    \<lparr>tcp_context = context, tcp_started = False\<rparr>"
  have start: "tcp_started start" "tcp_held (tcp_context start) = {#}"
    "wait_limit (tcp_context start) \<le> squid_tcp_timeout_max_ms"
    using wait_limit_init
    by (simp_all add: start_def start_squid_tcp_plugin_def tcp_held_def init_squid_tcp_context_def Let_def)
  have mono: "waits_bounded n es \<Longrightarrow> n \<le> m \<Longrightarrow> waits_bounded m es" for n m es
  proof (induction es)
    case (Cons e es)
    then show ?case by (cases e) auto
  qed simp
  show ?thesis
    unfolding tcp_life_def start_def [symmetric] stop_squid_tcp_plugin_def free_squid_tcp_context_def
      close_connection_def tcp_close_def
    by (rule ensures_bind [OF tcp_serve_serving], intro io_rules)
       (use start in \<open>auto simp: tcp_serving_def tcp_held_def intro: mono split: if_splits\<close>)
qed

text \<open>
  C27. The allow-list. A request makes the proxy look up a name, create a socket or connect only if
  it is a CONNECT and the host it names is well formed and permitted by the allow-list; and then the
  only name that is looked up is this host, with the request's port as the service, sockets are
  created for and connected to addresses of that lookup only, and whatever the request, data is
  sent and received over the socket of the current connection only.
\<close>

theorem tcp_contacts_only_allowed_hosts:
  "ensures (handle_squid_tcp_request api context request capacity)
     (\<lambda>_ es. reaches_only (request_host request) (request_service request) (socket_fd context) {} es \<and>
        (uncontacted es \<or> request ! 0 = SQUID_TCP_OP_CONNECT \<and> host_is_valid (request_host request) \<and>
           host_is_allowed context (request_host request)))"
  by (rule ensures_mono [OF handle_squid_tcp_request_settled]) (auto simp: tcp_settled_def)

text \<open>
  C33. Data. The bytes the network took from a WRITE are exactly those the response reports as
  written, and the data of a READ response are exactly the bytes the network delivered; no other
  request moves data.
\<close>

theorem tcp_data_reported:
  assumes "3 \<le> capacity" and "request \<noteq> []"
  shows "ensures (handle_squid_tcp_request api context request capacity)
    (\<lambda>r es. outbound es = reported_outbound request (fst r) \<and>
       inbound es = reported_inbound request (fst r))"
  unfolding handle_squid_tcp_request_def Let_def close_connection_def tcp_close_def
  by (intro io_rules ensures_mono [OF tcp_handle_connect_data] ensures_mono [OF tcp_handle_write_data]
        ensures_mono [OF tcp_handle_read_data])
     (use assms in \<open>auto simp: data_ok_defs tcp_handle_capabilities_def tcp_handle_status_def\<close>)

definition demo_tcp_api :: tcp_api where
  "demo_tcp_api = \<lparr>net_getaddrinfo = (\<lambda>_ _ _. Some [\<lparr>ai_inet6 = False, ai_addr = [127, 0, 0, 1]\<rparr>]),
     net_socket = (\<lambda>_ _. Inr 7), net_fcntl_get = (\<lambda>_ _. Inr 0), net_fcntl_set = (\<lambda>_ _. Inr ()),
     net_connect = (\<lambda>_ _ _. Inl EINPROGRESS), net_interrupts = (\<lambda>_. 1),
     net_poll = (\<lambda>_ _ _ _. Poll_Ready False), net_getsockopt = (\<lambda>_ _. Inr None),
     net_send = (\<lambda>_ _ d. Inr (length d)), net_recv = (\<lambda>_ _ _. Inr (ascii ''ok'')),
     net_close = (\<lambda>_ _. Inr ())\<rparr>"

theorem tcp_data_reported_witness:
  "ensures (handle_squid_tcp_request demo_tcp_api
      ((init_squid_tcp_context None 0 0)\<lparr>socket_fd := 7\<rparr>) ([2, 2] @ ascii ''hi'') 255)
    (\<lambda>r es. outbound es = reported_outbound ([2, 2] @ ascii ''hi'') (fst r) \<and>
       inbound es = reported_inbound ([2, 2] @ ascii ''hi'') (fst r))"
  by (rule tcp_data_reported) simp_all

text \<open>The entries of an allow-list: the pieces between commas, without surrounding blanks.\<close>

fun split_commas :: "bytes \<Rightarrow> bytes list" where
  "split_commas [] = [[]]"
| "split_commas (c # cs) =
     (if c = comma then [] # split_commas cs
      else case split_commas cs of [] \<Rightarrow> [[c]] | piece # pieces \<Rightarrow> (c # piece) # pieces)"

definition allow_entries :: "bytes \<Rightarrow> bytes list" where
  "allow_entries text = map (\<lambda>piece. trim_right (trim_left piece)) (split_commas text)"

lemma split_commas_eq:
  "split_commas text = takeWhile (\<lambda>c. c \<noteq> comma) text #
     (if comma \<in> set text then split_commas (drop 1 (dropWhile (\<lambda>c. c \<noteq> comma) text)) else [])"
  by (induction "text") auto

lemma allow_entries_eq:
  "allow_entries text = trim_right (trim_left (takeWhile (\<lambda>c. c \<noteq> comma) text)) #
     (if comma \<in> set text then allow_entries (drop 1 (dropWhile (\<lambda>c. c \<noteq> comma) text)) else [])"
  unfolding allow_entries_def by (subst split_commas_eq) simp

lemma text_equals_map:
  "text_equals_case_insensitive left right \<longleftrightarrow> map tolower left = map tolower right"
  by (induction left right rule: text_equals_case_insensitive.induct) auto

lemma not_isspace_comma: "\<not> isspace comma"
  by (simp add: isspace_def comma_def)

lemma skip_blanks:
  "takeWhile (\<lambda>c. c \<noteq> comma) (dropWhile isspace text) =
     trim_left (takeWhile (\<lambda>c. c \<noteq> comma) text)"
  "dropWhile (\<lambda>c. c \<noteq> comma) (dropWhile isspace text) = dropWhile (\<lambda>c. c \<noteq> comma) text"
  using not_isspace_comma by (induction "text") (auto simp: trim_left_def)

lemma host_in_list_iff:
  "host \<noteq> [] \<Longrightarrow> host_in_list cursor host \<longleftrightarrow>
     (\<exists>entry \<in> set (allow_entries cursor). map tolower entry = map tolower host)"
proof (induction cursor host rule: host_in_list.induct)
  case (1 cursor host)
  show ?case
  proof (cases "cursor = []")
    case True
    then show ?thesis
      using 1 by (auto simp: host_in_list.simps [of "[]"] allow_entries_def trim_left_def trim_right_def)
  next
    case False
    let ?piece = "takeWhile (\<lambda>c. c \<noteq> comma) cursor"
    let ?rest = "drop 1 (dropWhile (\<lambda>c. c \<noteq> comma) cursor)"
    have step: "host_in_list cursor host \<longleftrightarrow>
        map tolower (trim_right (trim_left ?piece)) = map tolower host \<or> host_in_list ?rest host"
      using False by (subst host_in_list.simps) (simp add: Let_def skip_blanks text_equals_map)
    have ih: "host_in_list ?rest host \<longleftrightarrow>
        (\<exists>entry \<in> set (allow_entries ?rest). map tolower entry = map tolower host)"
      if "map tolower (trim_right (trim_left ?piece)) \<noteq> map tolower host"
      using 1 False that by (simp add: Let_def skip_blanks text_equals_map)
    have none: "?rest = []" if "comma \<notin> set cursor"
    proof -
      have "dropWhile (\<lambda>c. c \<noteq> comma) cursor = []"
        using that by (auto simp: dropWhile_eq_Nil_conv)
      then show ?thesis by (simp only: drop_Nil)
    qed
    show ?thesis
    proof (cases "comma \<in> set cursor")
      case True
      then show ?thesis
        unfolding step by (subst allow_entries_eq) (use ih in auto)
    next
      case False
      then have "host_in_list ?rest host = False"
        using none by (simp add: host_in_list.simps [of "[]"] del: drop_eq_Nil)
      then show ?thesis
        unfolding step using False by (subst allow_entries_eq) simp
    qed
  qed
qed

text \<open>
  C32. The allow-list's meaning. A host is permitted exactly if the list is empty or is the single
  star, or if one of its comma-separated entries, without surrounding white space, equals the host
  up to the case of ASCII letters.
\<close>

theorem host_is_allowed_iff:
  assumes "host \<noteq> []"
  shows "host_is_allowed context host \<longleftrightarrow>
    allowed_hosts context = [] \<or> allowed_hosts context = ascii ''*'' \<or>
    map tolower host \<in> map tolower ` set (allow_entries (allowed_hosts context))"
  using host_in_list_iff [OF assms] by (simp add: host_is_allowed_def image_iff) metis

theorem host_is_allowed_iff_witness:
  "host_is_allowed \<lparr>socket_fd = -1, connect_timeout_ms = 1, write_timeout_ms = 1,
     allowed_hosts = [97, 44, 32, 66]\<rparr> [98]"
proof -
  let ?settings = "\<lparr>socket_fd = -1, connect_timeout_ms = 1, write_timeout_ms = 1,
     allowed_hosts = [97, 44, 32, 66]\<rparr>"
  have "[98] \<noteq> ([] :: bytes)" by simp
  note iff = host_is_allowed_iff [OF this, of ?settings]
  have "map tolower [98] \<in> map tolower ` set (allow_entries (allowed_hosts ?settings))"
    by code_simp
  then show ?thesis by (simp only: iff simp_thms)
qed

end
