(* ===== verification/Client_Programs.thy ===== *)
theory Client_Programs
  imports Client_Services Transport_Properties
begin

text \<open>
  Programs that use the client library: the set-up of a client on a ZX Spectrum with Interface 1
  (\<open>lib/client/z80/spectrum_if1.c\<close>) and the two command line samples, \<open>samples/echo/echo_sample.c\<close>
  and \<open>samples/sys/sys_sample.c\<close>, which reach the server over its Unix domain socket. The
  transport's calls are phases; the exchanges of a program share one stream of events, in which
  each goes on where the last has stopped. The bit-banged hooks of Interface 1 are assembly and not part of
  the model. Waiting for the handshake takes fuel, as does an exchange.
\<close>

datatype prog_event =
    Pg_Transport tr_event
  | Pg_Client cl_event
  | Pg_Reset
  | Pg_Snet_Init squid_timing
  | Pg_Open nat nat int
  | Pg_Connect int u8 int
  | Pg_Close int
  | Pg_Link bool
  | Pg_Burst
  | Pg_Print std_stream bytes

fun client_event :: "prog_event \<Rightarrow> cl_event list" where
  "client_event (Pg_Client e) = [e]"
| "client_event _ = []"

text \<open>\<open>SQUID_PAYLOAD_MAX\<close> and \<open>SQUID_PAYLOAD_DEFAULT\<close> are libsquid's.\<close>

record prog_api =
  pg_transport :: "prog_event list \<Rightarrow> tr_api"
  pg_client :: "prog_event list \<Rightarrow> cl_api"
  pg_open :: "prog_event list \<Rightarrow> nat \<Rightarrow> nat \<Rightarrow> int"
  pg_connect :: "prog_event list \<Rightarrow> int \<Rightarrow> u8 \<Rightarrow> int"
  pg_link_is_up :: "prog_event list \<Rightarrow> bool"
  SQUID_PAYLOAD_MAX :: u8
  SQUID_PAYLOAD_DEFAULT :: u8

definition open_socket :: "prog_api \<Rightarrow> nat \<Rightarrow> (prog_event, int) io" where
  "open_socket api capacity = query (\<lambda>h. pg_open api h capacity capacity) (Pg_Open capacity capacity)"

definition connect_socket :: "prog_api \<Rightarrow> int \<Rightarrow> u8 \<Rightarrow> (prog_event, int) io" where
  "connect_socket api fd channel = query (\<lambda>h. pg_connect api h fd channel) (Pg_Connect fd channel)"

subsection \<open>Interface 1\<close>

text \<open>The first component is the return value, the second \<open>*client\<close> where it is set.\<close>

definition squid_client_spectrum_if1_open ::
  "prog_api \<Rightarrow> u8 \<Rightarrow> bytes \<Rightarrow> u16 \<Rightarrow> (prog_event, int \<times> squid_client option) io" where
  "squid_client_spectrum_if1_open api channel workspace capacity =
     (if channel = 0 \<or> channel > 15 \<or> capacity = 0 \<or> unat capacity > SQUID_CLIENT_PACKET_MAX
      then State_Monad.return (SQUID_CLIENT_ERROR_ARGUMENT, None)
      else let queue_capacity = capacity + 1 in do {
        _ \<leftarrow> emit Pg_Reset;
        _ \<leftarrow> emit (Pg_Snet_Init \<lparr>timeout_ticks = 6, ack_delay_ticks = 0, ping_ticks = 0,
          max_retries = 3, payload_bytes = SQUID_PAYLOAD_DEFAULT api\<rparr>);
        socket_fd \<leftarrow> open_socket api (unat queue_capacity);
        if socket_fd < 0 then State_Monad.return (SQUID_CLIENT_ERROR_IO, None)
        else do {
          connected \<leftarrow> connect_socket api socket_fd channel;
          if connected \<noteq> 0 then do {
            _ \<leftarrow> emit (Pg_Close socket_fd);
            State_Monad.return (SQUID_CLIENT_ERROR_IO, None) }
          else State_Monad.return
            (0, Some (squid_client_init socket_fd workspace (unat capacity) False)) } })"

subsection \<open>The samples\<close>

definition SYS_CHANNEL :: u8 where "SYS_CHANNEL = 2"
definition ECHO_CHANNEL :: u8 where "ECHO_CHANNEL = 1"

definition sample_timing :: "prog_api \<Rightarrow> squid_timing" where
  "sample_timing api = \<lparr>timeout_ticks = 6, ack_delay_ticks = 0, ping_ticks = 0,
     max_retries = 3, payload_bytes = SQUID_PAYLOAD_MAX api\<rparr>"

definition SQUID_CLIENT_WORKSPACE_SIZE :: nat where
  "SQUID_CLIENT_WORKSPACE_SIZE = SQUID_CLIENT_PACKET_MAX + 1"

text \<open>The idle callback drives libsquid and never cancels.\<close>

definition pump_squid :: "cl_event list \<Rightarrow> bool" where
  "pump_squid _ = False"

definition sample_client :: "prog_api \<Rightarrow> prog_event list \<Rightarrow> cl_api" where
  "sample_client api h = (pg_client api h)\<lparr>cl_idle := pump_squid\<rparr>"

definition close_sample :: "server_local_transport \<Rightarrow> int \<Rightarrow> (prog_event, unit) io" where
  "close_sample transport squid_fd = do {
     _ \<leftarrow> emit (Pg_Close squid_fd);
     _ \<leftarrow> phase Pg_Transport (\<lambda>h. local_transport_close transport);
     State_Monad.return () }"

text \<open>
  What both programs start with; \<open>None\<close> is the return value 1. \<open>stack\<close> is the uninitialised
  structure on the stack.
\<close>

definition connect_sample ::
  "prog_api \<Rightarrow> server_local_transport \<Rightarrow> u8 \<Rightarrow>
     (prog_event, (server_local_transport \<times> int) option) io" where
  "connect_sample api stack channel = do {
     (result, transport) \<leftarrow> phase Pg_Transport (\<lambda>h.
       local_transport_connect (pg_transport api h) stack local_transport_default_socket_path);
     if result \<noteq> 0 then do {
       _ \<leftarrow> emit (Pg_Print Std_Err (ascii ''error: cannot connect to '' @
         local_transport_default_socket_path @ [10] @ ascii ''       is squid-server running?'' @ [10]));
       State_Monad.return None }
     else do {
       _ \<leftarrow> emit (Pg_Snet_Init (sample_timing api));
       squid_fd \<leftarrow> open_socket api SQUID_CLIENT_WORKSPACE_SIZE;
       if squid_fd < 0 then do {
         _ \<leftarrow> emit (Pg_Print Std_Err (ascii ''error: squid_open failed'' @ [10]));
         _ \<leftarrow> phase Pg_Transport (\<lambda>h. local_transport_close transport);
         State_Monad.return None }
       else do {
         _ \<leftarrow> connect_socket api squid_fd channel;
         State_Monad.return (Some (transport, squid_fd)) } } }"

text \<open>The handshake; \<open>False\<close> when the fuel runs out.\<close>

fun await_link :: "prog_api \<Rightarrow> nat \<Rightarrow> (prog_event, bool) io" where
  "await_link api 0 = State_Monad.return False"
| "await_link api (Suc fuel) = do {
     up \<leftarrow> query (pg_link_is_up api) Pg_Link;
     if up then State_Monad.return True
     else do { _ \<leftarrow> emit Pg_Burst; await_link api fuel } }"

definition sample_workspace :: "int \<Rightarrow> bytes \<Rightarrow> squid_client" where
  "sample_workspace squid_fd workspace =
     squid_client_init squid_fd workspace SQUID_CLIENT_PACKET_MAX True"

text \<open>\<open>%.*s\<close> stops at a NUL.\<close>

definition printed_text :: "bytes \<Rightarrow> bytes" where
  "printed_text reply = takeWhile (\<lambda>c. c \<noteq> 0) reply"

definition disconnected_text :: bytes where
  "disconnected_text = ascii ''error: send failed '' @ [0xE2, 0x80, 0x94] @
     ascii '' server may have disconnected'' @ [10]"

subsection \<open>The system sample\<close>

definition print_usage :: "bytes \<Rightarrow> (prog_event, unit) io" where
  "print_usage program = emit (Pg_Print Std_Err (ascii ''usage: '' @ program @ ascii '' <command>'' @ [10] @
     ascii ''commands:'' @ [10] @ ascii ''  id   print server hostname and OS'' @ [10]))"

text \<open>The result is the exit code, \<open>None\<close> when the fuel runs out.\<close>

definition sys_request ::
  "prog_api \<Rightarrow> nat \<Rightarrow> squid_client \<Rightarrow> bytes \<Rightarrow> (prog_event, bytes option option) io" where
  "sys_request api fuel client command =
     (if command \<noteq> ascii ''id'' then State_Monad.return (Some None)
      else do {
        r \<leftarrow> resume client_event Pg_Client (\<lambda>h. squid_client_system_id (sample_client api h) fuel client);
        State_Monad.return (map_option (\<lambda>(r, client). case r of Inl _ \<Rightarrow> None | Inr reply \<Rightarrow> Some reply) r) })"

definition sys_session ::
  "prog_api \<Rightarrow> nat \<Rightarrow> bytes \<Rightarrow> bytes \<Rightarrow> server_local_transport \<Rightarrow> int \<Rightarrow> (prog_event, int option) io" where
  "sys_session api fuel workspace command transport squid_fd = do {
     up \<leftarrow> await_link api fuel;
     if \<not> up then State_Monad.return None
     else do {
       answer \<leftarrow> sys_request api fuel (sample_workspace squid_fd workspace) command;
       case answer of
         None \<Rightarrow> State_Monad.return None
       | Some None \<Rightarrow> do {
           _ \<leftarrow> emit (Pg_Print Std_Err disconnected_text);
           _ \<leftarrow> close_sample transport squid_fd;
           State_Monad.return (Some 1) }
       | Some (Some reply) \<Rightarrow>
           (if reply \<noteq> [] then do {
              _ \<leftarrow> emit (Pg_Print Std_Out (printed_text reply @ [10]));
              _ \<leftarrow> close_sample transport squid_fd;
              State_Monad.return (Some 0) }
            else do {
              _ \<leftarrow> emit (Pg_Print Std_Err (ascii ''error: link lost or no response from server'' @ [10]));
              _ \<leftarrow> close_sample transport squid_fd;
              State_Monad.return (Some 1) }) } }"

definition sys_main ::
  "prog_api \<Rightarrow> nat \<Rightarrow> server_local_transport \<Rightarrow> bytes \<Rightarrow> bytes \<Rightarrow> bytes list \<Rightarrow> (prog_event, int option) io" where
  "sys_main api fuel stack workspace program arguments =
     (case arguments of
        [command] \<Rightarrow>
          (if command = [] then do { _ \<leftarrow> print_usage program; State_Monad.return (Some 1) }
           else if length command > SQUID_CLIENT_PACKET_MAX then do {
             _ \<leftarrow> emit (Pg_Print Std_Err (ascii ''error: command is too long (maximum '' @
               show_nat SQUID_CLIENT_PACKET_MAX @ ascii '' bytes)'' @ [10]));
             State_Monad.return (Some 1) }
           else do {
             connected \<leftarrow> connect_sample api stack SYS_CHANNEL;
             case connected of
               None \<Rightarrow> State_Monad.return (Some 1)
             | Some (transport, squid_fd) \<Rightarrow> sys_session api fuel workspace command transport squid_fd })
      | _ \<Rightarrow> do { _ \<leftarrow> print_usage program; State_Monad.return (Some 1) })"

subsection \<open>The echo sample\<close>

text \<open>What \<open>fgets\<close> returns, call by call, until the end of the input.\<close>

function fgets_lines :: "bytes \<Rightarrow> bytes list" where
  "fgets_lines input =
     (if input = [] then []
      else let (line, rest) = fgets (SQUID_CLIENT_WORKSPACE_SIZE - 1) input in line # fgets_lines rest)"
  by pat_completeness auto
termination
proof (relation "measure length", goal_cases)
  case (2 input x line rest)
  then show ?case
    using fgets_shorter [of "SQUID_CLIENT_WORKSPACE_SIZE - 1" input line rest]
    by (simp add: SQUID_CLIENT_WORKSPACE_SIZE_def del: fgets.simps)
qed simp

declare fgets_lines.simps [simp del]

text \<open>The text up to a NUL, without the newline.\<close>

definition typed_line :: "bytes \<Rightarrow> bytes" where
  "typed_line line =
     (let text = takeWhile (\<lambda>c. c \<noteq> 0) line in
      if text \<noteq> [] \<and> last text = 10 then butlast text else text)"

text \<open>\<open>False\<close> when the fuel runs out.\<close>

fun echo_lines :: "prog_api \<Rightarrow> nat \<Rightarrow> squid_client \<Rightarrow> bytes list \<Rightarrow> (prog_event, bool) io" where
  "echo_lines api fuel client [] = State_Monad.return True"
| "echo_lines api fuel client (line # rest) =
     (if typed_line line = [] then echo_lines api fuel client rest
      else do {
        r \<leftarrow> resume client_event Pg_Client (\<lambda>h. squid_client_echo (sample_client api h) fuel client
          (typed_line line) (of_nat (length (typed_line line))));
        case r of
          None \<Rightarrow> State_Monad.return False
        | Some (Inl _, client) \<Rightarrow> do {
            _ \<leftarrow> emit (Pg_Print Std_Err disconnected_text);
            State_Monad.return True }
        | Some (Inr reply, client) \<Rightarrow> do {
            _ \<leftarrow> emit (Pg_Print Std_Out (ascii ''< '' @ printed_text reply @ [10]));
            echo_lines api fuel client rest } })"

definition echo_banner :: bytes where
  "echo_banner = ascii ''connected to squid-server (echo, channel '' @ show_nat (unat ECHO_CHANNEL) @
     ascii '')'' @ [10] @ ascii ''type a message and press enter '' @ [0xE2, 0x80, 0x94] @
     ascii '' ctrl+d to quit'' @ [10, 10]"

definition echo_main ::
  "prog_api \<Rightarrow> nat \<Rightarrow> server_local_transport \<Rightarrow> bytes \<Rightarrow> bytes \<Rightarrow> (prog_event, int option) io" where
  "echo_main api fuel stack workspace stdin = do {
     connected \<leftarrow> connect_sample api stack ECHO_CHANNEL;
     case connected of
       None \<Rightarrow> State_Monad.return (Some 1)
     | Some (transport, squid_fd) \<Rightarrow> do {
         up \<leftarrow> await_link api fuel;
         if \<not> up then State_Monad.return None
         else do {
           _ \<leftarrow> emit (Pg_Print Std_Out echo_banner);
           finished \<leftarrow> echo_lines api fuel (sample_workspace squid_fd workspace) (fgets_lines stdin);
           if \<not> finished then State_Monad.return None
           else do {
             _ \<leftarrow> close_sample transport squid_fd;
             State_Monad.return (Some 0) } } } }"

end
