(* ===== verification/Client_Server.thy ===== *)
theory Client_Server
  imports Client_Properties Runtime_Loop "HOL-Library.Sublist"
begin

text \<open>
  Client and server together. The theorems about the typed clients are about a reference peer,
  \<open>serving_api\<close>, that answers the requests in the stream it is sent. Here the server's own loop is
  put in its place: \<open>serve\<close> runs on the bytes a client has sent, with libsquid as a lossless link,
  and what it sends back is what the reference peer would send.
\<close>

subsection \<open>Genuine traces\<close>

text \<open>
  Every answer in the trace of a run is the one the environment gives after the calls before it.
\<close>

fun permitted :: "rt_api \<Rightarrow> rt_event list \<Rightarrow> rt_event \<Rightarrow> bool" where
  "permitted api h (Recv q fd n d) = (d = map_option (take n) (squid_recv api h fd n))"
| "permitted api h (Send q fd f ok) = (ok = squid_send api h fd f)"
| "permitted api h (Handle q pl request reply) = (reply = run_handler api h pl q request)"
| "permitted api h (Wait r) = (r = transport_wait api h)"
| "permitted api h _ = True"

fun genuine_from :: "rt_api \<Rightarrow> rt_event list \<Rightarrow> rt_event list \<Rightarrow> bool" where
  "genuine_from api h [] = True"
| "genuine_from api h (e # es) = (permitted api h e \<and> genuine_from api (h @ [e]) es)"

lemma genuine_from_append [simp]:
  "genuine_from api h (es @ es') \<longleftrightarrow> genuine_from api h es \<and> genuine_from api (h @ es) es'"
  by (induction es arbitrary: h) auto

definition genuine :: "rt_api \<Rightarrow> (rt_event, 'a) io \<Rightarrow> bool" where
  "genuine api m \<longleftrightarrow> (\<forall>s. \<exists>es. trace (snd (run_state m s)) = trace s @ es \<and> genuine_from api (trace s) es)"

lemma genuineE:
  assumes "genuine api m" and "run_state m s = (a, s')"
  obtains es where "trace s' = trace s @ es" and "genuine_from api (trace s) es"
  using assms unfolding genuine_def by (metis snd_conv)

lemma genuine_return: "genuine api (State_Monad.return a)"
  by (simp add: genuine_def)

lemma genuine_query: "(\<And>h. permitted api h (ev (ask h))) \<Longrightarrow> genuine api (query ask ev)"
  by (simp add: genuine_def)

lemma genuine_syscall:
  assumes "\<And>h. permitted api h (ev (ask h))"
  shows "genuine api (syscall ask ev)"
  unfolding genuine_def
proof
  fix s
  show "\<exists>es. trace (snd (run_state (syscall ask ev) s)) = trace s @ es \<and> genuine_from api (trace s) es"
    using assms [of "trace s"]
    by (intro exI [of _ "[ev (ask (trace s))]"]) (auto simp: run_syscall split: sum.splits)
qed

lemma genuine_get_errno: "genuine api get_errno"
  by (simp add: genuine_def)

lemma genuine_bind:
  assumes "genuine api m" and "\<And>a. genuine api (f a)"
  shows "genuine api (State_Monad.bind m f)"
  unfolding genuine_def
proof
  fix s
  obtain a s1 where m: "run_state m s = (a, s1)" by (cases "run_state m s")
  obtain b s2 where f: "run_state (f a) s1 = (b, s2)" by (cases "run_state (f a) s1")
  show "\<exists>es. trace (snd (run_state (State_Monad.bind m f) s)) = trace s @ es \<and> genuine_from api (trace s) es"
    using genuineE [OF assms(1) m] genuineE [OF assms(2) f]
    by (simp add: m f) (metis append.assoc genuine_from_append)
qed

lemmas genuine_rules = genuine_return genuine_query genuine_syscall genuine_get_errno genuine_bind

lemma genuine_split:
  "(b \<Longrightarrow> genuine api m) \<Longrightarrow> (\<not> b \<Longrightarrow> genuine api n) \<Longrightarrow> genuine api (if b then m else n)"
  "(x = None \<Longrightarrow> genuine api m) \<Longrightarrow> (\<And>y. x = Some y \<Longrightarrow> genuine api (f y)) \<Longrightarrow>
     genuine api (case x of None \<Rightarrow> m | Some y \<Rightarrow> f y)"
  "(\<And>y z. t = (y, z) \<Longrightarrow> genuine api (g y z)) \<Longrightarrow> genuine api (case t of (y, z) \<Rightarrow> g y z)"
  "(\<And>y. u = Inl y \<Longrightarrow> genuine api (k y)) \<Longrightarrow> (\<And>y. u = Inr y \<Longrightarrow> genuine api (l y)) \<Longrightarrow>
     genuine api (case u of Inl y \<Rightarrow> k y | Inr y \<Rightarrow> l y)"
  "(v = [] \<Longrightarrow> genuine api m) \<Longrightarrow> (\<And>y ys. v = y # ys \<Longrightarrow> genuine api (o' y ys)) \<Longrightarrow>
     genuine api (case v of [] \<Rightarrow> m | y # ys \<Rightarrow> o' y ys)"
  by (auto split: option.splits prod.splits sum.splits list.splits)

lemma genuine_receive: "genuine api (receive_plugin_packet api rt p)"
  unfolding receive_plugin_packet_def receive_header_def receive_body_def rt_calls Let_def
  by (intro genuine_rules genuine_split) simp_all

lemma genuine_handle_request: "genuine api (handle_request api rt p pl)"
  unfolding handle_request_def rt_calls Let_def by (intro genuine_rules genuine_split) simp_all

lemma genuine_dispatch_port: "genuine api (dispatch_port api rt p)"
  unfolding dispatch_port_def flush_pending_def handle_ready_def rt_calls
  by (intro genuine_rules genuine_split genuine_receive genuine_handle_request) simp_all

lemma genuine_dispatch_ports: "genuine api (dispatch_ports api rt ports)"
proof (induction ports arbitrary: rt)
  case (Cons q ports)
  show ?case
    unfolding dispatch_ports.simps by (intro genuine_bind genuine_dispatch_port Cons)
qed (simp add: genuine_return)

lemma genuine_wait: "genuine api (wait_for_transport api rt)"
  unfolding wait_for_transport_def rt_calls by (intro genuine_rules genuine_split) simp_all

lemma genuine_connected_pass: "genuine api (connected_pass api rt)"
  unfolding connected_pass_def dispatch_received_packets_def call_burst_def
  by (intro genuine_bind genuine_query genuine_dispatch_ports genuine_wait) simp_all

subsection \<open>A server that keeps up\<close>

fun accepted :: "rt_event \<Rightarrow> bool" where
  "accepted (Send _ _ _ ok) = ok"
| "accepted (Wait r) = (\<exists>x. r = Inr x)"
| "accepted _ = True"

definition eager :: "u8 \<Rightarrow> server_runtime \<Rightarrow> server_runtime \<Rightarrow> rt_event list \<Rightarrow> bool" where
  "eager p rt rt' es \<longleftrightarrow> (list_all accepted es \<longrightarrow> keep_running rt' = keep_running rt \<and>
     (pending_response_sizes rt p = 0 \<longrightarrow> pending_response_sizes rt' p = 0))"

lemma eager_trans: "eager p rt rt1 es \<Longrightarrow> eager p rt1 rt2 es' \<Longrightarrow> eager p rt rt2 (es @ es')"
  by (auto simp: eager_def)

lemma ensures_eager_bind:
  assumes "ensures m (\<lambda>r es. eager p rt (state r) es)" and "\<And>r. ensures (f r) (eager p (state r))"
  shows "ensures (State_Monad.bind m f) (eager p rt)"
  by (rule ensures_bind [OF assms(1)], rule ensures_mono [OF assms(2)]) (rule eager_trans)

lemma contained_eager:
  assumes "contained q rt rt' es" and "q \<noteq> p \<or> pending_response_sizes rt' p = pending_response_sizes rt p"
  shows "eager p rt rt' es"
  using assms by (auto simp: eager_def contained_def confined_def same_globals_def same_port_def)

lemma handle_request_eager:
  "ensures (handle_request api rt p pl) (eager p rt)"
  unfolding handle_request_def rt_calls Let_def
  by (intro io_rules) (auto simp: eager_def)

lemma receive_eager: "ensures (receive_plugin_packet api rt p) (\<lambda>r es. eager p rt (snd r) es)"
  by (rule ensures_mono [OF receive_contained]) (auto intro: contained_eager)

lemma handle_ready_eager: "ensures (handle_ready api p r) (eager p (snd r))"
  unfolding handle_ready_def
  by (intro io_rules ensures_mono [OF handle_request_eager]) (auto simp: eager_def)

lemma dispatch_port_eager: "ensures (dispatch_port api rt q) (eager p rt)"
proof (cases "q = p")
  case True
  have flush: "ensures (flush_pending api rt p) (\<lambda>r es. case r of None \<Rightarrow> \<not> list_all accepted es
      | Some rt1 \<Rightarrow> eager p rt rt1 es)"
    unfolding flush_pending_def rt_calls by (intro io_rules) (auto simp: eager_def)
  have rest: "ensures (State_Monad.bind (receive_plugin_packet api rt1 p) (handle_ready api p))
      (eager p rt1)" for rt1
    by (rule ensures_eager_bind [OF receive_eager handle_ready_eager])
  show ?thesis
    unfolding True dispatch_port_def
    by (intro ensures_if ensures_return ensures_bind [OF flush] ensures_option ensures_mono [OF rest])
       (auto simp: eager_def)
next
  case False
  show ?thesis
    by (rule ensures_mono [OF dispatch_port_contained]) (use False in \<open>auto intro: contained_eager\<close>)
qed

lemma dispatch_ports_eager: "ensures (dispatch_ports api rt ports) (eager p rt)"
proof (induction ports arbitrary: rt)
  case (Cons q ports)
  show ?case
    unfolding dispatch_ports.simps
    by (rule ensures_eager_bind [where state = id]) (simp_all add: dispatch_port_eager Cons)
qed (auto intro!: io_rules simp: eager_def)

lemma wait_eager: "ensures (wait_for_transport api rt) (eager p rt)"
  unfolding wait_for_transport_def rt_calls
  by (intro io_rules) (auto simp: eager_def)

lemma eager_burst:
  "ensures m (eager p rt) \<Longrightarrow> ensures (State_Monad.bind call_burst (\<lambda>_. m)) (eager p rt)"
  unfolding call_burst_def by (rule ensures_query_bind, erule ensures_mono) (simp add: eager_def)

lemma connected_pass_eager: "ensures (connected_pass api rt) (eager p rt)"
  unfolding connected_pass_def dispatch_received_packets_def
  by (intro eager_burst ensures_eager_bind [where state = "\<lambda>rt. rt"] dispatch_ports_eager wait_eager)

text \<open>A pass over an open port with nothing pending asks for bytes.\<close>

definition asks :: "u8 \<Rightarrow> rt_event list \<Rightarrow> bool" where
  "asks p es \<longleftrightarrow> list_ex (\<lambda>e. case e of Recv q _ n _ \<Rightarrow> q = p \<and> 0 < n | _ \<Rightarrow> False) es"

lemma asks_append [simp]: "asks p (es @ es') \<longleftrightarrow> asks p es \<or> asks p es'"
  by (auto simp: asks_def)

lemma receive_asks:
  assumes "served_inv rt p"
  shows "ensures (receive_plugin_packet api rt p) (\<lambda>_ es. asks p es)"
  unfolding receive_plugin_packet_def receive_header_def receive_body_def rt_calls Let_def
  by (intro io_rules) (use assms in \<open>auto simp: asks_def served_inv_def\<close>)

lemma dispatch_port_asks:
  assumes "served_inv rt p" "0 \<le> squid_fds rt p" "pending_response_sizes rt p = 0"
  shows "ensures (dispatch_port api rt p) (\<lambda>_ es. asks p es)"
proof -
  have "ensures (handle_ready api p r) (\<lambda>_ _. True)" for r
    by (rule ensures_mono [OF handle_ready_eager]) simp
  then show ?thesis
    unfolding dispatch_port_def flush_pending_def
    using assms(2,3)
    by (auto intro!: io_rules ensures_bind [OF receive_asks [OF assms(1)]] intro: ensures_mono)
qed

lemma dispatch_ports_asks:
  assumes "served_inv rt p" "0 \<le> squid_fds rt p" "pending_response_sizes rt p = 0" "p \<in> set ports"
  shows "ensures (dispatch_ports api rt ports) (\<lambda>_ es. list_all accepted es \<longrightarrow> asks p es)"
  using assms
proof (induction ports arbitrary: rt)
  case (Cons q ports)
  have any: "ensures (dispatch_ports api rt1 ports) (\<lambda>_ _. True)" for rt1
    by (rule ensures_mono [OF dispatch_ports_eager]) simp
  show ?case
  proof (cases "q = p")
    case True
    show ?thesis
      unfolding dispatch_ports.simps True
      by (rule ensures_bind [OF dispatch_port_asks [OF Cons.prems(1-3)]], rule ensures_mono [OF any]) simp
  next
    case False
    have "ensures (dispatch_ports api rt1 ports) (\<lambda>_ es'. list_all accepted (es @ es') \<longrightarrow> asks p (es @ es'))"
      if st: "session_step p rt rt1 es" and eg: "eager p rt rt1 es" for rt1 es
    proof (cases "list_all accepted es")
      case True
      then have "served_inv rt1 p" "0 \<le> squid_fds rt1 p" "pending_response_sizes rt1 p = 0" "p \<in> set ports"
        using st eg Cons.prems False by (auto simp: session_step_def eager_def)
      then show ?thesis
        by (rule ensures_mono [OF Cons.IH]) auto
    qed (rule ensures_mono [OF any], simp)
    then show ?thesis
      unfolding dispatch_ports.simps
      by (intro ensures_bind [OF ensures_conj [OF dispatch_port_session [OF Cons.prems(1)] dispatch_port_eager]])
         auto
  qed
qed simp

text \<open>One pass of the connected loop: the streams are in order, nothing is left pending, bytes are asked for.\<close>

definition steady :: "u8 \<Rightarrow> server_runtime \<Rightarrow> server_runtime \<Rightarrow> rt_event list \<Rightarrow> bool" where
  "steady p rt rt' es \<longleftrightarrow> session_step p rt rt' es \<and>
     (list_all accepted es \<longrightarrow> keep_running rt' = keep_running rt \<and> pending_response_sizes rt' p = 0 \<and> asks p es)"

lemma connected_pass_steady:
  assumes "served_inv rt p" "0 \<le> squid_fds rt p" "pending_response_sizes rt p = 0" "p \<in> set plugin_ports"
  shows "ensures (connected_pass api rt) (steady p rt)"
proof -
  have "ensures (connected_pass api rt) (\<lambda>_ es. list_all accepted es \<longrightarrow> asks p es)"
    unfolding connected_pass_def dispatch_received_packets_def call_burst_def
    by (intro ensures_query_bind ensures_bind [OF dispatch_ports_asks [OF assms]] ensures_mono [OF wait_eager]) 
       (auto simp: asks_def)
  then show ?thesis
    by (rule ensures_mono [OF ensures_conj [OF ensures_conj
          [OF connected_pass_session [OF assms(1)] connected_pass_eager [where p = p]]]])
       (use assms in \<open>auto simp: steady_def eager_def\<close>)
qed

subsection \<open>A lossless link\<close>

lemma deframe_nonempty: "[] \<notin> set (fst (deframe bs))"
  by (induction bs rule: deframe.induct)
     (subst deframe.simps, auto simp: Let_def unat_gt_0 unat_eq_zero split: list.splits prod.splits)

text \<open>
  What the environment of the loop promises when a client is connected to port \<open>p\<close> and has sent
  \<open>input\<close>: the bytes arrive in order, in pieces that \<open>chunk\<close> chooses, responses are accepted, the link
  stays up, and the plugin on the port answers with \<open>core\<close>.
\<close>

locale lossless_link =
  fixes api :: rt_api and p :: u8 and input :: bytes and chunk :: "rt_event list \<Rightarrow> nat"
    and core :: "bytes \<Rightarrow> bytes option"
  assumes opens: "0 \<le> squid_open api h a b"
    and binds: "squid_bind api h fd q' = 0"
    and recv: "squid_recv api h fd n = Some (take (Suc (chunk h)) (drop (length (received p h)) input))"
    and send: "squid_send api h fd f"
    and wait: "\<exists>x. transport_wait api h = Inr x"
    and up: "snet_link_is_up api h"
    and no_signal: "\<not> signal_arrived api h"
    and handler: "run_handler api h pl p q = reply_of (core q)"
    and proper: "q \<noteq> [] \<Longrightarrow> core q = Some r \<Longrightarrow> r \<noteq> [] \<and> length r \<le> server_packet_max"
begin

lemma permitted_accepted: "permitted api h e \<Longrightarrow> accepted e"
  using send wait by (cases e) auto

lemma genuine_accepted: "genuine_from api h es \<Longrightarrow> list_all accepted es"
  by (induction es arbitrary: h) (auto intro: permitted_accepted)

lemma received_permitted:
  assumes "permitted api h e" and "prefix (received p h) input"
  shows "prefix (received p (h @ [e])) input"
proof -
  obtain rest where input: "input = received p h @ rest"
    using assms(2) by (rule prefixE)
  have "\<exists>m. received_of p e = take m rest"
    using assms(1) recv by (cases e) (auto simp: input intro: exI [of _ 0])
  then show ?thesis
    by (auto simp: input take_is_prefix)
qed

lemma received_genuine:
  "genuine_from api h es \<Longrightarrow> prefix (received p h) input \<Longrightarrow> prefix (received p (h @ es)) input"
proof (induction es arbitrary: h)
  case (Cons e es)
  then show ?case
    using Cons.IH [of "h @ [e]"] received_permitted [of h e] by simp
qed simp

lemma asks_progress:
  "genuine_from api h es \<Longrightarrow> asks p es \<Longrightarrow> length (received p h) < length input \<Longrightarrow> received p es \<noteq> []"
proof (induction es arbitrary: h)
  case (Cons e es)
  show ?case
  proof (cases "received_of p e = []")
    case True
    then have "received p (h @ [e]) = received p h" by simp
    moreover have "asks p es"
      using Cons.prems True recv by (cases e) (auto simp: asks_def)
    ultimately show ?thesis
      using Cons.IH [of "h @ [e]"] Cons.prems by simp
  qed simp
qed (simp add: asks_def)

lemma responses_core:
  "genuine_from api h es \<Longrightarrow> [] \<notin> set (requests p es) \<Longrightarrow>
     concat (map frame (responses p es)) =
     concat (map (\<lambda>q. case core q of None \<Rightarrow> [] | Some r \<Rightarrow> frame r) (requests p es))"
proof (induction es arbitrary: h)
  case (Cons e es)
  have "concat (map frame (responses_of p e)) =
      concat (map (\<lambda>q. case core q of None \<Rightarrow> [] | Some r \<Rightarrow> frame r) (requests_of p e))"
  proof (cases e)
    case (Handle q pl request reply)
    then show ?thesis
      using Cons.prems handler [of h pl request] accepted_reply_of proper [of request] rejected_reply_of
      by (auto split: option.splits)
  qed auto
  with Cons.IH [of "h @ [e]"] Cons.prems show ?case by simp
qed simp

text \<open>The connected loop: after enough passes every byte has been taken, and nothing is left to send.\<close>

lemma connected_runs:
  assumes "served_inv rt p" "0 \<le> squid_fds rt p" "pending_response_sizes rt p = 0" "p \<in> set plugin_ports"
    and "keep_running rt" and "prefix (received p (trace s)) input"
  shows "\<exists>es rt' s'. run_state (run_dispatch_loop api fuel Connected rt) s = (None, s') \<and> trace s' = trace s @ es \<and>
    genuine_from api (trace s) es \<and> session_step p rt rt' es \<and> pending_response_sizes rt' p = 0 \<and>
    min (length input) (length (received p (trace s)) + fuel) \<le> length (received p (trace s @ es))"
  using assms
proof (induction fuel arbitrary: rt s)
  case 0
  then show ?case
    by (auto intro!: exI [of _ "[]"] exI [of _ rt] exI [of _ s] session_step_refl)
next
  case (Suc fuel)
  define s0 where "s0 = s\<lparr>trace := trace s @ [Signal False, Link_Up True]\<rparr>"
  have keep: "rt\<lparr>keep_running := True\<rparr> = rt" using Suc.prems(5) by simp
  obtain rt1 s1 where pass: "run_state (connected_pass api rt) s0 = (rt1, s1)"
    by (metis surj_pair)
  then have "run_state (connected_pass api (rt\<lparr>keep_running := True\<rparr>)) s0 = (rt1, s1)"
    by (simp only: keep)
  then have step: "run_state (loop_step api Connected rt) s = ((Connected, rt1), s1)"
    using Suc.prems(5) up no_signal by (simp add: loop_step_def Let_def s0_def)
  obtain es1 where es1: "trace s1 = trace s0 @ es1" "genuine_from api (trace s0) es1"
    using genuine_connected_pass pass by (rule genuineE)
  have st1: "steady p rt rt1 es1"
    using ensuresE [OF connected_pass_steady [OF Suc.prems(1-4)] pass] es1(1) by auto
  then have rt1: "served_inv rt1 p" "0 \<le> squid_fds rt1 p" "pending_response_sizes rt1 p = 0" "keep_running rt1"
    "asks p es1"
    using genuine_accepted [OF es1(2)] Suc.prems by (auto simp: steady_def session_step_def)
  have quiet: "session_step p rt rt [Signal False, Link_Up True]"
    using Suc.prems(1) by (auto intro!: session_step_quiet simp: same_port_def silent_def)
  let ?k = "length (received p (trace s))"
  have s0: "received p (trace s0) = received p (trace s)" by (simp add: s0_def)
  have pre: "prefix (received p (trace s1)) input"
    using received_genuine [OF es1(2)] Suc.prems(6) s0 es1(1) by simp
  have more: "min (length input) (Suc ?k) \<le> length (received p (trace s1))"
  proof (cases "?k < length input")
    case True
    then have "received p es1 \<noteq> []"
      using asks_progress [OF es1(2) rt1(5)] s0 by simp
    then show ?thesis
      using s0 es1(1) by (cases "received p es1") simp_all
  qed (use s0 es1(1) in simp)
  obtain es2 rt2 s2 where run2: "run_state (run_dispatch_loop api fuel Connected rt1) s1 = (None, s2)"
    and es2: "trace s2 = trace s1 @ es2"
    "genuine_from api (trace s1) es2" "session_step p rt1 rt2 es2" "pending_response_sizes rt2 p = 0"
    "min (length input) (length (received p (trace s1)) + fuel) \<le> length (received p (trace s1 @ es2))"
    using Suc.IH [OF rt1(1-3) Suc.prems(4) rt1(4) pre] by blast
  let ?es = "[Signal False, Link_Up True] @ es1 @ es2"
  have "session_step p rt rt2 ?es"
    using session_step_trans [OF quiet session_step_trans] st1 es2(3) by (auto simp: steady_def)
  moreover have "run_state (run_dispatch_loop api (Suc fuel) Connected rt) s = (None, s2)" "trace s2 = trace s @ ?es"
    using run2 es2(1) es1(1) by (simp_all add: step s0_def)
  moreover have "genuine_from api (trace s) ?es"
    using es1 es2(2) by (simp add: s0_def)
  moreover have "min (length input) (?k + Suc fuel) \<le> length (received p (trace s @ ?es))"
    using es2(5) more es1(1) by (simp add: s0_def min_def split: if_splits)
  ultimately show ?case
    using es2(4) by blast
qed

lemma open_sockets_ready:
  assumes "p \<in> set ports \<and> find_server_plugin (plugin_registry rt) p \<noteq> None \<or> 0 \<le> squid_fds rt p"
  shows "ensures (open_sockets api rt ports) (\<lambda>rt' es. silent p es \<and>
    (\<exists>fds. rt' = rt\<lparr>squid_fds := fds\<rparr> \<and> 0 \<le> fds p))"
  using assms
proof (induction ports arbitrary: rt)
  case Nil
  then show ?case by (auto intro!: io_rules exI [of _ "squid_fds rt"] simp: silent_def)
next
  case (Cons q ports)
  let ?socket = "\<lambda>rt' es. silent p es \<and>
    (\<exists>fds. rt' = rt\<lparr>squid_fds := fds\<rparr> \<and> (fds = squid_fds rt \<or> (\<exists>fd. 0 \<le> fd \<and> fds = (squid_fds rt)(q := fd))) \<and>
       (find_server_plugin (plugin_registry rt) q \<noteq> None \<longrightarrow> 0 \<le> fds q))"
  have bound: "ensures (State_Monad.bind (query (\<lambda>h. squid_bind api h fd q) ev) f) Q"
    if "ensures (f 0) (\<lambda>b es. Q b (ev 0 # es))" for fd f ev and Q :: "server_runtime \<Rightarrow> _"
    by (rule ensures_query_sat_bind [where P = "\<lambda>r. r = 0"]) (auto simp: binds that)
  have first: "ensures (open_plugin_socket api rt q) ?socket"
  proof (cases "find_server_plugin (plugin_registry rt) q = None")
    case True
    then show ?thesis
      by (auto simp: open_plugin_socket_def silent_def intro!: ensures_return exI [of _ "squid_fds rt"])
  next
    case False
    show ?thesis
      unfolding open_plugin_socket_def if_not_P [OF False] rt_calls
      by (rule ensures_query_sat_bind [where P = "\<lambda>fd. 0 \<le> fd", OF opens])
         (auto simp: silent_def intro!: bound ensures_return exI [of _ "(squid_fds rt)(q := a)" for a])
  qed
  show ?case
    unfolding open_sockets.simps
  proof (rule ensures_bind [OF first])
    fix rt1 es
    assume rt1: "?socket rt1 es"
    then have ready: "p \<in> set ports \<and> find_server_plugin (plugin_registry rt1) p \<noteq> None \<or> 0 \<le> squid_fds rt1 p"
      using Cons.prems by (auto split: if_splits)
    show "ensures (open_sockets api rt1 ports) (\<lambda>rt' es'. silent p (es @ es') \<and>
        (\<exists>fds. rt' = rt\<lparr>squid_fds := fds\<rparr> \<and> 0 \<le> fds p))"
      by (rule ensures_mono [OF Cons.IH [OF ready]]) (use rt1 in auto)
  qed
qed

lemma serve_output:
  assumes plugin: "find_server_plugin reg p = Some pl" "handle_packet pl \<noteq> None" "p \<in> set plugin_ports"
    and fuel: "length input + 2 \<le> fuel"
  shows "sent p (trace (snd (run_state (serve api fuel (init_server_runtime\<lparr>plugin_registry := reg\<rparr>))
      \<lparr>trace = [], c_errno = e\<rparr>))) =
    concat (map (\<lambda>q. case core q of None \<Rightarrow> [] | Some r \<Rightarrow> frame r) (fst (deframe input)))"
proof -
  let ?rt0 = "init_server_runtime\<lparr>plugin_registry := reg\<rparr>" and ?s0 = "\<lparr>trace = [], c_errno = e\<rparr> :: rt_event env"
  have open_ok: "ensures (open_plugin_sockets api ?rt0) (\<lambda>rt' es. silent p es \<and>
      (\<exists>fds. rt' = ?rt0\<lparr>squid_fds := fds\<rparr> \<and> 0 \<le> fds p))"
    unfolding open_plugin_sockets_def by (rule open_sockets_ready) (simp add: plugin)
  obtain rt1 s1 where op: "run_state (open_plugin_sockets api ?rt0) ?s0 = (rt1, s1)"
    by (metis surj_pair)
  then obtain fds where rt1: "rt1 = ?rt0\<lparr>squid_fds := fds\<rparr>" "0 \<le> fds p" and silent: "silent p (trace s1)"
    using ensuresE [OF open_ok op] by auto
  have inv: "served_inv rt1 p" "0 \<le> squid_fds rt1 p" "pending_response_sizes rt1 p = 0" "keep_running rt1"
    "clean_port rt1 p"
    using plugin rt1(2) port_inv_init [of p]
    by (simp_all add: rt1(1) served_inv_def port_inv_def served_def init_server_runtime_def clean_port_def)
  define s2 where "s2 = s1\<lparr>trace := trace s1 @ [Signal False, Signal False, Link_Up True, Signal False,
    Log server_log_level_info Link_Established]\<rparr>"
  have keep: "rt1\<lparr>keep_running := True\<rparr> = rt1" using inv(4) by simp
  define k where "k = fuel - 2"
  have k: "fuel = Suc (Suc k)" "length input \<le> k"
    using fuel unfolding k_def by linarith+
  have enter: "run_state (run_dispatch_loop api fuel Outer rt1) s1 =
      run_state (run_dispatch_loop api k Connected (rt1\<lparr>keep_running := True\<rparr>)) s2"
    using inv(4) up no_signal by (simp add: k(1) loop_step_def Let_def s2_def)
  have "received p (trace s2) = []" "sent p (trace s2) = []"
    using silent_observe [OF silent] by (simp_all add: s2_def)
  then obtain es rt' s3 where run: "run_state (run_dispatch_loop api k Connected rt1) s2 = (None, s3)"
    and es: "trace s3 = trace s2 @ es" "genuine_from api (trace s2) es" "session_step p rt1 rt' es"
      "pending_response_sizes rt' p = 0" "min (length input) k \<le> length (received p (trace s2 @ es))"
    using connected_runs [OF inv(1-3) plugin(3) inv(4), of s2 k] by auto
  have all: "received p es = input"
    using received_genuine [OF es(2)] es(5) k(2) \<open>received p (trace s2) = []\<close>
    by (auto simp: prefix_def)
  have "sent p es = concat (map (\<lambda>q. case core q of None \<Rightarrow> [] | Some r \<Rightarrow> frame r) (fst (deframe input)))"
    using es(3,4) responses_core [OF es(2)] deframe_nonempty [of input] all clean_port_streams [OF inv(5)] inv(3)
    by (simp add: session_step_def port_streams_def pending_def)
  moreover have "run_state (serve api fuel ?rt0) ?s0 = (None, s3)"
    using op enter run by (simp add: serve_def keep del: run_dispatch_loop.simps)
  ultimately show ?thesis
    using es(1) \<open>sent p (trace s2) = []\<close> by simp
qed

end

subsection \<open>The server behind the client's socket\<close>

definition linked_server ::
  "u8 \<Rightarrow> (bytes \<Rightarrow> bytes option) \<Rightarrow> (rt_event list \<Rightarrow> nat) \<Rightarrow> bytes \<Rightarrow> rt_api" where
  "linked_server p core pieces input = \<lparr>squid_open = (\<lambda>_ _ _. 0), squid_bind = (\<lambda>_ _ _. 0),
     squid_recv = (\<lambda>h fd n. Some (take (Suc (pieces h)) (drop (length (received p h)) input))),
     squid_send = (\<lambda>_ _ _. True), snet_link_is_up = (\<lambda>_. True), transport_wait = (\<lambda>_. Inr 1),
     signal_arrived = (\<lambda>_. False),
     run_handler = (\<lambda>h pl q request. reply_of (if q = p then core request else None))\<rparr>"

definition answers_packets :: "(bytes \<Rightarrow> bytes option) \<Rightarrow> bool" where
  "answers_packets core \<longleftrightarrow>
     (\<forall>q r. q \<noteq> [] \<longrightarrow> core q = Some r \<longrightarrow> r \<noteq> [] \<and> length r \<le> server_packet_max)"

lemma linked_server_lossless:
  "answers_packets core \<Longrightarrow> lossless_link (linked_server p core pieces input) p input pieces core"
  by unfold_locales (auto simp: linked_server_def answers_packets_def)

text \<open>What the server has sent after it was sent \<open>input\<close>.\<close>

definition server_output ::
  "plugin_registry \<Rightarrow> u8 \<Rightarrow> (bytes \<Rightarrow> bytes option) \<Rightarrow> (rt_event list \<Rightarrow> nat) \<Rightarrow> bytes \<Rightarrow> bytes" where
  "server_output reg p core pieces input = sent p (trace (snd (run_state
     (serve (linked_server p core pieces input) (length input + 2) (init_server_runtime\<lparr>plugin_registry := reg\<rparr>))
     \<lparr>trace = [], c_errno = E_OK\<rparr>)))"

text \<open>A client's socket whose other end is the server.\<close>

definition linked_client ::
  "plugin_registry \<Rightarrow> u8 \<Rightarrow> (bytes \<Rightarrow> bytes option) \<Rightarrow> (rt_event list \<Rightarrow> nat) \<Rightarrow> (cl_event list \<Rightarrow> nat) \<Rightarrow> cl_api" where
  "linked_client reg p core pieces chunk = \<lparr>cl_idle = (\<lambda>_. False), cl_link_is_up = (\<lambda>_. True),
     cl_link_epoch = (\<lambda>_. 0), cl_send = (\<lambda>_ _ _. True),
     cl_recv = (\<lambda>h fd n. Some (take (Suc (chunk h))
       (drop (length (cl_received h)) (server_output reg p core pieces (cl_sent h)))))\<rparr>"

text \<open>The registry has one plugin on the wire, on port \<open>p\<close>, so that the link carries one stream.\<close>

definition hosts :: "plugin_registry \<Rightarrow> u8 \<Rightarrow> bool" where
  "hosts reg p \<longleftrightarrow> p \<in> set plugin_ports \<and>
     list_all (\<lambda>q. case find_server_plugin reg q of None \<Rightarrow> q \<noteq> p
       | Some pl \<Rightarrow> q = p \<and> handle_packet pl \<noteq> None) plugin_ports"

lemma hosts_plugin:
  assumes "hosts reg p"
  shows "\<exists>pl. find_server_plugin reg p = Some pl \<and> handle_packet pl \<noteq> None"
proof -
  have "case find_server_plugin reg p of None \<Rightarrow> p \<noteq> p | Some pl \<Rightarrow> p = p \<and> handle_packet pl \<noteq> None"
    using assms unfolding hosts_def list_all_iff by (elim conjE) (erule (1) bspec)
  then show ?thesis
    by (cases "find_server_plugin reg p") simp_all
qed

lemma linked_client_serving:
  assumes "hosts reg p" and "answers_packets core"
  shows "linked_client reg p core pieces chunk = serving_api core chunk"
proof -
  obtain pl where pl: "find_server_plugin reg p = Some pl" "handle_packet pl \<noteq> None" "p \<in> set plugin_ports"
    using hosts_plugin [OF assms(1)] assms(1) unfolding hosts_def by blast
  have "server_output reg p core pieces input =
      concat (map (\<lambda>q. case core q of None \<Rightarrow> [] | Some r \<Rightarrow> frame r) (fst (deframe input)))" for input
    unfolding server_output_def
    by (rule lossless_link.serve_output [OF linked_server_lossless [OF assms(2)] pl]) simp
  then show ?thesis
    by (simp add: linked_client_def serving_api_def unread_def peer_stream_def)
qed

definition time_core :: "time_api \<Rightarrow> bytes \<Rightarrow> bytes option" where
  "time_core host request = handle_squid_time_packet host request server_packet_max"

definition echo_core :: "bytes \<Rightarrow> bytes option" where
  "echo_core request = handle_echo_packet request server_packet_max"

definition sys_core :: "(bytes \<times> bytes) option \<Rightarrow> bytes option \<Rightarrow> bytes \<Rightarrow> bytes option" where
  "sys_core uname gethostname request = handle_squidsys_packet uname gethostname request server_packet_max"

lemma echo_answers: "answers_packets echo_core"
  by (auto simp: answers_packets_def echo_core_def handle_echo_packet_def)

lemma time_answers: "answers_packets (time_core host)"
proof -
  have "r \<noteq> [] \<and> length r \<le> server_packet_max"
    if "handle_squid_time_packet host q server_packet_max = Some r" for q r
    using time.reply_shape [OF exI, OF that [symmetric]] by auto
  then show ?thesis
    by (auto simp: answers_packets_def time_core_def)
qed

lemma squidsys_nonempty: "handle_squidsys_packet u g request capacity = Some reply \<Longrightarrow> reply \<noteq> []"
  by (auto simp: handle_squidsys_packet_def Let_def split: option.splits if_splits prod.splits)

lemma sys_answers: "answers_packets (sys_core uname gethostname)"
  unfolding answers_packets_def sys_core_def using squidsys_nonempty squidsys_length by blast

interpretation echo_link: lossless_link "linked_server p echo_core pieces input" p input pieces echo_core
  for p pieces input
  by (rule linked_server_lossless [OF echo_answers])

interpretation time_link: lossless_link "linked_server p (time_core host) pieces input" p input pieces "time_core host"
  for p pieces input host
  by (rule linked_server_lossless [OF time_answers])

text \<open>
  C7. A client of the server is a client of the reference peer. When the server's loop, started
  from \<open>init_server_runtime\<close> with a plugin on port \<open>p\<close>, is run on the bytes a client has sent, cut into
  whatever pieces, what comes back to the client is, at every moment and for every client, what the
  reference peer of the client's theorems answers; so for the time, echo and system plugins those
  theorems hold of the client and the server together.
\<close>

theorem client_meets_server:
  assumes "hosts reg p"
  shows "linked_client reg p (time_core host) pieces chunk = serving_api (time_core host) chunk \<and>
    linked_client reg p echo_core pieces chunk = serving_api echo_core chunk \<and>
    linked_client reg p (sys_core uname gethostname) pieces chunk = serving_api (sys_core uname gethostname) chunk"
  by (intro conjI linked_client_serving assms time_answers echo_answers sys_answers)

definition demo_registry :: plugin_registry where
  "demo_registry = init_server_plugin_registry[1 := \<lparr>port_number = 1, plugin = Some demo_plugin\<rparr>]"

lemma demo_registry_hosts: "hosts demo_registry 1"
  by code_simp

theorem client_meets_server_witness:
  "linked_client demo_registry 1 echo_core (\<lambda>_. 3) (\<lambda>_. 1) = serving_api echo_core (\<lambda>_. 1)"
  using client_meets_server [OF demo_registry_hosts] by blast

end
