(* ===== verification/Program_Properties.thy ===== *)
theory Program_Properties
  imports Client_Programs Client_Server
begin

text \<open>
  The programs that use the client library, from end to end: what they open they close, and
  against the server's plugins the samples print what the user expects.
\<close>

subsection \<open>What a program does outside\<close>

fun prog_transport :: "prog_event \<Rightarrow> tr_event list" where
  "prog_transport (Pg_Transport e) = [e]"
| "prog_transport _ = []"

fun prog_socket :: "prog_event \<Rightarrow> int multiset \<times> int multiset" where
  "prog_socket (Pg_Open _ _ fd) = (if fd < 0 then ({#}, {#}) else ({#fd#}, {#}))"
| "prog_socket (Pg_Close fd) = ({#}, {#fd#})"
| "prog_socket _ = ({#}, {#})"

fun prog_output :: "std_stream \<Rightarrow> prog_event \<Rightarrow> bytes list" where
  "prog_output stream (Pg_Print out t) = (if out = stream then [t] else [])"
| "prog_output stream _ = []"

definition on_transport :: "prog_event list \<Rightarrow> tr_event list" where
  "on_transport es = concat (map prog_transport es)"

definition squid_opened :: "prog_event list \<Rightarrow> int multiset" where
  "squid_opened es = sum_list (map (fst \<circ> prog_socket) es)"

definition squid_closed :: "prog_event list \<Rightarrow> int multiset" where
  "squid_closed es = sum_list (map (snd \<circ> prog_socket) es)"

definition printed :: "std_stream \<Rightarrow> prog_event list \<Rightarrow> bytes list" where
  "printed stream es = concat (map (prog_output stream) es)"

lemma prog_simps [simp]:
  "on_transport [] = []" "on_transport (e # es) = prog_transport e @ on_transport es"
  "on_transport (es @ es') = on_transport es @ on_transport es'"
  "squid_opened [] = {#}" "squid_opened (e # es) = fst (prog_socket e) + squid_opened es"
  "squid_opened (es @ es') = squid_opened es + squid_opened es'"
  "squid_closed [] = {#}" "squid_closed (e # es) = snd (prog_socket e) + squid_closed es"
  "squid_closed (es @ es') = squid_closed es + squid_closed es'"
  "printed stream [] = []" "printed stream (e # es) = prog_output stream e @ printed stream es"
  "printed stream (es @ es') = printed stream es @ printed stream es'"
  by (simp_all add: on_transport_def squid_opened_def squid_closed_def printed_def)

lemma transport_phase [simp]:
  "on_transport (map Pg_Transport ts) = ts" "squid_opened (map Pg_Transport ts) = {#}"
  "squid_closed (map Pg_Transport ts) = {#}" "printed stream (map Pg_Transport ts) = []"
  by (induction ts) simp_all

definition client_part :: "prog_event list \<Rightarrow> cl_event list" where
  "client_part es = concat (map client_event es)"

lemma client_part_simps [simp]:
  "client_part [] = []" "client_part (e # es) = client_event e @ client_part es"
  "client_part (es @ es') = client_part es @ client_part es'"
  by (simp_all add: client_part_def)

lemma client_part_transport [simp]: "client_part (map Pg_Transport ts) = []"
  by (induction ts) simp_all

lemma client_part_client [simp]: "client_part (map Pg_Client cs) = cs"
  by (induction cs) simp_all

lemma client_phase [simp]:
  "on_transport (map Pg_Client cs) = []" "squid_opened (map Pg_Client cs) = {#}"
  "squid_closed (map Pg_Client cs) = {#}" "printed stream (map Pg_Client cs) = []"
  by (induction cs) simp_all

definition balanced :: "prog_event list \<Rightarrow> bool" where
  "balanced es \<longleftrightarrow> acquired (on_transport es) = released (on_transport es) \<and>
     squid_opened es = squid_closed es"

subsection \<open>Interface 1\<close>

text \<open>
  Opening a client on Interface 1 either fails, with no socket left open, or gives a client that
  holds the one open socket, connected to the channel, and a workspace of the size it was given.
\<close>

lemma spectrum_if1_open_contract:
  "ensures (squid_client_spectrum_if1_open api channel workspace capacity) (\<lambda>(r, client) es.
     on_transport es = [] \<and>
     (case client of
        None \<Rightarrow> r \<in> {SQUID_CLIENT_ERROR_ARGUMENT, SQUID_CLIENT_ERROR_IO} \<and> squid_opened es = squid_closed es
      | Some c \<Rightarrow> r = 0 \<and> squid_closed es = {#} \<and> squid_opened es = {#client_fd c#} \<and>
          Pg_Connect (client_fd c) channel 0 \<in> set es \<and> channel \<in> set plugin_ports \<and>
          0 < packet_capacity c \<and> packet_capacity c \<le> SQUID_CLIENT_PACKET_MAX \<and>
          Pg_Open (packet_capacity c + 1) (packet_capacity c + 1) (client_fd c) \<in> set es))"
proof -
  have port: "channel \<in> set plugin_ports" if "channel \<noteq> 0" "\<not> 15 < channel"
  proof -
    have "unat channel \<in> {1..<16}"
      using that by (auto simp: word_less_nat_alt unat_gt_0 Suc_le_eq)
    then show ?thesis
      unfolding plugin_ports_def by (auto intro!: image_eqI [of _ _ "unat channel"])
  qed
  have queue: "unat (capacity + 1) = unat capacity + 1" if "\<not> 255 < unat capacity"
    using that by (simp add: unat_word_ariths)
  show ?thesis
    unfolding squid_client_spectrum_if1_open_def open_socket_def connect_socket_def
    by (intro io_rules)
       (auto simp: squid_client_init_def queue port unat_gt_0 word_neq_0_conv)
qed

subsection \<open>The samples release what they take\<close>

lemma local_transport_connect_contract:
  "ensures (local_transport_connect api old path) (\<lambda>(code, t) es.
     if code = 0 then listen_fd t = -1 \<and> 0 \<le> local_client_fd t \<and>
       acquired es = {#local_client_fd t#} \<and> released es = {#}
     else acquired es = released es \<or> length path \<ge> local_transport_socket_path_max)"
  unfolding local_transport_connect_def close_fd_def
  by (intro io_rules) (auto simp: local_init_transport_fields_def)

definition connected :: "(server_local_transport \<times> int) option \<Rightarrow> prog_event list \<Rightarrow> bool" where
  "connected r es \<longleftrightarrow>
     (case r of
        None \<Rightarrow> balanced es \<and> printed Std_Out es = [] \<and> printed Std_Err es \<noteq> []
      | Some (t, fd) \<Rightarrow> listen_fd t < 0 \<and> 0 \<le> local_client_fd t \<and> 0 \<le> fd \<and>
          acquired (on_transport es) = {#local_client_fd t#} \<and> released (on_transport es) = {#} \<and>
          squid_opened es = {#fd#} \<and> squid_closed es = {#} \<and>
          printed Std_Out es = [] \<and> printed Std_Err es = [])"

lemma connect_sample_contract: "ensures (connect_sample api stack channel) connected"
proof -
  have short: "length local_transport_default_socket_path < local_transport_socket_path_max"
    by code_simp
  show ?thesis
    unfolding connect_sample_def open_socket_def connect_socket_def
    by (intro io_rules ensures_phase_bind [OF local_transport_connect_contract]
          ensures_phase_bind [OF local_transport_close_contract])
       (use short in \<open>auto simp: connected_def balanced_def split: if_splits\<close>)
qed

definition released_by :: "server_local_transport \<Rightarrow> int \<Rightarrow> prog_event list \<Rightarrow> bool" where
  "released_by t fd es \<longleftrightarrow> acquired (on_transport es) = {#} \<and>
     released (on_transport es) = {#local_client_fd t#} \<and> squid_opened es = {#} \<and> squid_closed es = {#fd#} \<and>
     printed Std_Out es = [] \<and> printed Std_Err es = []"

lemma close_sample_contract:
  assumes "listen_fd t < 0" "0 \<le> local_client_fd t"
  shows "ensures (close_sample t fd) (\<lambda>_. released_by t fd)"
  unfolding close_sample_def
  by (intro io_rules ensures_phase_bind [OF local_transport_close_contract])
     (use assms in \<open>auto simp: released_by_def\<close>)

text \<open>Talking to the server touches neither transport nor socket.\<close>

definition keeps_open :: "prog_event list \<Rightarrow> bool" where
  "keeps_open es \<longleftrightarrow> on_transport es = [] \<and> squid_opened es = {#} \<and> squid_closed es = {#}"

lemma await_link_contract:
  "ensures (await_link api fuel) (\<lambda>_ es. keeps_open es \<and> printed Std_Out es = [] \<and> printed Std_Err es = [])"
proof (induction fuel)
  case (Suc fuel)
  show ?case
    unfolding await_link.simps by (intro io_rules ensures_mono [OF Suc.IH]) (auto simp: keeps_open_def)
qed (auto intro!: io_rules simp: keeps_open_def)

lemma sys_request_contract:
  "ensures (sys_request api fuel client command)
     (\<lambda>_ es. keeps_open es \<and> printed Std_Out es = [] \<and> printed Std_Err es = [])"
  unfolding sys_request_def by (intro io_rules ensures_resume_any) (auto simp: keeps_open_def)

lemma echo_lines_contract: "ensures (echo_lines api fuel client ls) (\<lambda>_. keeps_open)"
proof (induction ls arbitrary: client)
  case (Cons l ls)
  show ?case
    unfolding echo_lines.simps
    by (intro io_rules ensures_resume_any ensures_mono [OF Cons.IH])
       (auto simp: keeps_open_def intro!: io_rules ensures_mono [OF Cons.IH] split: sum.splits)
qed (auto intro!: io_rules simp: keeps_open_def)

text \<open>
  A run of the system sample that ends has released everything, and its exit code tells whether it
  printed the answer or an error.
\<close>

lemma sys_main_contract:
  "ensures (sys_main api fuel stack workspace program arguments) (\<lambda>r es.
     case r of None \<Rightarrow> True
     | Some code \<Rightarrow> balanced es \<and>
         (if code = 0 then length (printed Std_Out es) = 1 \<and> printed Std_Err es = []
          else code = 1 \<and> printed Std_Out es = [] \<and> printed Std_Err es \<noteq> []))"
  unfolding sys_main_def sys_session_def print_usage_def
  by (intro io_rules ensures_bind [OF connect_sample_contract] ensures_bind [OF await_link_contract]
        ensures_bind [OF sys_request_contract] ensures_bind [OF close_sample_contract])
     (auto simp: connected_def balanced_def keeps_open_def released_by_def)

subsection \<open>Echo from end to end\<close>

lemma serving_pump: "(serving_api core chunk)\<lparr>cl_idle := pump_squid\<rparr> = serving_api core chunk"
  by (simp add: serving_api_def pump_squid_def fun_eq_iff)

lemma echo_served:
  assumes "client_wf client" "packet_capacity client = 255" "line \<noteq> []" "length line \<le> 255" "255 \<le> fuel"
    and step: "in_step echo_core (trace s)"
  shows "\<exists>client' s' es. run_state (squid_client_echo (serving_api echo_core chunk) fuel client line
      (of_nat (length line))) s = (Some (Inr line, client'), s') \<and> trace s' = trace s @ es \<and>
    cl_sent es = frame line \<and> in_step echo_core (trace s') \<and> client_wf client' \<and> packet_capacity client' = 255"
proof -
  let ?client = "put_packet client 1 line"
  have n: "unat (of_nat (length line) :: u8) = length line"
    using assms(4) by (rule u8_length)
  then have "(of_nat (length line) :: u8) \<noteq> 0"
    using assms(3) by (metis length_0_conv unat_0)
  note n = n this
  have same: "same_client client ?client"
    using assms by (simp add: client_wf_def)
  have sent: "take (length line) (drop 1 (packet ?client)) = line"
    using assms by (simp add: buf_write_def client_wf_def)
  then have core: "echo_core (take (length line) (drop 1 (packet ?client))) = Some line"
    using assms(4) by (simp add: echo_core_def handle_echo_packet_def)
  obtain s' old where run: "run_state (squid_client_exchange (serving_api echo_core chunk) fuel ?client (length line)) s =
      (Some (int (length line), put_packet old 0 line), s')"
    and s': "in_step echo_core (trace s')" and old: "same_client ?client old"
    using serving_exchange [of ?client "length line" echo_core line s fuel chunk]
      assms core same_client_wf [OF same] by auto
  moreover obtain es where "trace s' = trace s @ es" "cl_sent es = frame line"
  proof (rule ensuresE [OF squid_client_exchange_contract [OF same_client_wf [OF same assms(1)]] run])
    fix es
    assume "trace s' = trace s @ es"
      "exchange_contract ?client (length line) (Some (int (length line), put_packet old 0 line)) es"
    then show thesis
      using assms(3) sent by (intro that) (auto simp: exchange_contract_def)
  qed
  moreover have "take (length line mod 256) (buf_write (packet old) 0 line) = line"
    using assms(4) by (simp add: take_buf_write_0)
  moreover have "client_wf (put_packet old 0 line) \<and> packet_capacity old = 255"
    using same_client_trans [OF same old] assms
    by (auto simp: same_client_def client_wf_def)
  ultimately show ?thesis
    using assms n by (auto simp: squid_client_echo_def exchange_reply_def)
qed

definition echoed :: "bytes list \<Rightarrow> bytes list" where
  "echoed ls = map (\<lambda>l. ascii ''< '' @ l @ [10]) (filter (\<lambda>l. l \<noteq> []) (map typed_line ls))"

lemma typed_line_text: "0 \<notin> set (typed_line line)" "length (typed_line line) \<le> length line"
proof -
  let ?t = "takeWhile (\<lambda>c. c \<noteq> 0) line"
  have "0 \<notin> set ?t" "length ?t \<le> length line"
    by (auto dest: set_takeWhileD simp: length_takeWhile_le)
  then show "0 \<notin> set (typed_line line)" "length (typed_line line) \<le> length line"
    by (auto simp: typed_line_def Let_def dest: in_set_butlastD)
qed

lemma printed_typed_line [simp]: "printed_text (typed_line line) = typed_line line"
  unfolding printed_text_def takeWhile_eq_all_conv using typed_line_text by metis

text \<open>The channel to which the program's socket is connected.\<close>

fun after_event :: "u8 option \<Rightarrow> prog_event \<Rightarrow> u8 option" where
  "after_event c (Pg_Connect _ channel r) = (if r = 0 then Some channel else c)"
| "after_event c (Pg_Close _) = None"
| "after_event c _ = c"

definition connected_channel :: "prog_event list \<Rightarrow> u8 option" where
  "connected_channel es = foldl after_event None es"

lemma after_events_client: "foldl after_event c (map Pg_Client cs) = c"
  by (induction cs) simp_all

lemma connected_channel_client [simp]: "connected_channel (es @ map Pg_Client cs) = connected_channel es"
  by (simp add: connected_channel_def after_events_client)

lemma in_step_Nil: "in_step core []"
  by (simp add: in_step_def peer_stream_def cl_sent_def cl_received_def)

text \<open>
  The other end of the socket of a program that is connected to a channel: the server, run on
  everything the program has sent since its start.
\<close>

definition linked_program ::
  "prog_api \<Rightarrow> plugin_registry \<Rightarrow> (bytes \<Rightarrow> bytes option) \<Rightarrow> (rt_event list \<Rightarrow> nat) \<Rightarrow> (cl_event list \<Rightarrow> nat) \<Rightarrow> bool" where
  "linked_program api reg core pieces chunk \<longleftrightarrow> (\<forall>h channel. connected_channel h = Some channel \<longrightarrow>
     pg_client api h = linked_client reg channel core pieces chunk)"

definition typed :: "bytes list \<Rightarrow> bytes list" where
  "typed ls = filter (\<lambda>l. l \<noteq> []) (map typed_line ls)"

lemma echo_lines_served:
  assumes api: "\<And>h. connected_channel h = Some channel \<Longrightarrow> pg_client api h = serving_api echo_core chunk"
    and fuel: "255 \<le> fuel"
    and "client_wf client" "packet_capacity client = 255" "list_all (\<lambda>l. length l \<le> 255) ls"
    and "connected_channel (trace s) = Some channel" "in_step echo_core (client_part (trace s))"
  shows "\<exists>s' es. run_state (echo_lines api fuel client ls) s = (True, s') \<and> trace s' = trace s @ es \<and>
    printed Std_Out es = echoed ls \<and> printed Std_Err es = [] \<and>
    in_step echo_core (client_part (trace s')) \<and> cl_sent (client_part es) = concat (map frame (typed ls))"
  using assms(3-)
proof (induction ls arbitrary: client s)
  case (Cons line ls)
  show ?case
  proof (cases "typed_line line = []")
    case True
    then show ?thesis
      using Cons by (simp add: echoed_def typed_def)
  next
    case False
    have short: "length (typed_line line) \<le> 255"
      using typed_line_text(2) [of line] Cons.prems(3) by simp
    let ?past = "\<lparr>trace = client_part (trace s), c_errno = c_errno s\<rparr> :: cl_event env"
    obtain client' s1 es1 where run: "run_state (squid_client_echo (serving_api echo_core chunk) fuel client
        (typed_line line) (of_nat (length (typed_line line)))) ?past = (Some (Inr (typed_line line), client'), s1)"
      and s1: "trace s1 = client_part (trace s) @ es1" "cl_sent es1 = frame (typed_line line)"
        "in_step echo_core (trace s1)" "client_wf client'" "packet_capacity client' = 255"
      using echo_served [OF Cons.prems(1,2) False short fuel, of ?past chunk] Cons.prems(5) by auto
    let ?text = "Pg_Print Std_Out (ascii ''< '' @ typed_line line @ [10])"
    define s2 where "s2 = \<lparr>trace = trace s @ map Pg_Client es1 @ [?text], c_errno = c_errno s1\<rparr>"
    have "connected_channel (trace s2) = Some channel"
      using Cons.prems(4) connected_channel_client [of "trace s" es1]
      by (simp add: s2_def connected_channel_def)
    then obtain s3 es3 where rest: "run_state (echo_lines api fuel client' ls) s2 = (True, s3)"
      "trace s3 = trace s2 @ es3" "printed Std_Out es3 = echoed ls" "printed Std_Err es3 = []"
      "in_step echo_core (client_part (trace s3))" "cl_sent (client_part es3) = concat (map frame (typed ls))"
      using Cons.IH [OF s1(4,5), of s2] Cons.prems(3) s1(1,3) by (auto simp: s2_def)
    have "run_state (resume client_event Pg_Client (\<lambda>h. squid_client_echo (sample_client api h) fuel client
        (typed_line line) (of_nat (length (typed_line line))))) s =
        (Some (Inr (typed_line line), client'), \<lparr>trace = trace s @ map Pg_Client es1, c_errno = c_errno s1\<rparr>)"
      using run s1(1) api [OF Cons.prems(4)]
      by (intro run_resume) (simp_all add: client_part_def sample_client_def serving_pump)
    then have "run_state (echo_lines api fuel client (line # ls)) s = (True, s3)"
      using rest(1) False by (simp add: s2_def emit_def)
    moreover have "trace s3 = trace s @ (map Pg_Client es1 @ ?text # es3)"
      using rest(2) by (simp add: s2_def)
    ultimately show ?thesis
      using rest(3-) s1(2) False by (auto simp: echoed_def typed_def)
  qed
qed (simp add: echoed_def typed_def)

lemma fgets_bound: "length (fst (fgets n input)) \<le> n"
  by (induction n input rule: fgets.induct) (auto split: prod.splits)

lemma fgets_lines_short: "list_all (\<lambda>l. length l \<le> 255) (fgets_lines input)"
proof (induction input rule: fgets_lines.induct)
  case (1 input)
  obtain line rest where step: "fgets 255 input = (line, rest)"
    by (metis surj_pair)
  then have "length line \<le> 255"
    using fgets_bound [of 255 input] by simp
  with 1 step show ?case
    by (subst fgets_lines.simps) (auto simp: SQUID_CLIENT_WORKSPACE_SIZE_def simp del: fgets.simps)
qed

text \<open>The server can be reached: it accepts connections, and libsquid has sockets to give and connects them.\<close>

definition reachable_server :: "prog_api \<Rightarrow> bool" where
  "reachable_server api \<longleftrightarrow>
     (\<forall>h h'. (\<exists>fd. k_socket (pg_transport api h) h' = Inr fd) \<and>
        (\<forall>fd path. k_connect (pg_transport api h) h' fd path = Inr ())) \<and>
     (\<forall>h a b. 0 \<le> pg_open api h a b) \<and> (\<forall>h fd channel. pg_connect api h fd channel = 0)"

lemma reachable_connects:
  assumes "reachable_server api"
  shows "ensures (local_transport_connect (pg_transport api h) old local_transport_default_socket_path)
    (\<lambda>(code, t) es. code = 0)"
proof -
  have short: "\<not> length local_transport_default_socket_path \<ge> local_transport_socket_path_max"
    by code_simp
  have "\<exists>fd. k_socket (pg_transport api h) h' = Inr fd" for h'
    using assms by (simp add: reachable_server_def)
  moreover have "k_connect (pg_transport api h) h' fd path = Inr ()" for h' fd path
    using assms by (simp add: reachable_server_def)
  ultimately show ?thesis
    unfolding local_transport_connect_def if_not_P [OF short] Let_def
    by (intro ensures_syscall_sat_bind [where P = "\<lambda>r. \<exists>fd. r = Inr fd"]
          ensures_option ensures_if ensures_return io_rules) (auto intro!: io_rules)
qed

lemma after_events_transport [simp]: "foldl after_event c (map Pg_Transport ts) = c"
  by (induction ts) simp_all

lemma connect_sample_reaches:
  assumes "reachable_server api"
  shows "ensures (connect_sample api stack channel)
    (\<lambda>r es. r \<noteq> None \<and> client_part es = [] \<and> connected_channel es = Some channel)"
proof -
  have fd: "0 \<le> pg_open api h a b" and connect: "pg_connect api h fd c = 0" for h a b fd c
    using assms by (simp_all add: reachable_server_def)
  have opened: "ensures (State_Monad.bind (open_socket api c) f) Q"
    if "\<And>a. 0 \<le> a \<Longrightarrow> ensures (f a) (\<lambda>b es. Q b (Pg_Open c c a # es))" for c f and Q :: "_ option \<Rightarrow> _"
    unfolding open_socket_def by (rule ensures_query_sat_bind [where P = "\<lambda>fd. 0 \<le> fd"]) (auto simp: fd that)
  have connected: "ensures (State_Monad.bind (connect_socket api a c) f) Q"
    if "ensures (f 0) (\<lambda>b es. Q b (Pg_Connect a c 0 # es))" for a c f and Q :: "_ option \<Rightarrow> _"
    unfolding connect_socket_def by (rule ensures_query_sat_bind [where P = "\<lambda>r. r = 0"]) (auto simp: connect that)
  show ?thesis
    unfolding connect_sample_def
    by (rule ensures_phase_bind [OF reachable_connects [OF assms]])
       (auto simp: connected_channel_def intro!: io_rules opened connected)
qed

lemma quiet_programs:
  "ensures (await_link api fuel) (\<lambda>_ es. client_part es = [] \<and> (\<forall>c. foldl after_event c es = c))"
  "ensures (close_sample t fd) (\<lambda>_ es. client_part es = [])"
proof (induction fuel)
  case (Suc fuel)
  show "ensures (await_link api (Suc fuel)) (\<lambda>_ es. client_part es = [] \<and> (\<forall>c. foldl after_event c es = c))"
    unfolding await_link.simps by (intro io_rules ensures_mono [OF Suc(1)]) auto
  show "ensures (close_sample t fd) (\<lambda>_ es. client_part es = [])"
    by (rule Suc(2))
qed (auto simp: close_sample_def intro!: io_rules ensures_phase_any)

lemma await_link_up:
  assumes "\<forall>h. n \<le> length h \<longrightarrow> pg_link_is_up api h"
  shows "n < length (trace s) + fuel \<Longrightarrow> 0 < fuel \<Longrightarrow> fst (run_state (await_link api fuel) s)"
proof (induction fuel arbitrary: s)
  case (Suc fuel)
  show ?case
  proof (cases "pg_link_is_up api (trace s)")
    case False
    then have "length (trace s) < n" using assms by (meson not_le)
    then have "0 < fuel" using Suc.prems by simp
    then show ?thesis
      using False Suc.IH [of "s\<lparr>trace := trace s @ [Pg_Link False, Pg_Burst]\<rparr>"] Suc.prems
      by (simp add: emit_def split_beta)
  qed simp
qed simp

lemma await_link_ensures:
  assumes "\<forall>h. n \<le> length h \<longrightarrow> pg_link_is_up api h" and "n < fuel"
  shows "ensures (await_link api fuel) (\<lambda>r es. r \<and> keeps_open es \<and> printed Std_Out es = [] \<and> printed Std_Err es = [])"
proof -
  have "fst (run_state (await_link api fuel) s)" for s
    using await_link_up [OF assms(1), of s fuel] assms(2) by simp
  then show ?thesis
    using await_link_contract [of api fuel] by (simp add: ensures_def)
qed

text \<open>
  C30. The echo sample echoes. The socket of the sample, once it is connected to a channel, is linked
  to the server's loop, one server for the whole run, with the echo plugin on the channel of the
  sample; the link is lossless, cuts the bytes into whatever pieces, and its handshake succeeds at
  some time. Then the sample ends with exit code 0 at the end of its input. It has sent every line
  it was given that is not empty (a line of more than 255 bytes in pieces), once and in order, has
  read every byte the server sent, has printed its banner and then, after \<open>< \<close>, those lines,
  nothing to the error stream, and has closed its socket and its connection.
\<close>

theorem echo_sample_echoes:
  assumes server: "reachable_server api" "hosts registry ECHO_CHANNEL"
      "linked_program api registry echo_core pieces chunk"
    and link: "\<forall>h. n \<le> length h \<longrightarrow> pg_link_is_up api h"
    and fuel: "n < fuel" "255 \<le> fuel"
    and workspace: "length workspace = SQUID_CLIENT_WORKSPACE_SIZE"
  shows "\<exists>s'. run_state (echo_main api fuel stack workspace stdin) \<lparr>trace = [], c_errno = e\<rparr> = (Some 0, s') \<and>
    balanced (trace s') \<and> printed Std_Err (trace s') = [] \<and>
    printed Std_Out (trace s') = echo_banner # echoed (fgets_lines stdin) \<and>
    cl_sent (client_part (trace s')) = concat (map frame (typed (fgets_lines stdin))) \<and>
    in_step echo_core (client_part (trace s'))"
proof -
  let ?s0 = "\<lparr>trace = [], c_errno = e\<rparr> :: prog_event env"
  have api: "pg_client api h = serving_api echo_core chunk" if "connected_channel h = Some ECHO_CHANNEL" for h
    using server(3) that linked_client_serving [OF server(2) echo_answers] unfolding linked_program_def by metis
  obtain r1 s1 where run1: "run_state (connect_sample api stack ECHO_CHANNEL) ?s0 = (r1, s1)"
    by (metis surj_pair)
  then obtain t fd where r1: "r1 = Some (t, fd)" and c1: "connected (Some (t, fd)) (trace s1)"
    "client_part (trace s1) = []" "connected_channel (trace s1) = Some ECHO_CHANNEL"
    by (rule ensuresE [OF ensures_conj [OF connect_sample_reaches [OF server(1)] connect_sample_contract]]) auto
  obtain r2 s2 where run2: "run_state (await_link api fuel) s1 = (r2, s2)"
    by (metis surj_pair)
  then obtain es2 where r2: "r2" and s2: "trace s2 = trace s1 @ es2" "keeps_open es2" "printed Std_Out es2 = []"
    "printed Std_Err es2 = []" "client_part es2 = []" "\<And>c. foldl after_event c es2 = c"
    by (rule ensuresE [OF ensures_conj [OF await_link_ensures [OF link fuel(1)] quiet_programs(1)]]) auto
  define s3 where "s3 = s2\<lparr>trace := trace s2 @ [Pg_Print Std_Out echo_banner]\<rparr>"
  have client: "client_wf (sample_workspace fd workspace)" "packet_capacity (sample_workspace fd workspace) = 255"
    using workspace
    by (simp_all add: sample_workspace_def squid_client_init_def client_wf_def SQUID_CLIENT_WORKSPACE_SIZE_def)
  have "connected_channel (trace s3) = Some ECHO_CHANNEL" "in_step echo_core (client_part (trace s3))"
    using c1 s2(1,5,6) in_step_Nil by (simp_all add: s3_def connected_channel_def)
  then obtain s4 es4 where run4: "run_state (echo_lines api fuel (sample_workspace fd workspace) (fgets_lines stdin)) s3 = (True, s4)"
    and s4: "trace s4 = trace s3 @ es4" "printed Std_Out es4 = echoed (fgets_lines stdin)" "printed Std_Err es4 = []"
      "in_step echo_core (client_part (trace s4))" "cl_sent (client_part es4) = concat (map frame (typed (fgets_lines stdin)))"
    using echo_lines_served [OF api fuel(2) client fgets_lines_short, of ECHO_CHANNEL s3 stdin] by blast
  obtain s5 where run5: "run_state (close_sample t fd) s4 = ((), s5)"
    by (metis surj_pair old.unit.exhaust)
  have "listen_fd t < 0" "0 \<le> local_client_fd t"
    using c1(1) by (simp_all add: connected_def)
  then obtain es5 where s5: "trace s5 = trace s4 @ es5" "released_by t fd es5" "client_part es5 = []"
    by (rule ensuresE [OF ensures_conj [OF close_sample_contract quiet_programs(2)] run5]) auto
  have es4: "keeps_open es4"
    using ensuresE [OF echo_lines_contract run4] s4(1) by (metis same_append_eq)
  have "run_state (echo_main api fuel stack workspace stdin) ?s0 = (Some 0, s5)"
    using run1 r1 run2 r2 run4 run5 by (simp add: echo_main_def emit_def s3_def)
  moreover have "client_part (trace s5) = client_part es4" "in_step echo_core (client_part (trace s5))"
    using s4 s5 s2 c1 by (simp_all add: s3_def)
  moreover have "balanced (trace s5)" "printed Std_Err (trace s5) = []"
    "printed Std_Out (trace s5) = echo_banner # echoed (fgets_lines stdin)"
    using c1(1) s2 s4 s5 es4 by (simp_all add: s3_def connected_def balanced_def keeps_open_def released_by_def)
  ultimately show ?thesis
    using s4(5) by auto
qed

definition demo_programs :: prog_api where
  "demo_programs = \<lparr>pg_transport = (\<lambda>_. calm_kernel), pg_client = (\<lambda>h. linked_client demo_registry (the (connected_channel h)) echo_core (\<lambda>_. 3) (\<lambda>_. 2)),
     pg_open = (\<lambda>_ _ _. 3), pg_connect = (\<lambda>_ _ _. 0), pg_link_is_up = (\<lambda>h. 6 \<le> length h),
     SQUID_PAYLOAD_MAX = 112, SQUID_PAYLOAD_DEFAULT = 64\<rparr>"

definition demo_input :: bytes where
  "demo_input = ascii ''hi'' @ [10, 10] @ ascii ''ok''"

lemma demo_echoed: "echoed (fgets_lines demo_input) = [ascii ''< hi'' @ [10], ascii ''< ok'' @ [10]]"
  by code_simp

theorem echo_sample_echoes_witness:
  "\<exists>s'. run_state (echo_main demo_programs 255 \<lparr>listen_fd = 0, local_client_fd = 0, socket_path = []\<rparr>
     (replicate SQUID_CLIENT_WORKSPACE_SIZE 0) demo_input) \<lparr>trace = [], c_errno = E_OK\<rparr> = (Some 0, s') \<and>
    balanced (trace s') \<and> printed Std_Err (trace s') = [] \<and>
    printed Std_Out (trace s') = [echo_banner, ascii ''< hi'' @ [10], ascii ''< ok'' @ [10]] \<and>
    cl_sent (client_part (trace s')) = concat (map frame (typed (fgets_lines demo_input))) \<and>
    in_step echo_core (client_part (trace s'))"
  unfolding demo_echoed [symmetric]
  by (rule echo_sample_echoes [where n = 6 and chunk = "\<lambda>_. 2" and pieces = "\<lambda>_. 3" and
        registry = demo_registry])
     (simp_all add: demo_registry_hosts demo_programs_def reachable_server_def calm_kernel_def
       linked_program_def ECHO_CHANNEL_def)

end
