(* ===== verification/Retro_Text.thy ===== *)
theory Retro_Text
  imports Retro_Walk
begin

text \<open>
  Texts of the catalogue are UTF-8: a text that is cut is cut between two characters.
\<close>

subsection \<open>Characters\<close>

text \<open>A byte that continues a UTF-8 sequence.\<close>

definition continues :: "u8 \<Rightarrow> bool" where
  "continues b \<longleftrightarrow> b AND 0xC0 = 0x80"

lemma continues_bits: "continues b \<longleftrightarrow> bit b 7 \<and> \<not> bit b 6"
proof -
  have small: "n < 8 \<longleftrightarrow> n = 0 \<or> n = 1 \<or> n = 2 \<or> n = 3 \<or> n = 4 \<or> n = 5 \<or> n = 6 \<or> n = (7::nat)" for n
    by arith
  have "continues b \<longleftrightarrow> (\<forall>n < 8. bit (b AND 0xC0) n = bit (0x80 :: u8) n)"
    unfolding continues_def by (auto intro!: bit_word_eqI)
  also have "\<dots> \<longleftrightarrow> bit b 7 \<and> \<not> bit b 6"
    unfolding small by (auto simp: bit_simps)
  finally show ?thesis .
qed

lemma ascii_not_bit:
  fixes c :: u32
  assumes "c \<le> 0x7F"
  shows "\<not> bit c 7"
proof -
  have "unat c < 128"
    using assms by (simp add: word_le_nat_alt)
  then have "\<not> bit (unat c) 7"
    by (simp add: bit_iff_odd)
  then show ?thesis
    by (simp add: bit_unsigned_iff)
qed

lemma encode_utf8_shape:
  obtains h t where "encode_utf8 c = h # t" and "\<not> continues h" and "list_all continues t" and "length t \<le> 3"
proof -
  have "\<not> continues (hd (encode_utf8 c))" "list_all continues (tl (encode_utf8 c))" "length (encode_utf8 c) \<le> 4"
    "encode_utf8 c \<noteq> []"
    using ascii_not_bit [of c] by (auto simp: encode_utf8_def continues_bits bit_simps)
  then show ?thesis
    by (intro that [of "hd (encode_utf8 c)" "tl (encode_utf8 c)"]) auto
qed

subsection \<open>Cutting between characters\<close>

abbreviation utf8_text :: "u32 list \<Rightarrow> bytes" where
  "utf8_text cs \<equiv> concat (map encode_utf8 cs)"

definition character_boundary :: "u32 list \<Rightarrow> nat \<Rightarrow> bool" where
  "character_boundary cs i \<longleftrightarrow> (\<exists>k. take i (utf8_text cs) = utf8_text (take k cs))"

lemma char_at_append: "char_at (a @ b) i = (if i < length a then a ! i else char_at b (i - length a))"
  by (auto simp: char_at_def nth_append)

lemma not_continues_0: "\<not> continues 0"
  by (simp add: continues_def)

lemma starts_at_boundary:
  "i \<le> length (utf8_text cs) \<Longrightarrow> \<not> continues (char_at (utf8_text cs) i) \<Longrightarrow> character_boundary cs i"
proof (induction cs arbitrary: i)
  case (Cons c cs)
  obtain h t where c: "encode_utf8 c = h # t" "list_all continues t"
    by (rule encode_utf8_shape)
  consider "i = 0" | "0 < i" "i < length (encode_utf8 c)" | "length (encode_utf8 c) \<le> i"
    by linarith
  then show ?case
  proof cases
    case 1
    then show ?thesis by (auto simp: character_boundary_def intro: exI [of _ 0])
  next
    case 2
    then have "continues (encode_utf8 c ! i)"
      using c by (auto simp: nth_Cons' list_all_length)
    with 2 Cons.prems show ?thesis by (simp add: char_at_append)
  next
    case 3
    with Cons have "character_boundary cs (i - length (encode_utf8 c))"
      by (auto simp: char_at_append)
    then obtain k where "take (i - length (encode_utf8 c)) (utf8_text cs) = utf8_text (take k cs)"
      by (auto simp: character_boundary_def)
    with 3 show ?thesis
      unfolding character_boundary_def by (intro exI [of _ "Suc k"]) simp
  qed
qed (simp add: character_boundary_def)

lemma start_nearby:
  "i \<le> length (utf8_text cs) \<Longrightarrow> \<exists>j \<le> i. i \<le> j + 3 \<and> \<not> continues (char_at (utf8_text cs) j)"
proof (induction cs arbitrary: i)
  case Nil
  then show ?case by (simp add: char_at_def not_continues_0)
next
  case (Cons c cs)
  obtain h t where c: "encode_utf8 c = h # t" "\<not> continues h" "length t \<le> 3"
    by (rule encode_utf8_shape)
  show ?case
  proof (cases "i < length (encode_utf8 c)")
    case True
    then show ?thesis
      using c by (intro exI [of _ 0]) (auto simp: char_at_def)
  next
    case False
    have "i - length (encode_utf8 c) \<le> length (utf8_text cs)"
      using Cons.prems by simp
    from Cons.IH [OF this] obtain j where "j \<le> i - length (encode_utf8 c)"
      "i - length (encode_utf8 c) \<le> j + 3" "\<not> continues (char_at (utf8_text cs) j)"
      by blast
    with False show ?thesis
      by (intro exI [of _ "j + length (encode_utf8 c)"]) (auto simp: char_at_append)
  qed
qed

lemma utf8_boundary_ge: "j \<le> n \<Longrightarrow> \<not> continues (char_at t j) \<Longrightarrow> j \<le> utf8_boundary t n"
  by (induction n) (auto simp: le_Suc_eq continues_def)

lemma utf8_boundary_start: "utf8_boundary t n = 0 \<or> \<not> continues (char_at t (utf8_boundary t n))"
  by (induction n) (auto simp: continues_def)

lemma utf8_boundary_character:
  assumes "n \<le> length (utf8_text cs)"
  shows "character_boundary cs (utf8_boundary (utf8_text cs) n)" and "n \<le> utf8_boundary (utf8_text cs) n + 3"
proof -
  show "character_boundary cs (utf8_boundary (utf8_text cs) n)"
  proof (cases "utf8_boundary (utf8_text cs) n = 0")
    case True
    then show ?thesis by (auto simp: character_boundary_def intro: exI [of _ 0])
  next
    case False
    then show ?thesis
      using utf8_boundary_start [of "utf8_text cs" n] order_trans [OF utf8_boundary_le assms]
      by (intro starts_at_boundary) auto
  qed
  obtain j where "j \<le> n" "n \<le> j + 3" "\<not> continues (char_at (utf8_text cs) j)"
    using start_nearby [OF assms] by blast
  then show "n \<le> utf8_boundary (utf8_text cs) n + 3"
    using utf8_boundary_ge [of j n "utf8_text cs"] by simp
qed

subsection \<open>Properties\<close>

text \<open>
  C19. A UTF-8 text that does not fit is cut between two characters: what is kept is the encoding of
  some of its first characters, and it falls short of the room by at most three bytes; a text that
  fits is kept whole. This holds of the names in LIST and SEARCH entries and of the texts in INFO
  values, whose rooms are below 256 bytes, and of the parts of a download record.
\<close>

theorem text_cut_between_characters:
  "(let t = utf8_text cs; n = cut_size t (unat (room :: u8)) in
      character_boundary cs n \<and> n \<le> unat room \<and>
      (if length t \<le> unat room then take n t = t else unat room \<le> n + 3)) \<and>
   (let t = utf8_text cs; r = append_counted_text (Suc (unat room)) t most in
      \<exists>n. r = of_nat n # take n t \<and> n \<le> most \<and> n \<le> unat room \<and> character_boundary cs n \<and>
        min (length t) (min most (unat room)) \<le> n + 3)"
proof -
  let ?t = "utf8_text cs"
  have room: "unat room \<le> 255" by (rule unat_u8_le)
  have whole: "character_boundary cs (length ?t)"
    by (auto simp: character_boundary_def intro: exI [of _ "length cs"])
  have cut: "cut_size ?t (unat room) = (if length ?t > unat room then utf8_boundary ?t (unat room) else length ?t)"
    using utf8_boundary_le [of ?t "unat room"] room by (simp add: cut_size_def Let_def)
  have "min (min (min (length ?t) most) (unat room)) 255 = min (length ?t) (min most (unat room))"
    using room by simp
  then obtain n where "append_counted_text (Suc (unat room)) ?t most = of_nat n # take n ?t"
    "n \<le> most" "n \<le> unat room" "n = utf8_boundary ?t (min (length ?t) (min most (unat room)))"
    by (metis append_counted_text_shape [of "Suc (unat room)" ?t most] diff_Suc_1 le_add1 plus_1_eq_Suc)
  moreover have "min (length ?t) (min most (unat room)) \<le> length ?t" by simp
  note utf8_boundary_character [OF this]
  ultimately have "\<exists>n. append_counted_text (Suc (unat room)) ?t most = of_nat n # take n ?t \<and> n \<le> most \<and>
      n \<le> unat room \<and> character_boundary cs n \<and> min (length ?t) (min most (unat room)) \<le> n + 3"
    by (intro exI [of _ n]) simp
  then show ?thesis
    using utf8_boundary_character [of "unat room" cs] whole utf8_boundary_le [of ?t "unat room"]
    by (simp add: cut Let_def)
qed

end
