(* ===== verification/Retro_Json_Render.thy ===== *)
theory Retro_Json_Render
  imports Retro_Json_Properties
begin

text \<open>
  A printer for JSON documents, used as the specification of the reader: a document that is
  printed is parsed, and looking things up in the parsed value finds the printed parts.
\<close>

datatype json = JNull | JBool bool | JNumber nat | JString bytes | JArray "json list"
  | JObject "(bytes \<times> json) list"

subsection \<open>The printer\<close>

definition hex_char :: "u8 \<Rightarrow> u8" where
  "hex_char d = (if d < 10 then 0x30 + d else 0x61 + (d - 10))"

definition render_char :: "u8 \<Rightarrow> bytes" where
  "render_char c =
     (if c = quote \<or> c = backslash then [backslash, c]
      else if c < 0x20 then [backslash, letter_u, 0x30, 0x30, hex_char (c div 16), hex_char (c mod 16)]
      else [c])"

definition render_string :: "bytes \<Rightarrow> bytes" where
  "render_string s = quote # concat (map render_char s) @ [quote]"

fun join :: "bytes list \<Rightarrow> bytes" where
  "join [] = []"
| "join [x] = x"
| "join (x # y # ys) = x @ comma # join (y # ys)"

fun render :: "json \<Rightarrow> bytes" where
  "render JNull = ascii ''null''"
| "render (JBool b) = (if b then ascii ''true'' else ascii ''false'')"
| "render (JNumber n) = show_nat n"
| "render (JString s) = render_string s"
| "render (JArray xs) = bracket_open # join (map render xs) @ [bracket_close]"
| "render (JObject ms) =
     brace_open # join (map (\<lambda>(k, v). render_string k @ colon # render v) ms) @ [brace_close]"

fun json_kind :: "json \<Rightarrow> retro_vault_json_type" where
  "json_kind JNull = retro_vault_json_null"
| "json_kind (JBool b) = retro_vault_json_boolean"
| "json_kind (JNumber n) = retro_vault_json_number"
| "json_kind (JString s) = retro_vault_json_string"
| "json_kind (JArray xs) = retro_vault_json_array"
| "json_kind (JObject ms) = retro_vault_json_object"

definition value_of :: "json \<Rightarrow> retro_vault_json_value" where
  "value_of j = \<lparr>json_type = json_kind j, json_text = render j\<rparr>"

text \<open>The nesting levels a document needs.\<close>

fun levels :: "json \<Rightarrow> nat" where
  "levels (JArray xs) = Suc (foldr max (map levels xs) 0)"
| "levels (JObject ms) = Suc (foldr max (map (\<lambda>(k, v). levels v) ms) 0)"
| "levels _ = 1"

subsection \<open>Strings\<close>

lemma control_char_digits:
  assumes "(c :: u8) < 0x20"
  shows "isxdigit (hex_char (c div 16)) \<and> isxdigit (hex_char (c mod 16)) \<and>
    decode_hex_quad [0x30, 0x30, hex_char (c div 16), hex_char (c mod 16)] = Some (ucast c) \<and>
    encode_utf8 (ucast c) = [c] \<and> (ucast c :: u32) < 0xD800"
proof -
  let ?ok = "\<lambda>c :: u8. isxdigit (hex_char (c div 16)) \<and> isxdigit (hex_char (c mod 16)) \<and>
    decode_hex_quad [0x30, 0x30, hex_char (c div 16), hex_char (c mod 16)] = Some (ucast c) \<and>
    encode_utf8 (ucast c) = [c] \<and> (ucast c :: u32) < 0xD800"
  have "list_all ?ok (map of_nat [0..<32])"
    by code_simp
  moreover have "c \<in> set (map of_nat [0..<32])"
    using assms by (intro image_eqI [of _ _ "unat c"] | simp add: word_less_nat_alt)+
  ultimately show ?thesis
    by (auto simp: list_all_iff)
qed

lemma decode_control_char:
  assumes "(c :: u8) < 0x20"
  shows "decode_unicode (0x30 # 0x30 # hex_char (c div 16) # hex_char (c mod 16) # rest) = Some (ucast c, rest)"
proof -
  have small: "\<not> 0xD800 \<le> (ucast c :: u32)"
    using control_char_digits [OF assms] by (simp add: not_le)
  have "decode_hex_quad (0x30 # 0x30 # hex_char (c div 16) # hex_char (c mod 16) # rest) = Some (ucast c)"
    using control_char_digits [OF assms] by (simp add: decode_hex_quad_def)
  then show ?thesis
    using small by (simp add: decode_unicode_def)
qed

lemma render_char_cases:
  obtains "render_char c = [backslash, c]" "c = quote \<or> c = backslash"
  | "render_char c = [backslash, letter_u, 0x30, 0x30, hex_char (c div 16), hex_char (c mod 16)]" "c < 0x20"
  | "render_char c = [c]" "c \<noteq> quote" "c \<noteq> backslash" "\<not> c < 0x20"
  by (cases "c = quote \<or> c = backslash"; cases "c < 0x20") (auto simp: render_char_def)

lemma string_body_render_char: "string_body (render_char c @ rest) = string_body rest"
proof (cases c rule: render_char_cases)
  case 1
  then show ?thesis by (auto simp: simple_escape_def)
next
  case 2
  then show ?thesis
    using control_char_digits [OF 2(2)]
    by (simp add: simple_escape_def isxdigit_def isdigit_def)
next
  case 3
  then show ?thesis by simp
qed

lemma decode_body_render_char:
  "decode_body (render_char c @ rest) = map_option ((#) c) (decode_body rest)"
proof (cases c rule: render_char_cases)
  case 1
  then show ?thesis by (auto simp: unescape_def)
next
  case 2
  moreover have "(@) [c] = (#) c" by auto
  ultimately show ?thesis
    using control_char_digits [OF 2(2)] decode_control_char [OF 2(2)] by simp
next
  case 3
  then show ?thesis by simp
qed

lemma string_body_render: "string_body (concat (map render_char s) @ quote # rest) = Some rest"
  by (induction s) (simp_all add: string_body_render_char)

lemma decode_body_render: "decode_body (concat (map render_char s)) = Some s"
  by (induction s) (simp_all add: decode_body_render_char)

lemma parse_string_end_render: "parse_string_end (render_string s @ rest) = Some rest"
  by (simp add: parse_string_end_def render_string_def string_body_render)

lemma duplicate_render: "duplicate_retro_vault_json_string (value_of (JString s)) = Some s"
  by (simp add: duplicate_retro_vault_json_string_def value_of_def render_string_def
      decode_body_render)

subsection \<open>Numbers\<close>

lemma show_nat_length: "n < 10 ^ Suc k \<Longrightarrow> length (show_nat n) \<le> Suc k"
proof (induction k arbitrary: n)
  case 0
  then show ?case by (subst show_nat.simps) simp
next
  case (Suc k)
  then have "n div 10 < 10 ^ Suc k" by (simp add: less_mult_imp_div_less)
  with Suc.IH [of "n div 10"] show ?case by (subst show_nat.simps) simp
qed

lemma uint64_render:
  "get_retro_vault_json_uint64 (value_of (JNumber n)) = (if n < 2 ^ 64 then Some (of_nat n) else None)"
proof -
  have "length (show_nat n) < 32" if "n < 2 ^ 64"
    using show_nat_length [of n 19] that by simp
  moreover have "show_nat n \<noteq> []" "list_all isdigit (show_nat n)" "digits_value 0 (show_nat n) = int n"
    using show_nat_props [of n] by (simp_all add: list_all_iff)
  moreover from this have "hd (show_nat n) \<noteq> minus_sign"
    using isdigit_not_space [of "hd (show_nat n)"] by (auto simp: list_all_iff)
  moreover have "int n < 2 ^ 64 \<longleftrightarrow> n < 2 ^ 64"
    by simp
  ultimately show ?thesis
    by (auto simp: get_retro_vault_json_uint64_def value_of_def Let_def)
qed

subsection \<open>Values\<close>

definition stops :: "json \<Rightarrow> bytes \<Rightarrow> bool" where
  "stops j rest \<longleftrightarrow> (case j of JNumber _ \<Rightarrow> rest = [] \<or> \<not> number_char (hd rest) | _ \<Rightarrow> True)"

lemma hd_render: "render j \<noteq> [] \<and> \<not> isspace (hd (render j))"
proof (cases j)
  case (JNumber n)
  then show ?thesis
    using show_nat_props [of n] isdigit_not_space by auto
qed (auto simp: ascii_Cons isspace_def render_string_def)

lemma skip_space_no_space: "bs \<noteq> [] \<Longrightarrow> \<not> isspace (hd bs) \<Longrightarrow> skip_space bs = bs"
  by (cases bs) (simp_all add: skip_space_def)

lemma skip_space_render [simp]: "skip_space (render j @ rest) = render j @ rest"
  using hd_render [of j] by (intro skip_space_no_space) auto

lemma stops_delimiter [simp]:
  "stops j (comma # rest)" "stops j (bracket_close # rest)" "stops j (brace_close # rest)"
  by (cases j; simp add: stops_def number_char_def isdigit_def)+

lemma skip_space_delimiter [simp]:
  "skip_space (comma # rest) = comma # rest" "skip_space (colon # rest) = colon # rest"
  "skip_space (bracket_close # rest) = bracket_close # rest"
  "skip_space (brace_close # rest) = brace_close # rest"
  "skip_space (render_string s @ rest) = render_string s @ rest"
  by (simp_all add: skip_space_def isspace_def render_string_def)

definition reads :: "(bytes \<Rightarrow> (retro_vault_json_value \<times> bytes) option) \<Rightarrow> json \<Rightarrow> bool" where
  "reads child j \<longleftrightarrow> (\<forall>rest. stops j rest \<longrightarrow> child (render j @ rest) = Some (value_of j, rest))"

lemma readsD: "reads child j \<Longrightarrow> stops j rest \<Longrightarrow> child (render j @ rest) = Some (value_of j, rest)"
  by (simp add: reads_def)

lemma elements_loop_render:
  "xs \<noteq> [] \<Longrightarrow> list_all (reads child) xs \<Longrightarrow> length xs \<le> fuel \<Longrightarrow>
     elements_loop child fuel (join (map render xs) @ bracket_close # rest) = Some rest"
proof (induction xs arbitrary: fuel rule: induct_list012)
  case (2 x)
  then show ?case by (cases fuel) (simp_all add: readsD)
next
  case (3 x y ys)
  then show ?case by (cases fuel) (simp_all add: readsD)
qed simp

abbreviation render_member :: "bytes \<times> json \<Rightarrow> bytes" where
  "render_member \<equiv> (\<lambda>(k, v). render_string k @ colon # render v)"

lemma members_loop_render:
  "ms \<noteq> [] \<Longrightarrow> list_all (reads child \<circ> snd) ms \<Longrightarrow> length ms \<le> fuel \<Longrightarrow>
     members_loop child fuel (join (map render_member ms) @ brace_close # rest) = Some rest"
proof (induction ms arbitrary: fuel rule: induct_list012)
  case (2 m)
  then show ?case
    by (cases fuel; cases m) (simp_all add: readsD parse_string_end_render)
next
  case (3 m m' ms)
  then show ?case
    by (cases fuel; cases m) (simp_all add: readsD parse_string_end_render)
qed simp

lemma length_join: "list_all (\<lambda>x. x \<noteq> []) xs \<Longrightarrow> length xs \<le> length (join xs)"
proof (induction xs rule: join.induct)
  case (2 x)
  then show ?case by (cases x) auto
next
  case (3 x y ys)
  then show ?case by (cases x) auto
qed simp

lemma levels_le: "x \<in> set xs \<Longrightarrow> f x \<le> foldr max (map f xs) (0 :: nat)"
  by (induction xs) auto

lemma parse_scalar_render:
  "parse_scalar (ascii ''null'' @ rest) = Some (value_of JNull, rest)"
  "parse_scalar (ascii ''true'' @ rest) = Some (value_of (JBool True), rest)"
  "parse_scalar (ascii ''false'' @ rest) = Some (value_of (JBool False), rest)"
  by (simp_all add: parse_scalar_def value_of_def value_between_def ascii_Cons)

lemma parse_scalar_number:
  assumes "stops (JNumber n) rest"
  shows "parse_scalar (show_nat n @ rest) = Some (value_of (JNumber n), rest)"
proof -
  obtain c cs where n: "show_nat n = c # cs"
    using show_nat_props [of n] by (cases "show_nat n") auto
  have c: "isdigit c" "\<forall>d \<in> set cs. number_char d"
    using show_nat_props [of n] by (auto simp: n number_char_def)
  then have "c \<noteq> of_char CHR ''t''" "c \<noteq> of_char CHR ''f''" "c \<noteq> of_char CHR ''n''"
    by (auto simp: isdigit_def)
  moreover have "dropWhile number_char (cs @ rest) = rest"
    using c(2) assms by (cases rest) (auto simp: stops_def dropWhile_append)
  ultimately show ?thesis
    using c(1) value_between_append [of retro_vault_json_number "c # cs" rest]
    by (simp add: parse_scalar_def n value_of_def ascii_Cons)
qed

lemma hd_render_open: "hd (render j) \<noteq> bracket_close \<and> hd (render j) \<noteq> brace_close"
proof (cases j)
  case (JNumber n)
  then show ?thesis
    using show_nat_props [of n] by (cases "show_nat n") (auto simp: isdigit_def)
qed (auto simp: ascii_Cons render_string_def)

lemma hd_join: "xs \<noteq> [] \<Longrightarrow> hd xs \<noteq> [] \<Longrightarrow> join xs \<noteq> [] \<and> hd (join xs) = hd (hd xs)"
  by (induction xs rule: join.induct) auto

lemma parse_array_render:
  assumes "list_all (reads child) xs"
  shows "parse_array child (join (map render xs) @ bracket_close # rest) = Some rest"
proof (cases xs)
  case (Cons x ys)
  let ?current = "join (map render xs) @ bracket_close # rest"
  have first: "join (map render xs) \<noteq> []" "hd (join (map render xs)) = hd (render x)"
    using hd_join [of "map render xs"] hd_render [of x] by (simp_all add: Cons)
  then have skip: "skip_space ?current = ?current"
    using hd_render [of x] by (intro skip_space_no_space) auto
  have "length xs \<le> length (join (map render xs))"
    using length_join [of "map render xs"] hd_render by (auto simp: list_all_iff)
  then have "elements_loop child (length ?current) ?current = Some rest"
    using Cons assms by (intro elements_loop_render) auto
  moreover obtain d tail where "?current = d # tail" "d \<noteq> bracket_close"
    using first hd_render_open [of x] by (cases "join (map render xs)") auto
  ultimately show ?thesis
    using skip by (simp add: parse_array_def del: elements_loop.simps)
qed (simp add: parse_array_def)

lemma parse_object_render:
  assumes "list_all (reads child \<circ> snd) ms"
  shows "parse_object child (join (map render_member ms) @ brace_close # rest) = Some rest"
proof (cases ms)
  case (Cons m ns)
  let ?current = "join (map render_member ms) @ brace_close # rest"
  have first: "join (map render_member ms) \<noteq> []" "hd (join (map render_member ms)) = quote"
    using hd_join [of "map render_member ms"]
    by (simp_all add: Cons render_string_def split: prod.splits)
  then have skip: "skip_space ?current = ?current"
    by (intro skip_space_no_space) (auto simp: isspace_def)
  have "length ms \<le> length (join (map render_member ms))"
    using length_join [of "map render_member ms"]
    by (auto simp: list_all_iff split_beta)
  then have "members_loop child (length ?current) ?current = Some rest"
    using Cons assms by (intro members_loop_render) auto
  moreover obtain d tail where "?current = d # tail" "d \<noteq> brace_close"
    using first by (cases "join (map render_member ms)") auto
  ultimately show ?thesis
    using skip by (simp add: parse_object_def del: members_loop.simps)
qed (simp add: parse_object_def)

lemma parse_render: "levels j \<le> n \<Longrightarrow> reads (parse_value_levels n) j"
proof (induction j arbitrary: n)
  case (JArray xs)
  then obtain k where n: "n = Suc k" by (cases n) auto
  have "list_all (reads (parse_value_levels k)) xs"
    using JArray.prems levels_le [of _ xs levels]
    by (auto simp: n list_all_iff intro!: JArray.IH intro: order_trans)
  note inner = parse_array_render [OF this]
  show ?case
    using inner value_between_append [of retro_vault_json_array "render (JArray xs)"]
    by (simp add: reads_def n skip_space_def isspace_def Let_def value_of_def)
next
  case (JObject ms)
  then obtain k where n: "n = Suc k" by (cases n) auto
  have "list_all (reads (parse_value_levels k) \<circ> snd) ms"
    using JObject levels_le [of _ ms "\<lambda>(k, v). levels v"] by (fastforce simp: n list_all_iff)
  note inner = parse_object_render [OF this]
  show ?case
    using inner value_between_append [of retro_vault_json_object "render (JObject ms)"]
    by (simp add: reads_def n skip_space_def isspace_def Let_def value_of_def)
next
  case (JNumber m)
  then obtain k where n: "n = Suc k" by (cases n) auto
  obtain c cs where m: "show_nat m = c # cs" "isdigit c"
    using show_nat_props [of m] by (cases "show_nat m") auto
  then have "c \<noteq> quote" "c \<noteq> brace_open" "c \<noteq> bracket_open"
    by (auto simp: isdigit_def)
  then show ?case
    using parse_scalar_number [of m] skip_space_render [of "JNumber m"] m
    by (auto simp: reads_def n Let_def)
next
  case (JString s)
  then obtain k where n: "n = Suc k" by (cases n) auto
  show ?case
    using parse_string_end_render [of s] value_between_append [of retro_vault_json_string "render_string s"]
    by (simp add: reads_def n Let_def value_of_def render_string_def skip_space_def isspace_def)
next
  case JNull
  then obtain k where n: "n = Suc k" by (cases n) auto
  show ?case
    using parse_scalar_render(1) skip_space_render [of JNull]
    by (auto simp: reads_def n Let_def split: list.splits) (auto simp: ascii_Cons)
next
  case (JBool b)
  then obtain k where n: "n = Suc k" by (cases n) auto
  show ?case
    using parse_scalar_render(2,3) skip_space_render [of "JBool b"]
    by (auto simp: reads_def n Let_def split: list.splits if_splits) (auto simp: ascii_Cons)
qed

subsection \<open>Documents\<close>

text \<open>Every part is looked up afresh, with all the levels available.\<close>

lemma internal_render:
  assumes "levels j \<le> 33" and "stops j rest"
  shows "parse_value_internal (render j @ rest) 0 = Some (value_of j, rest)"
  using readsD [OF parse_render [of j 33] assms(2)] assms(1)
  by (simp add: parse_value_internal_def retro_vault_json_max_depth_def del: parse_value_levels.simps)

lemma parse_value_levels_skip:
  "skip_space a = skip_space b \<Longrightarrow> parse_value_levels n a = parse_value_levels n b"
  by (cases n) simp_all

lemma blank_after_number: "list_all isspace after \<Longrightarrow> stops j after"
  by (cases after) (auto simp: stops_def number_char_def isspace_def split: json.splits
      dest: isdigit_not_space)

lemma document_render:
  assumes "levels j \<le> 33" "list_all isspace before" "list_all isspace after"
  shows "parse_retro_vault_json (before @ render j @ after) = Some (value_of j)"
proof -
  have "skip_space (before @ render j @ after) = skip_space (render j @ after)"
    using assms(2) by (simp add: skip_space_def list_all_iff)
  then have "parse_value_internal (before @ render j @ after) 0 = parse_value_internal (render j @ after) 0"
    unfolding parse_value_internal_def by (rule parse_value_levels_skip)
  moreover have "skip_space after = []"
    using assms(3) by (simp add: skip_space_def list_all_iff)
  ultimately show ?thesis
    using internal_render [OF assms(1) blank_after_number [OF assms(3)]]
    by (simp add: parse_retro_vault_json_def)
qed

lemma key_render:
  "parse_value_internal (render_string k @ rest) 0 = Some (value_of (JString k), rest)"
  "json_string_matches (value_of (JString k)) name \<longleftrightarrow> c_string k = name"
  using internal_render [of "JString k" rest]
  by (simp_all add: stops_def json_string_matches_def duplicate_render)

lemma stops_Nil [simp]: "stops j []"
  by (simp add: stops_def split: json.splits)

lemma render_string_not_Nil [simp]: "render_string k \<noteq> []" "json_type (value_of j) = json_kind j"
  by (simp_all add: render_string_def value_of_def)

lemma find_member_render:
  "list_all (\<lambda>(k, v). levels v \<le> 33) ms \<Longrightarrow> length ms < fuel \<Longrightarrow>
     find_member fuel (join (map render_member ms)) name =
       Inr (map_option value_of (map_of (map (apfst c_string) ms) name))"
proof (induction ms arbitrary: fuel rule: induct_list012)
  case 1
  then show ?case by (cases fuel) (simp_all add: skip_space_def)
next
  case (2 m)
  then show ?case
    using internal_render [of "snd m" "[]"]
    by (cases fuel; cases m) (auto simp: key_render skip_space_def [of "[]"])
next
  case (3 m m' ms)
  then show ?case
    using internal_render [of "snd m"]
    by (cases fuel; cases m) (auto simp: key_render)
qed

lemma array_values_render:
  "list_all (\<lambda>x. levels x \<le> 33) xs \<Longrightarrow> length xs \<le> n \<Longrightarrow> finished \<longrightarrow> xs = [] \<Longrightarrow>
     array_values n \<lparr>iterator_cursor = join (map render xs), iterator_finished = finished\<rparr> =
       map value_of xs"
proof (induction xs arbitrary: n finished rule: induct_list012)
  case 1
  then show ?case
    by (cases n) (simp_all add: next_retro_vault_json_array_value_def skip_space_def)
next
  case (2 x)
  moreover have "array_values k \<lparr>iterator_cursor = [], iterator_finished = True\<rparr> = []" for k
    by (cases k) (simp_all add: next_retro_vault_json_array_value_def)
  ultimately show ?case
    using internal_render [of x "[]"] skip_space_render [of x "[]"] hd_render [of x]
    by (cases n) (simp_all add: next_retro_vault_json_array_value_def skip_space_def [of "[]"] Let_def)
next
  case (3 x y ys)
  then show ?case
    using internal_render [of x] hd_render [of x]
    by (cases n) (simp_all add: next_retro_vault_json_array_value_def Let_def)
qed

lemma array_render:
  assumes "levels (JArray xs) \<le> 33"
  shows "\<exists>it. init_retro_vault_json_array_iterator (value_of (JArray xs)) = Some it \<and>
    array_values (length xs + 1) it = map value_of xs"
proof -
  have "list_all (\<lambda>x. levels x \<le> 33) xs"
    using assms levels_le [of _ xs levels] by (fastforce simp: list_all_iff)
  then show ?thesis
    using array_values_render [of xs "length xs + 1" False]
    by (simp add: init_retro_vault_json_array_iterator_def value_of_def)
qed

lemma member_render:
  assumes "levels (JObject ms) \<le> 33"
  shows "get_retro_vault_json_member (value_of (JObject ms)) name =
    Inr (map_option value_of (map_of (map (apfst c_string) ms) name))"
proof -
  have "list_all (\<lambda>(k, v). levels v \<le> 33) ms"
    using assms levels_le [of _ ms "\<lambda>(k, v). levels v"] by (fastforce simp: list_all_iff)
  moreover have "length ms \<le> length (join (map render_member ms))"
    using length_join [of "map render_member ms"] by (auto simp: list_all_iff split_beta)
  ultimately show ?thesis
    using find_member_render [of ms "length (render (JObject ms))" name]
    by (simp add: get_retro_vault_json_member_def value_of_def)
qed

text \<open>
  C9. Documents are read as they were written. Every JSON document of at most 33 levels (32 nested
  containers inside the outermost value), printed with escapes and surrounded by white space, is
  accepted, and the lookups of the service find its parts: a string decodes to the original
  bytes, a number below 2 to the 64 to its value, an array steps through its elements in order,
  and an object returns the first member of the name and nothing for other names.
\<close>

theorem json_round_trip:
  assumes "levels j \<le> 33" and "list_all isspace before" and "list_all isspace after"
  shows "parse_retro_vault_json (before @ render j @ after) = Some (value_of j) \<and>
    (case j of
       JString s \<Rightarrow> duplicate_retro_vault_json_string (value_of j) = Some s
     | JNumber n \<Rightarrow> get_retro_vault_json_uint64 (value_of j) =
         (if n < 2 ^ 64 then Some (of_nat n) else None)
     | JArray xs \<Rightarrow> (\<exists>it. init_retro_vault_json_array_iterator (value_of j) = Some it \<and>
         array_values (length xs + 1) it = map value_of xs)
     | JObject ms \<Rightarrow> (\<forall>name. get_retro_vault_json_member (value_of j) name =
         Inr (map_option value_of (map_of (map (apfst c_string) ms) name)))
     | _ \<Rightarrow> True)"
proof
  show "parse_retro_vault_json (before @ render j @ after) = Some (value_of j)"
    using assms by (rule document_render)
  show "case j of
       JString s \<Rightarrow> duplicate_retro_vault_json_string (value_of j) = Some s
     | JNumber n \<Rightarrow> get_retro_vault_json_uint64 (value_of j) =
         (if n < 2 ^ 64 then Some (of_nat n) else None)
     | JArray xs \<Rightarrow> (\<exists>it. init_retro_vault_json_array_iterator (value_of j) = Some it \<and>
         array_values (length xs + 1) it = map value_of xs)
     | JObject ms \<Rightarrow> (\<forall>name. get_retro_vault_json_member (value_of j) name =
         Inr (map_option value_of (map_of (map (apfst c_string) ms) name)))
     | _ \<Rightarrow> True"
    using assms(1) array_render member_render
    by (cases j) (simp_all add: duplicate_render uint64_render del: levels.simps)
qed

definition demo_json :: json where
  "demo_json = JObject [(ascii ''name'', JString [0x22, 10, 0xC3, 0x84]),
     (ascii ''parts'', JArray [JNumber 7, JNull, JObject []]), (ascii ''name'', JBool True)]"

theorem json_round_trip_witness:
  "parse_retro_vault_json ([10] @ render demo_json @ [32]) = Some (value_of demo_json) \<and>
   get_retro_vault_json_member (value_of demo_json) (ascii ''name'') =
     Inr (Some (value_of (JString [0x22, 10, 0xC3, 0x84])))"
  using json_round_trip [of demo_json "[10]" "[32]"]
  by (simp add: demo_json_def isspace_def c_string_def ascii_Cons)

end
