(* ===== verification/Retro_Catalog_Render.thy ===== *)
theory Retro_Catalog_Render
  imports Retro_Safety Retro_Json_Render
begin

text \<open>
  The catalogue as the API publishes it, and what the service makes of it: every published
  catalogue is read back, member by member. One fault shows: a file whose size needs more than 32
  bits makes the size of its download wrap.
\<close>

subsection \<open>Reading printed documents\<close>

fun fold_option :: "('s \<Rightarrow> 'a \<Rightarrow> 's option) \<Rightarrow> 'a list \<Rightarrow> 's \<Rightarrow> 's option" where
  "fold_option f [] s = Some s"
| "fold_option f (x # xs) s = (case f s x of None \<Rightarrow> None | Some s \<Rightarrow> fold_option f xs s)"

lemma next_value_render:
  assumes "levels x \<le> 33"
  shows "next_retro_vault_json_array_value
      \<lparr>iterator_cursor = join (map render (x # xs)), iterator_finished = False\<rparr> =
    (Inr (Some (value_of x)), \<lparr>iterator_cursor = join (map render xs), iterator_finished = xs = []\<rparr>)"
proof (cases xs)
  case Nil
  then show ?thesis
    using internal_render [of x "[]"] hd_render [of x] skip_space_render [of x "[]"] assms
    by (simp add: next_retro_vault_json_array_value_def Let_def) (simp add: skip_space_def)
next
  case (Cons y ys)
  then show ?thesis
    using internal_render [of x "comma # join (map render (y # ys))"] hd_render [of x] assms
    by (simp add: next_retro_vault_json_array_value_def Let_def)
qed

lemma each_value_render:
  "list_all (\<lambda>x. levels x \<le> 33) xs \<Longrightarrow>
     each_value body \<lparr>iterator_cursor = join (map render xs), iterator_finished = finished \<and> xs = []\<rparr> s =
       fold_option body (map value_of xs) s"
proof (induction xs arbitrary: s finished)
  case Nil
  show ?case
    by (subst each_value.simps) (simp add: next_retro_vault_json_array_value_def skip_space_def)
next
  case (Cons x xs)
  then have "each_value body \<lparr>iterator_cursor = join (map render xs), iterator_finished = xs = []\<rparr> s =
      fold_option body (map value_of xs) s" for s
    using Cons.IH [of True] by simp
  with Cons.prems next_value_render [of x xs] show ?case
    by (subst each_value.simps) (simp split: option.split)
qed

lemma each_array_value_render:
  assumes "levels (JArray xs) \<le> 33"
  shows "each_array_value body (value_of (JArray xs)) s = fold_option body (map value_of xs) s"
proof -
  have "list_all (\<lambda>x. levels x \<le> 33) xs"
    using assms levels_le [of _ xs levels] by (fastforce simp: list_all_iff)
  from each_value_render [OF this, of body False] show ?thesis
    by (simp add: each_array_value_def init_retro_vault_json_array_iterator_def value_of_def)
qed

subsection \<open>Published downloads\<close>

record published_download =
  pub_download_id :: bytes
  pub_label :: bytes
  pub_format :: bytes
  pub_files :: "nat option list" \<comment> \<open>the sizes, where they are known\<close>

definition file_json :: "nat option \<Rightarrow> json" where
  "file_json f = JObject (case f of None \<Rightarrow> [] | Some n \<Rightarrow> [(ascii ''sizeBytes'', JNumber n)])"

definition download_json :: "published_download \<Rightarrow> json" where
  "download_json d = JObject [(ascii ''id'', JString (pub_download_id d)),
     (ascii ''label'', JString (pub_label d)), (ascii ''format'', JString (pub_format d)),
     (ascii ''files'', JArray (map file_json (pub_files d)))]"

text \<open>The size of a download is known when all its files' are and the sum fits 32 bits.\<close>

definition total_size :: "nat option list \<Rightarrow> u32" where
  "total_size fs =
     (if None \<notin> set fs \<and> sum_list (map the fs) \<le> 0xFFFFFFFF then of_nat (sum_list (map the fs))
      else RETRO_VAULT_SIZE_UNKNOWN)"

definition stored_download :: "published_download \<Rightarrow> retro_vault_download" where
  "stored_download d = \<lparr>download_id = pub_download_id d, download_label = pub_label d,
     download_format = pub_format d, aggregate_size = total_size (pub_files d),
     file_count = of_nat (min 255 (length (pub_files d)))\<rparr>"

definition named :: "bytes \<Rightarrow> bool" where
  "named t \<longleftrightarrow> t \<noteq> [] \<and> is_c_string t"

definition wf_published_download :: "published_download \<Rightarrow> bool" where
  "wf_published_download d \<longleftrightarrow> named (pub_download_id d) \<and> named (pub_label d) \<and> named (pub_format d) \<and>
     list_all (\<lambda>f. case f of None \<Rightarrow> True | Some n \<Rightarrow> n \<le> 0xFFFFFFFF) (pub_files d)"

lemma levels_array: "list_all (\<lambda>x. levels x \<le> k) xs \<Longrightarrow> levels (JArray xs) \<le> Suc k"
  by (induction xs) auto

lemma levels_file [simp]: "levels (file_json f) \<le> 2"
  by (cases f) (simp_all add: file_json_def)

lemma levels_files: "levels (JArray (map file_json fs)) \<le> 3"
proof -
  have "list_all (\<lambda>x. levels x \<le> 2) (map file_json fs)"
    by (simp add: list_all_iff)
  from levels_array [OF this] show ?thesis by simp
qed

lemma levels_download: "levels (download_json d) \<le> 4"
  using levels_files [of "pub_files d"] by (simp add: download_json_def del: levels.simps(1))

lemma c_string_keys:
  "c_string (ascii ''id'') = ascii ''id''" "c_string (ascii ''label'') = ascii ''label''"
  "c_string (ascii ''format'') = ascii ''format''" "c_string (ascii ''files'') = ascii ''files''"
  "c_string (ascii ''sizeBytes'') = ascii ''sizeBytes''" "c_string (ascii ''name'') = ascii ''name''"
  "c_string (ascii ''vendor'') = ascii ''vendor''" "c_string (ascii ''platformId'') = ascii ''platformId''"
  "c_string (ascii ''platformName'') = ascii ''platformName''" "c_string (ascii ''modelId'') = ascii ''modelId''"
  "c_string (ascii ''modelName'') = ascii ''modelName''" "c_string (ascii ''version'') = ascii ''version''"
  "c_string (ascii ''description'') = ascii ''description''" "c_string (ascii ''rating'') = ascii ''rating''"
  "c_string (ascii ''releaseYear'') = ascii ''releaseYear''" "c_string (ascii ''downloads'') = ascii ''downloads''"
  by (simp_all add: c_string_def ascii_Cons)

lemma string_member_render:
  assumes "levels (JObject ms) \<le> 33" and "map_of (map (apfst c_string) ms) name = Some (JString t)"
    and "is_c_string t" and "required \<Longrightarrow> t \<noteq> []"
  shows "get_json_string_member (value_of (JObject ms)) name required = Some t"
  using assms by (simp add: get_json_string_member_def member_render duplicate_render)

lemma download_file_step_render:
  assumes "case f of None \<Rightarrow> True | Some s \<Rightarrow> s < 2 ^ 64"
  shows "download_file_step (n, t, known) (value_of (file_json f)) =
    Some (if n < 255 then n + 1 else n,
      case f of None \<Rightarrow> (t, False)
      | Some s \<Rightarrow> if t > 0xFFFFFFFF - of_nat s then (t, False) else (t + of_nat s, known))"
  using assms levels_file [of f]
  by (cases f) (simp_all add: download_file_step_def file_json_def get_json_uint64_member_def member_render
      c_string_keys uint64_render)

lemma count_up:
  fixes n :: u8
  shows "unat (if n < 255 then n + 1 else n) = min 255 (unat n + 1)"
proof (cases "n < 255")
  case True
  then have "unat n < 255" by (simp add: word_less_nat_alt)
  then have "unat (n + 1) = unat n + 1"
    by (simp add: unat_word_ariths)
  with True \<open>unat n < 255\<close> show ?thesis by simp
next
  case False
  then have "unat n = 255"
    using unat_u8_le [of n] by (simp add: word_less_nat_alt)
  then show ?thesis by (simp add: False)
qed

lemma too_much:
  assumes "t \<le> 0xFFFFFFFF" and "s \<le> 0xFFFFFFFF"
  shows "(of_nat t :: 64 word) > 0xFFFFFFFF - of_nat s \<longleftrightarrow> t + s > 0xFFFFFFFF"
proof -
  have "(of_nat s :: 64 word) \<le> 0xFFFFFFFF"
    using assms(2) by (simp add: word_le_nat_alt unat_of_nat)
  then have "unat (0xFFFFFFFF - of_nat s :: 64 word) = 0xFFFFFFFF - s"
    using assms(2) by (simp add: unat_sub unat_of_nat)
  then show ?thesis
    using assms by (simp add: word_less_nat_alt unat_of_nat) linarith
qed

lemma narrow_of_nat: "(ucast (of_nat k :: 64 word) :: u32) = of_nat k"
  by (simp add: word_unat_eq_iff unat_of_nat unsigned_ucast_eq take_bit_eq_mod mod_mod_cancel)

lemma files_fold:
  assumes "list_all (\<lambda>f. case f of None \<Rightarrow> True | Some n \<Rightarrow> n \<le> 0xFFFFFFFF) fs" and "t \<le> 0xFFFFFFFF"
  shows "\<exists>n' t' known'. fold_option download_file_step (map value_of (map file_json fs)) (n, of_nat t, known) =
      Some (n', of_nat t', known') \<and> unat n' = min 255 (unat n + length fs) \<and> t' \<le> 0xFFFFFFFF \<and>
      (known' \<longleftrightarrow> known \<and> None \<notin> set fs \<and> t + sum_list (map the fs) \<le> 0xFFFFFFFF) \<and>
      (known' \<longrightarrow> t' = t + sum_list (map the fs))"
  using assms
proof (induction fs arbitrary: n t known)
  case (Cons f fs)
  define m where "m = (if n < 255 then n + 1 else n)"
  have step: "download_file_step (n, of_nat t, known) (value_of (file_json f)) =
    Some (m, case f of None \<Rightarrow> (of_nat t, False)
      | Some s \<Rightarrow> if t + s > 0xFFFFFFFF then (of_nat t, False) else (of_nat (t + s), known))"
    using Cons.prems unfolding m_def
    by (subst download_file_step_render) (auto split: option.splits simp: too_much)
  have m: "min 255 (unat m + k) = min 255 (unat n + Suc k)" for k
    using count_up [of n] by (simp add: m_def min_def)
  show ?case
  proof (cases "\<exists>s. f = Some s \<and> t + s \<le> 0xFFFFFFFF")
    case True
    then obtain s where f: "f = Some s" "t + s \<le> 0xFFFFFFFF" by blast
    with step Cons.IH [of "t + s" m known] Cons.prems(1) show ?thesis
      unfolding list.map fold_option.simps by (simp add: m add.assoc)
  next
    case False
    then have "download_file_step (n, of_nat t, known) (value_of (file_json f)) = Some (m, of_nat t, False)"
      using step by (auto split: option.splits)
    moreover have "\<not> (known \<and> None \<notin> set (f # fs) \<and> t + sum_list (map the (f # fs)) \<le> 0xFFFFFFFF)"
      using False by (cases f) auto
    moreover have "list_all (\<lambda>f. case f of None \<Rightarrow> True | Some n \<Rightarrow> n \<le> 0xFFFFFFFF) fs"
      using Cons.prems(1) by simp
    from Cons.IH [OF this Cons.prems(2), of m False]
    obtain n' t' where "fold_option download_file_step (map value_of (map file_json fs)) (m, of_nat t, False) =
        Some (n', of_nat t', False)" "unat n' = min 255 (unat m + length fs)" "t' \<le> 0xFFFFFFFF"
      by (auto simp only: simp_thms)
    ultimately show ?thesis
      unfolding list.map fold_option.simps m by (intro exI [of _ n'] exI [of _ t'] exI [of _ False]) simp
  qed
qed (auto simp: unat_u8_le)

lemma parse_download_files_fold:
  "parse_download_files (value_of (download_json d)) =
     map_option (\<lambda>(n_files, bytes_total, known).
         (n_files, if known then ucast bytes_total else RETRO_VAULT_SIZE_UNKNOWN))
       (fold_option download_file_step (map value_of (map file_json (pub_files d))) (0, 0, True))"
proof -
  let ?files = "JArray (map file_json (pub_files d))"
  have "get_retro_vault_json_member (value_of (download_json d)) (ascii ''files'') = Inr (Some (value_of ?files))"
    using levels_download [of d] unfolding download_json_def
    by (subst member_render) (simp_all add: c_string_keys)
  moreover have "levels ?files \<le> 33"
    using levels_files [of "pub_files d"] by simp
  ultimately show ?thesis
    by (simp add: parse_download_files_def each_array_value_render)
qed

lemma parse_download_files_render:
  assumes "wf_published_download d"
  shows "parse_download_files (value_of (download_json d)) =
    Some (of_nat (min 255 (length (pub_files d))), total_size (pub_files d))"
proof -
  obtain n' t' known' where fold: "fold_option download_file_step (map value_of (map file_json (pub_files d))) (0, of_nat 0, True) =
      Some (n', of_nat t', known')" "unat n' = min 255 (unat (0 :: u8) + length (pub_files d))"
    "known' \<longleftrightarrow> True \<and> None \<notin> set (pub_files d) \<and> 0 + sum_list (map the (pub_files d)) \<le> 0xFFFFFFFF"
    "known' \<longrightarrow> t' = 0 + sum_list (map the (pub_files d))"
    using files_fold [of "pub_files d" 0 0 True] assms unfolding wf_published_download_def by blast
  have "n' = of_nat (min 255 (length (pub_files d)))"
    using fold(2) by (simp add: word_unat_eq_iff unat_of_nat)
  moreover have "(if known' then ucast (of_nat t' :: 64 word) else RETRO_VAULT_SIZE_UNKNOWN) = total_size (pub_files d)"
    using fold(3,4) by (simp add: total_size_def narrow_of_nat)
  ultimately show ?thesis
    using fold(1) by (simp add: parse_download_files_fold)
qed

lemma parse_download_render:
  assumes "wf_published_download d"
  shows "parse_download (value_of (download_json d)) = Some (stored_download d)"
proof -
  have "get_json_string_member (value_of (download_json d)) (ascii ''id'') True = Some (pub_download_id d)"
    "get_json_string_member (value_of (download_json d)) (ascii ''label'') True = Some (pub_label d)"
    "get_json_string_member (value_of (download_json d)) (ascii ''format'') True = Some (pub_format d)"
    unfolding download_json_def
    by (rule string_member_render;
        use assms levels_download [of d] in \<open>simp add: download_json_def c_string_keys wf_published_download_def named_def\<close>)+
  then show ?thesis
    using parse_download_files_render [OF assms]
    by (simp add: parse_download_def stored_download_def) (simp add: download_json_def)
qed

subsection \<open>Published packages\<close>

record published_package =
  pub_id :: bytes
  pub_name :: bytes
  pub_vendor :: bytes
  pub_platform_id :: bytes
  pub_platform_name :: bytes
  pub_model_id :: bytes
  pub_model_name :: bytes
  pub_version :: bytes
  pub_description :: bytes
  pub_rating :: bytes
  pub_year :: "nat option"
  pub_downloads :: "published_download list"

definition package_json :: "published_package \<Rightarrow> json" where
  "package_json p = JObject
     [(ascii ''id'', JString (pub_id p)), (ascii ''name'', JString (pub_name p)),
      (ascii ''vendor'', JString (pub_vendor p)), (ascii ''platformId'', JString (pub_platform_id p)),
      (ascii ''platformName'', JString (pub_platform_name p)), (ascii ''modelId'', JString (pub_model_id p)),
      (ascii ''modelName'', JString (pub_model_name p)), (ascii ''version'', JString (pub_version p)),
      (ascii ''description'', JString (pub_description p)), (ascii ''rating'', JString (pub_rating p)),
      (ascii ''releaseYear'', case pub_year p of None \<Rightarrow> JNull | Some y \<Rightarrow> JNumber y),
      (ascii ''downloads'', JArray (map download_json (pub_downloads p)))]"

definition stored_package :: "published_package \<Rightarrow> retro_vault_package" where
  "stored_package p = \<lparr>package_id = pub_id p, package_name = pub_name p, vendor = pub_vendor p,
     platform_id = pub_platform_id p, platform_name = pub_platform_name p, model_id = pub_model_id p,
     model_name = pub_model_name p, version = pub_version p, description = pub_description p,
     release_year = (case pub_year p of None \<Rightarrow> 0 | Some y \<Rightarrow> if y \<le> 65535 then of_nat y else 0),
     rating = parse_rating (pub_rating p), downloads = map stored_download (pub_downloads p)\<rparr>"

definition wf_published_package :: "published_package \<Rightarrow> bool" where
  "wf_published_package p \<longleftrightarrow> named (pub_id p) \<and> named (pub_name p) \<and>
     list_all is_c_string [pub_vendor p, pub_platform_id p, pub_platform_name p, pub_model_id p,
       pub_model_name p, pub_version p, pub_description p, pub_rating p] \<and>
     (case pub_year p of None \<Rightarrow> True | Some y \<Rightarrow> y < 2 ^ 64) \<and>
     list_all wf_published_download (pub_downloads p)"

lemma levels_downloads: "levels (JArray (map download_json ds)) \<le> 5"
proof -
  have "list_all (\<lambda>x. levels x \<le> 4) (map download_json ds)"
    by (simp add: list_all_iff levels_download)
  from levels_array [OF this] show ?thesis by simp
qed

lemma levels_package: "levels (package_json p) \<le> 6"
  using levels_downloads [of "pub_downloads p"]
  by (simp add: package_json_def del: levels.simps(1) split: option.split)

lemma fold_append:
  "list_all (\<lambda>x. f (v x) = Some (g x)) xs \<Longrightarrow>
     fold_option (\<lambda>sofar item. map_option (\<lambda>d. sofar @ [d]) (f item)) (map v xs) ys = Some (ys @ map g xs)"
  by (induction xs arbitrary: ys) auto

lemma parse_downloads_render:
  assumes "list_all wf_published_download (pub_downloads p)"
  shows "parse_downloads (value_of (package_json p)) = Some (map stored_download (pub_downloads p))"
proof -
  have "list_all (\<lambda>d. parse_download (value_of (download_json d)) = Some (stored_download d)) (pub_downloads p)"
    using assms by (simp add: list_all_iff parse_download_render)
  from fold_append [of parse_download "value_of \<circ> download_json", simplified, OF this, of "[]"]
  show ?thesis
    using levels_downloads [of "pub_downloads p"] levels_package [of p]
    by (simp add: parse_downloads_def package_json_def member_render c_string_keys each_array_value_render
        comp_def)
qed

lemma release_year_render:
  assumes "case pub_year p of None \<Rightarrow> True | Some y \<Rightarrow> y < 2 ^ 64"
  shows "get_json_uint64_member (value_of (package_json p)) (ascii ''releaseYear'') =
    Some (case pub_year p of None \<Rightarrow> (0, False) | Some y \<Rightarrow> (of_nat y, True))"
  using assms levels_package [of p]
  by (simp add: package_json_def get_json_uint64_member_def member_render c_string_keys uint64_render
      split: option.splits)

lemma stored_year:
  "y < 2 ^ 64 \<Longrightarrow> (if (of_nat y :: 64 word) \<le> 0xFFFF then ucast (of_nat y :: 64 word) else 0) =
     (if y \<le> 65535 then of_nat y else (0 :: u16))"
  by (simp add: word_le_nat_alt word_unat_eq_iff unat_of_nat unsigned_ucast_eq take_bit_eq_mod)

lemma parse_package_render:
  assumes "wf_published_package p"
  shows "parse_package (value_of (package_json p)) = Some (stored_package p)"
proof -
  let ?v = "value_of (package_json p)"
  have "get_json_string_member ?v (ascii ''id'') True = Some (pub_id p)"
    "get_json_string_member ?v (ascii ''name'') True = Some (pub_name p)"
    "get_json_string_member ?v (ascii ''vendor'') False = Some (pub_vendor p)"
    "get_json_string_member ?v (ascii ''platformId'') False = Some (pub_platform_id p)"
    "get_json_string_member ?v (ascii ''platformName'') False = Some (pub_platform_name p)"
    "get_json_string_member ?v (ascii ''modelId'') False = Some (pub_model_id p)"
    "get_json_string_member ?v (ascii ''modelName'') False = Some (pub_model_name p)"
    "get_json_string_member ?v (ascii ''version'') False = Some (pub_version p)"
    "get_json_string_member ?v (ascii ''description'') False = Some (pub_description p)"
    "get_json_string_member ?v (ascii ''rating'') False = Some (pub_rating p)"
    unfolding package_json_def
    by (rule string_member_render;
        use assms levels_package [of p] in \<open>simp add: package_json_def c_string_keys wf_published_package_def named_def\<close>)+
  moreover have "json_type ?v = retro_vault_json_object"
    by (simp add: package_json_def)
  moreover obtain year known where "get_json_uint64_member ?v (ascii ''releaseYear'') = Some (year, known)"
    "(if known \<and> year \<le> 0xFFFF then ucast year else 0) =
       (case pub_year p of None \<Rightarrow> 0 | Some y \<Rightarrow> if y \<le> 65535 then of_nat y else (0 :: u16))"
  proof (cases "pub_year p")
    case (Some y)
    with assms release_year_render [of p] stored_year [of y] that [of "of_nat y" True] show ?thesis
      by (simp add: wf_published_package_def)
  qed (use assms release_year_render [of p] that [of 0 False] in \<open>simp add: wf_published_package_def\<close>)
  moreover have "parse_downloads ?v = Some (map stored_download (pub_downloads p))"
    using assms by (intro parse_downloads_render) (simp add: wf_published_package_def)
  ultimately show ?thesis
    by (simp add: parse_package_def stored_package_def)
qed

lemma fold_catalog:
  "list_all (\<lambda>x. f (v x) = Some (g x)) xs \<Longrightarrow> length ys + length xs \<le> n \<Longrightarrow>
     fold_option (\<lambda>sofar item. if length sofar \<ge> n then None else map_option (\<lambda>d. sofar @ [d]) (f item))
       (map v xs) ys = Some (ys @ map g xs)"
  by (induction xs arbitrary: ys) auto

text \<open>
  C12. The service reads the catalogue that the API publishes: for every list of at most 65535
  published packages whose names are given and whose file sizes fit 32 bits, the printed document is
  accepted and stored member by member: texts unchanged, year and rating as the protocol has them,
  and for every download the number of its files (up to 255) and the sum of their sizes, or the mark
  of an unknown size when a size is missing or the sum needs more than 32 bits.
\<close>

theorem catalog_round_trip:
  assumes "list_all wf_published_package ps" and "length ps \<le> 65535"
  shows "parse_catalog (render (JArray (map package_json ps))) = Some (map stored_package ps)"
proof -
  have "list_all (\<lambda>x. levels x \<le> 6) (map package_json ps)"
    by (simp add: list_all_iff levels_package)
  from levels_array [OF this] have levels: "levels (JArray (map package_json ps)) \<le> 33" by simp
  have "list_all (\<lambda>p. parse_package (value_of (package_json p)) = Some (stored_package p)) ps"
    using assms(1) by (simp add: list_all_iff parse_package_render)
  from fold_catalog [of parse_package "value_of \<circ> package_json", simplified, OF this, of "[]" 65535]
  show ?thesis
    using assms(2) document_render [OF levels, of "[]" "[]"]
    by (simp add: parse_catalog_def each_array_value_render [OF levels] comp_def)
qed

definition demo_published :: published_package where
  "demo_published = \<lparr>pub_id = ascii ''chess'', pub_name = ascii ''Chess'', pub_vendor = ascii ''ACME'',
     pub_platform_id = ascii ''idp'', pub_platform_name = [], pub_model_id = [], pub_model_name = [],
     pub_version = [], pub_description = ascii ''A game'', pub_rating = ascii ''Great'', pub_year = Some 1984,
     pub_downloads = [\<lparr>pub_download_id = ascii ''disk'', pub_label = ascii ''Disk'', pub_format = ascii ''img'',
       pub_files = [Some 100, Some 28]\<rparr>]\<rparr>"

theorem catalog_round_trip_witness:
  "parse_catalog (render (JArray [package_json demo_published])) = Some [stored_package demo_published] \<and>
   map aggregate_size (downloads (stored_package demo_published)) = [128]"
  using catalog_round_trip [of "[demo_published]"]
  by (simp add: wf_published_package_def wf_published_download_def named_def demo_published_def ascii_Cons
      stored_package_def stored_download_def total_size_def)

text \<open>
  C40. A fault. A single file of 4 GiB or more has a size of more than 32 bits, which the protocol would
  mark as unknown; the check compares with \<open>UINT32_MAX - size\<close>, which wraps, so the low 32 bits are
  stored as if they were the size. A file of exactly 4 GiB is announced as empty.
\<close>

theorem large_file_size_wraps:
  assumes "k < 0x100000000" and "pub_files d = [Some (0x100000000 + k)]"
  shows "parse_download_files (value_of (download_json d)) = Some (1, of_nat k)"
proof -
  let ?n = "0x100000000 + k"
  have "download_file_step (0, 0, True) (value_of (file_json (Some ?n))) = Some (1, of_nat ?n, True)"
    using download_file_step_render [of "Some ?n" 0 0 True] assms(1) by simp
  moreover have "unat (of_nat ?n :: u32) = unat (of_nat k :: u32)"
    by (simp only: unat_of_nat) simp
  then have "(of_nat ?n :: u32) = of_nat k"
    by (rule word_unat_eq_iff [THEN iffD2])
  ultimately show ?thesis
    using assms(2) narrow_of_nat [of ?n] by (simp add: parse_download_files_fold)
qed

definition demo_large :: published_download where
  "demo_large = \<lparr>pub_download_id = ascii ''disk'', pub_label = ascii ''Disk'', pub_format = ascii ''img'',
     pub_files = [Some 0x100000000]\<rparr>"

theorem large_file_size_wraps_witness:
  "parse_download_files (value_of (download_json demo_large)) = Some (1, 0)"
  using large_file_size_wraps [of 0 demo_large] by (simp add: demo_large_def)

end
