(* ===== verification/Spec2Isabelle.thy ===== *)
theory Spec2Isabelle
  imports Server_Life Filesystem_Walk Tcp_Safety Program_Properties Retro_Text Retro_Catalog_Render
begin

text \<open>
  Verification of squid-server: a server that gives 8-bit machines access to a time service, a
  rooted filesystem, a TCP proxy and the RetroVault package catalogue, over libsquid sockets on a
  serial line or a Unix domain socket, and the portable client library that talks to it.

  \<^bold>\<open>The program.\<close> \<open>main\<close> parses the command line (\<open>src/config/server_config.c\<close>) and runs
  \<open>run_server_runtime\<close> (\<open>src/runtime/server_runtime.c\<close>), which reads the plugin configuration file
  (\<open>src/config/server_plugin_config.c\<close>), loads the listed shared libraries
  (\<open>src/plugin/server_plugin_loader.c\<close>) and registers each on a port
  (\<open>src/plugin/server_plugin_registry.c\<close>), opens a transport (\<open>src/transport/\<close>), opens a libsquid
  socket per port and then loops: it assembles length-prefixed request packets per port, calls the
  plugin's \<open>handle_packet\<close> and sends the framed response, keeping a response that libsquid refuses.
  The plugins (\<open>lib/echo\<close>, \<open>lib/squidsys\<close>, \<open>lib/time\<close>, \<open>lib/filesystem\<close>, \<open>lib/tcp_proxy\<close>,
  \<open>lib/retrovault\<close>) answer one request with one response of at most 255 bytes. The client library
  (\<open>lib/client\<close>) makes one exchange at a time and decodes the responses.

  \<^bold>\<open>How it is modelled.\<close> Byte strings are lists of \<open>8 word\<close>, wire integers are words of their width,
  structs are records and enums datatypes. Code outside the repository (the kernel, \<open>dlopen\<close>,
  libsquid, libcurl, the clock) is an oracle: a function of the history of calls and of the call's
  arguments. A computation with such calls is a state monad over the trace of calls
  (\<open>Effects\<close>); \<open>ensures m Q\<close> says that in every run the result and the events added satisfy \<open>Q\<close>.
  A theorem about every oracle holds for every behaviour of the environment.

  \<^bold>\<open>The theories.\<close>
  \<^item> \<open>Prelude\<close>: bytes, C text, wire integers, decimal numbers, fixed buffers. \<open>Effects\<close>: calls, traces.
  \<^item> \<open>Plugin_Registry\<close>: the slot table, and its contract, the locale \<open>port_table\<close>.
    \<open>Plugin_Loader\<close>: loading, registering and unloading libraries, with the ledger of what is held.
    \<open>Server_Startup\<close>: loading everything a configuration lists, and the balance of start and stop.
  \<^item> \<open>Server_Config\<close>: the command line and the configuration file. \<open>Config_Render\<close>: the inverse of the
    file parser, the round trip, the well-formedness of what is accepted and two faults.
  \<^item> \<open>Runtime\<close>: the per-port buffers, reassembly, dispatch and the loop of \<open>server_runtime.c\<close>.
    \<open>Runtime_Streams\<close>: framing and the reference function \<open>deframe\<close>. \<open>Runtime_Loop\<close>: the loop refines
    it over a whole session, ends after a signal and closes what it opened.
  \<^item> \<open>Server_Run\<close>: the process, with the log, daemonisation, signal handlers, the choice of the transport
    and the entry point, as a sequence of phases over the loader, the transports and the loop.
    \<open>Server_Life\<close>: on every path to its end the process has released what it took, in order.
  \<^item> \<open>Packet_Service\<close>: what the plugins share, the locale \<open>packet_service\<close>, with the echo and system
    plugins. \<open>Time_Service\<close>, \<open>Filesystem_Service\<close>, \<open>Tcp_Proxy\<close>: the models of the three cores and their
    wrappers. \<open>Filesystem_Safety\<close>, \<open>Tcp_Safety\<close>: confinement, ledgers of descriptors and sockets, bounds of
    waits, and the interpretations of \<open>packet_service\<close>. \<open>Filesystem_Walk\<close>: listing an unchanged directory page
    by page (contract \<open>cursor_pages\<close> of \<open>Retro_Walk\<close>) and reading a file chunk by chunk are complete; the exported root
    is listed once only.
  \<^item> \<open>Retro_Protocol\<close>: the constants, and the locale \<open>record_page\<close> of paged responses. \<open>Retro_Json\<close>: the JSON
    reader; \<open>Retro_Json_Properties\<close>: what it reports lies inside its input, fuel suffices;
    \<open>Retro_Json_Render\<close>: every printed document is read back. \<open>Retro_Catalog\<close>: buffer, HTTP client,
    catalogue; \<open>Retro_Pages\<close>: filters and pages; \<open>Retro_Service\<close>: downloads, handlers and the plugin;
    \<open>Retro_Safety\<close>: addresses (and the redirects libcurl may follow from them), sizes and responses of every request; \<open>Retro_Walk\<close>: walks over the pages are
    complete (locale \<open>cursor_pages\<close>); \<open>Retro_Text\<close>: where texts are cut; \<open>Retro_Catalog_Render\<close>: every
    published catalogue is read back.
  \<^item> \<open>Transports\<close>: the serial and the local transport; \<open>Transport_Properties\<close>: the output ring as a queue
    (locale \<open>byte_fifo\<close>), order of bytes, descriptors, termination of waits, the 20 ms clock.
  \<^item> \<open>Client_Core\<close>: one exchange, its alignment with the byte stream and its end; \<open>Client_Services\<close>: the typed
    calls; \<open>Client_Properties\<close>: they read what the services wrote. \<open>Client_Server\<close>: the server's loop behind a
    lossless link (locale \<open>lossless_link\<close>) is the peer these theorems speak of. \<open>Client_Programs\<close>: opening a client on a
    Spectrum with Interface 1 and the two sample programs; \<open>Program_Properties\<close>: they release what they
    take, and the echo sample, linked to one server for its whole run, prints back what it is given.

  \<^bold>\<open>Fuel.\<close> Recursions are structural or carry a termination proof, except the loops that wait for the
  outside: the client's waits, the transports' retries after \<open>EINTR\<close> and the server's loop take a
  number of rounds. A call that may never return, \<open>accept\<close> on the local transport, has this as one of
  its answers, and \<open>server_ends_well\<close> shows that it is the only place where the process can stay. \<open>client_exchange_ends\<close>, \<open>serial_wait_returns\<close> and \<open>serve_returns_and_closes\<close> give a
  number that is enough. The JSON loops take the number of bytes left, which \<open>members_loop_fuel\<close> and
  \<open>elements_loop_fuel\<close> show to be enough.

  \<^bold>\<open>Not modelled.\<close> The tests, and the Z80 assembly of the Spectrum client (\<open>lib/client/z80\<close>), another
  language. \<open>main\<close> only calls \<open>run_server_app\<close>. Failing
  allocations and the null-pointer guards at the head of the functions. The text of a log line that
  the loader or the loop writes: its event has the values the line prints. The hooks that libsquid
  calls inside \<open>snet_burst\<close> are modelled with the transports and not interleaved with the loop, which
  sees libsquid as an oracle. libsquid, libcurl and the C library are parameters.
\<close>

subsection \<open>The plugins and the runtime\<close>

text \<open>
  C24. The plugins answer in the protocol. For every request, every state of a plugin and every
  behaviour of its environment, the time, filesystem, TCP and RetroVault plugins answer a packet
  with the runtime's buffer of 255 bytes either not at all or with at least an opcode and a status,
  within the buffer, the opcode being the request's with the response bit set; and the runtime
  puts exactly this response on the wire, and nothing when there is none.
\<close>

theorem services_answer_in_protocol:
  "proper_answer request (handle_squid_time_packet time_api request server_packet_max) \<and>
   proper_answer request (fst (run_state (handle_squid_fs_packet fs_api fs_state request server_packet_max) s)) \<and>
   proper_answer request
     (fst (fst (run_state (handle_squid_tcp_packet tcp_api tcp_state request server_packet_max) s'))) \<and>
   proper_answer request
     (fst (fst (run_state (handle_retro_vault_packet retro_api retro_state request server_packet_max) s'')))"
  by (intro conjI time.proper fs.proper tcp.proper retro.proper) blast+

end
